(* ===== verification/Prelude.thy ===== *)
theory Prelude
  imports Main "HOL-Library.AList" "HOL-Library.Char_ord" "HOL-Library.List_Lexorder"
begin

text \<open>
  What every component of the model shares: the collections of rewrite and
  introduction rules, results that may be errors, Go's \<open>time.Time\<close> as an ordered
  type, and Go maps.

  A Go map is an association list with distinct keys. The order of the list stands
  for the iteration order the Go runtime happens to choose, so \<open>range\<close> loops are
  functions of the list, and no theorem may depend on the order. The laws clients
  rely on are the locale \<open>finite_map\<close>, interpreted for association lists.
\<close>

named_theorems go_defs "definitions of small helpers, unfolded by the component proofs"
named_theorems map_laws "lookup after insertion and deletion in a Go map"

subsection \<open>Results\<close>

text \<open>A Go function returning \<open>(T, error)\<close>: \<open>Inl\<close> the error, \<open>Inr\<close> the value.\<close>

type_synonym ('e, 'a) result = "'e + 'a"

fun and_then :: "('e, 'a) result \<Rightarrow> ('a \<Rightarrow> ('e, 'b) result) \<Rightarrow> ('e, 'b) result" where
  "and_then (Inl e) f = Inl e"
| "and_then (Inr a) f = f a"

lemma and_then_Inr: "and_then r f = Inr b \<longleftrightarrow> (\<exists>a. r = Inr a \<and> f a = Inr b)"
  by (cases r) auto

lemma and_then_Inl: "and_then r f = Inl e \<longleftrightarrow> r = Inl e \<or> (\<exists>a. r = Inr a \<and> f a = Inl e)"
  by (cases r) auto

fun is_ok :: "('e, 'a) result \<Rightarrow> bool" where
  "is_ok (Inl _) = False"
| "is_ok (Inr _) = True"

lemma is_ok_iff: "is_ok r \<longleftrightarrow> (\<exists>a. r = Inr a)"
  by (cases r) auto

subsection \<open>Time\<close>

text \<open>
  An instant, counted in nanoseconds from Go's zero \<open>time.Time\<close>. \<open>IsZero\<close> is equality
  with \<open>zero_time\<close>; \<open>After\<close> and \<open>Before\<close> are the order of the type. \<open>Sub\<close> in Go saturates
  at about 292 years; all its uses compare the difference with bounds of minutes, for
  which a saturated value and the exact difference agree.
\<close>

datatype gotime = Nanos (nanos: int)

instantiation gotime :: linorder
begin
definition less_eq_gotime :: "gotime \<Rightarrow> gotime \<Rightarrow> bool" where
  "less_eq_gotime a b \<longleftrightarrow> nanos a \<le> nanos b"
definition less_gotime :: "gotime \<Rightarrow> gotime \<Rightarrow> bool" where
  "less_gotime a b \<longleftrightarrow> nanos a < nanos b"
instance
  by standard (auto simp: less_eq_gotime_def less_gotime_def intro: gotime.expand)
end

definition zero_time :: gotime where
  "zero_time = Nanos 0"

definition is_zero :: "gotime \<Rightarrow> bool" where
  "is_zero t \<longleftrightarrow> t = zero_time"

definition time_sub :: "gotime \<Rightarrow> gotime \<Rightarrow> int" where
  "time_sub a b = nanos a - nanos b"

definition time_add :: "gotime \<Rightarrow> int \<Rightarrow> gotime" where
  "time_add a d = Nanos (nanos a + d)"

definition seconds :: "int \<Rightarrow> int" where
  "seconds n = n * 1000000000"

lemma time_sub_add [simp]: "time_sub (time_add t d) t = d"
  by (simp add: time_sub_def time_add_def)

lemma time_sub_self [simp]: "time_sub t t = 0"
  by (simp add: time_sub_def)

lemma nanos_add [simp]: "nanos (time_add t d) = nanos t + d"
  by (simp add: time_add_def)

lemma gotime_le_iff: "a \<le> b \<longleftrightarrow> nanos a \<le> nanos b"
  by (simp add: less_eq_gotime_def)

lemma gotime_less_iff: "a < b \<longleftrightarrow> nanos a < nanos b"
  by (simp add: less_gotime_def)

lemmas gotime_arith = gotime_le_iff gotime_less_iff time_sub_def time_add_def seconds_def

subsection \<open>Go maps\<close>

type_synonym ('k, 'v) gomap = "('k \<times> 'v) list"

definition get :: "('k, 'v) gomap \<Rightarrow> 'k \<Rightarrow> 'v option" where
  "get m k = map_of m k"

definition put :: "'k \<Rightarrow> 'v \<Rightarrow> ('k, 'v) gomap \<Rightarrow> ('k, 'v) gomap" where
  "put k v m = AList.update k v m"

definition del :: "'k \<Rightarrow> ('k, 'v) gomap \<Rightarrow> ('k, 'v) gomap" where
  "del k m = AList.delete k m"

definition has_key :: "('k, 'v) gomap \<Rightarrow> 'k \<Rightarrow> bool" where
  "has_key m k \<longleftrightarrow> get m k \<noteq> None"

definition map_ok :: "('k, 'v) gomap \<Rightarrow> bool" where
  "map_ok m \<longleftrightarrow> distinct (map fst m)"

definition keys :: "('k, 'v) gomap \<Rightarrow> 'k list" where
  "keys m = map fst m"

text \<open>
  \<open>for k, v := range m\<close> that looks for the first entry with a property: \<open>find\<close> over the
  entries. Looping over the sorted keys and reading each entry is \<open>sorted_vals\<close>.
\<close>

definition sorted_keys :: "('k::linorder, 'v) gomap \<Rightarrow> 'k list" where
  "sorted_keys m = sort (keys m)"

definition sorted_vals :: "('k::linorder, 'v) gomap \<Rightarrow> 'v list" where
  "sorted_vals m = List.map_filter (get m) (sorted_keys m)"

text \<open>What the components rely on when they keep their state in maps.\<close>

locale finite_map =
  fixes lookup :: "'m \<Rightarrow> 'k \<Rightarrow> 'v option"
    and insert_key :: "'k \<Rightarrow> 'v \<Rightarrow> 'm \<Rightarrow> 'm"
    and delete_key :: "'k \<Rightarrow> 'm \<Rightarrow> 'm"
    and entries :: "'m \<Rightarrow> ('k \<times> 'v) list"
    and ok :: "'m \<Rightarrow> bool"
  assumes lookup_insert: "lookup (insert_key k v m) k' = (if k' = k then Some v else lookup m k')"
    and lookup_delete: "lookup (delete_key k m) k' = (if k' = k then None else lookup m k')"
    and entries_lookup: "ok m \<Longrightarrow> (k, v) \<in> set (entries m) \<longleftrightarrow> lookup m k = Some v"
    and ok_insert: "ok m \<Longrightarrow> ok (insert_key k v m)"
    and ok_delete: "ok m \<Longrightarrow> ok (delete_key k m)"
begin

lemma every_insert:
  "(\<And>k v. lookup m k = Some v \<Longrightarrow> P k v) \<Longrightarrow> P k v
    \<Longrightarrow> lookup (insert_key k v m) k' = Some v' \<Longrightarrow> P k' v'"
  by (auto simp: lookup_insert split: if_splits)

lemma every_delete:
  "(\<And>k v. lookup m k = Some v \<Longrightarrow> P k v)
    \<Longrightarrow> lookup (delete_key k m) k' = Some v' \<Longrightarrow> P k' v'"
  by (auto simp: lookup_delete split: if_splits)

lemma entries_insert:
  "ok m \<Longrightarrow> set (entries (insert_key k v m)) = insert (k, v) {e \<in> set (entries m). fst e \<noteq> k}"
  by (auto simp: entries_lookup ok_insert lookup_insert split: if_splits)

lemma entries_delete:
  "ok m \<Longrightarrow> set (entries (delete_key k m)) = {e \<in> set (entries m). fst e \<noteq> k}"
  by (auto simp: entries_lookup ok_delete lookup_delete split: if_splits)

end

interpretation gm: finite_map get put del "\<lambda>m. m" map_ok
proof unfold_locales
  show "get (put k v m) k' = (if k' = k then Some v else get m k')" for k :: 'a and v :: 'b and m k'
    by (simp add: get_def put_def update_conv')
  show "get (del k m) k' = (if k' = k then None else get m k')" for k :: 'a and m :: "('a, 'b) gomap" and k'
    by (simp add: get_def del_def delete_conv')
  show "map_ok m \<Longrightarrow> (k, v) \<in> set m \<longleftrightarrow> get m k = Some v" for m :: "('a, 'b) gomap" and k v
    by (simp add: map_ok_def get_def)
  show "map_ok m \<Longrightarrow> map_ok (put k v m)" for m :: "('a, 'b) gomap" and k v
    by (simp add: map_ok_def put_def distinct_update)
  show "map_ok m \<Longrightarrow> map_ok (del k m)" for m :: "('a, 'b) gomap" and k
    by (simp add: map_ok_def del_def distinct_delete)
qed

lemmas [simp] = gm.lookup_insert gm.lookup_delete
lemmas [simp, intro] = gm.ok_insert gm.ok_delete
lemmas [map_laws] = gm.lookup_insert gm.lookup_delete gm.entries_lookup

lemma map_ok_Nil [simp]: "map_ok []"
  by (simp add: map_ok_def)

lemma get_Nil [simp]: "get [] k = None"
  by (simp add: get_def)

lemma has_key_iff: "has_key m k \<longleftrightarrow> (\<exists>v. get m k = Some v)"
  by (auto simp: has_key_def)

lemma set_keys: "set (keys m) = {k. has_key m k}"
  by (auto simp: keys_def has_key_iff get_def map_of_eq_Some_iff
      dest: map_of_SomeD weak_map_of_SomeI intro: rev_image_eqI)

lemma length_put:
  "length (put k v m) = (if has_key m k then length m else Suc (length m))"
  by (induction m) (auto simp: put_def has_key_def get_def)

lemma length_del:
  "map_ok m \<Longrightarrow> length (del k m) = (if has_key m k then length m - 1 else length m)"
proof (induction m)
  case (Cons e m)
  have "k \<notin> fst ` set m \<Longrightarrow> AList.delete k m = m"
    by (simp add: delete_id)
  then show ?case
    using Cons by (cases e; cases m)
      (auto simp: del_def has_key_def get_def map_ok_def map_of_eq_None_iff split: if_splits)
qed (simp add: del_def has_key_def)

lemma set_sorted_keys [simp]: "set (sorted_keys m) = {k. has_key m k}"
  by (simp add: sorted_keys_def set_keys)

lemma sorted_sorted_keys [simp]: "sorted (sorted_keys m)"
  by (simp add: sorted_keys_def)

lemma set_map_filter: "set (List.map_filter f xs) = {y. \<exists>x \<in> set xs. f x = Some y}"
  by (induction xs) (auto simp: List.map_filter_simps split: option.splits)

lemma set_sorted_vals: "set (sorted_vals m) = {v. \<exists>k. get m k = Some v}"
  by (auto simp: sorted_vals_def set_map_filter has_key_iff)

subsection \<open>Searching a map\<close>

lemma find_Some_set: "find P xs = Some x \<Longrightarrow> x \<in> set xs \<and> P x"
  by (induction xs) (auto split: if_splits)

lemma find_None_set: "find P xs = None \<longleftrightarrow> (\<forall>x \<in> set xs. \<not> P x)"
  by (induction xs) auto

lemma find_unique:
  "\<exists>x \<in> set xs. P x \<Longrightarrow> \<forall>x \<in> set xs. P x \<longrightarrow> x = c \<Longrightarrow> find P xs = Some c"
  by (induction xs) auto

subsection \<open>Rebuilding a map\<close>

lemma get_foldl_put:
  "get (foldl (\<lambda>m x. put (f x) (g x) m) m xs) k
    = (case find (\<lambda>x. f x = k) (rev xs) of Some x \<Rightarrow> Some (g x) | None \<Rightarrow> get m k)"
  by (induction xs rule: rev_induct) auto

lemma map_ok_foldl_put: "map_ok m \<Longrightarrow> map_ok (foldl (\<lambda>m x. put (f x) (g x) m) m xs)"
  by (induction xs arbitrary: m) auto

text \<open>Rebuilding a map from its values, each stored under its own key.\<close>

lemma rebuild_map:
  assumes "\<And>k v. get m k = Some v \<Longrightarrow> f v = k"
  shows "get (foldl (\<lambda>m x. put (f x) (g x) m) [] (sorted_vals m)) k = map_option g (get m k)"
proof (cases "get m k")
  case None
  have "\<not> (\<exists>x \<in> set (rev (sorted_vals m)). f x = k)"
  proof
    assume "\<exists>x \<in> set (rev (sorted_vals m)). f x = k"
    then obtain x j where "get m j = Some x" "f x = k" by (auto simp: set_sorted_vals)
    then show False using assms [of j x] None by simp
  qed
  then have "find (\<lambda>x. f x = k) (rev (sorted_vals m)) = None" by (auto simp: find_None_set)
  then show ?thesis using None by (simp add: get_foldl_put)
next
  case (Some v)
  have "find (\<lambda>x. f x = k) (rev (sorted_vals m)) = Some v"
  proof (rule find_unique)
    show "\<exists>x \<in> set (rev (sorted_vals m)). f x = k"
      using Some assms [OF Some] by (auto simp: set_sorted_vals)
    show "\<forall>x \<in> set (rev (sorted_vals m)). f x = k \<longrightarrow> x = v"
      using Some assms by (auto simp: set_sorted_vals)
  qed
  then show ?thesis using Some by (simp add: get_foldl_put)
qed

lemma has_key_put_iff [simp]: "has_key (put k v m) k' \<longleftrightarrow> k' = k \<or> has_key m k'"
  by (simp add: has_key_def)

lemma has_key_del_iff [simp]: "has_key (del k m) k' \<longleftrightarrow> k' \<noteq> k \<and> has_key m k'"
  by (simp add: has_key_def)

end
