(* ===== verification/GoStrings.thy ===== *)
theory GoStrings
  imports Prelude "HOL-Library.Word"
begin

text \<open>
  The functions of Go's \<open>strings\<close>, \<open>strconv\<close> and \<open>net/url\<close> (query escaping only) that
  the sources call. A Go string is its sequence of bytes, a \<open>char list\<close>. \<open>ToLower\<close> folds
  ASCII letters only: its callers compare the result with ASCII patterns.
\<close>

type_synonym octets = "8 word list"

subsection \<open>Prefixes, substrings, cutting and splitting\<close>

definition has_prefix :: "string \<Rightarrow> string \<Rightarrow> bool" where
  "has_prefix s p \<longleftrightarrow> take (length p) s = p"

definition trim_prefix :: "string \<Rightarrow> string \<Rightarrow> string" where
  "trim_prefix s p = (if has_prefix s p then drop (length p) s else s)"

definition has_suffix :: "string \<Rightarrow> string \<Rightarrow> bool" where
  "has_suffix s p \<longleftrightarrow> has_prefix (rev s) (rev p)"

definition trim_suffix :: "string \<Rightarrow> string \<Rightarrow> string" where
  "trim_suffix s p = (if has_suffix s p then take (length s - length p) s else s)"

fun index_of :: "string \<Rightarrow> string \<Rightarrow> nat option" where
  "index_of [] sub = (if sub = [] then Some 0 else None)"
| "index_of (c # cs) sub =
     (if has_prefix (c # cs) sub then Some 0 else map_option Suc (index_of cs sub))"

definition contains_str :: "string \<Rightarrow> string \<Rightarrow> bool" where
  "contains_str s sub \<longleftrightarrow> index_of s sub \<noteq> None"

definition contains_any :: "string \<Rightarrow> string \<Rightarrow> bool" where
  "contains_any s chars \<longleftrightarrow> list_ex (\<lambda>c. c \<in> set chars) s"

text \<open>\<open>strings.Cut\<close> at a one-byte separator: before, after, found.\<close>

definition cut :: "string \<Rightarrow> char \<Rightarrow> string \<times> string \<times> bool" where
  "cut s c = (case dropWhile (\<lambda>x. x \<noteq> c) s of
     [] \<Rightarrow> (s, [], False)
   | _ # rest \<Rightarrow> (takeWhile (\<lambda>x. x \<noteq> c) s, rest, True))"

fun split_on :: "char \<Rightarrow> string \<Rightarrow> string list" where
  "split_on c [] = [[]]"
| "split_on c (x # xs) =
     (if x = c then [] # split_on c xs
      else (case split_on c xs of [] \<Rightarrow> [[x]] | y # ys \<Rightarrow> (x # y) # ys))"

fun join_with :: "string \<Rightarrow> string list \<Rightarrow> string" where
  "join_with sep [] = []"
| "join_with sep [x] = x"
| "join_with sep (x # y # ys) = x @ sep @ join_with sep (y # ys)"

lemma has_prefix_append [simp]: "has_prefix (p @ s) p"
  by (simp add: has_prefix_def)

lemma has_prefix_iff: "has_prefix s p \<longleftrightarrow> (\<exists>r. s = p @ r)"
  by (metis append_eq_conv_conj append_take_drop_id has_prefix_def)

lemma trim_prefix_append [simp]: "trim_prefix (p @ s) p = s"
  by (simp add: trim_prefix_def)

lemma has_suffix_append [simp]: "has_suffix (s @ p) p"
  by (simp add: has_suffix_def)

lemma trim_suffix_append [simp]: "trim_suffix (s @ p) p = s"
  by (simp add: trim_suffix_def)

lemma index_of_contains: "contains_str s sub \<longleftrightarrow> (\<exists>a b. s = a @ sub @ b)"
proof (induction s)
  case Nil
  then show ?case by (simp add: contains_str_def)
next
  case (Cons c cs)
  have "(\<exists>a b. c # cs = a @ sub @ b) \<longleftrightarrow>
      has_prefix (c # cs) sub \<or> (\<exists>a b. cs = a @ sub @ b)"
    by (auto simp: has_prefix_iff Cons_eq_append_conv)
  with Cons show ?case by (auto simp: contains_str_def)
qed

lemma cut_append [simp]: "c \<notin> set a \<Longrightarrow> cut (a @ c # b) c = (a, b, True)"
proof -
  assume "c \<notin> set a"
  then have "dropWhile (\<lambda>x. x \<noteq> c) (a @ c # b) = c # b"
    and "takeWhile (\<lambda>x. x \<noteq> c) (a @ c # b) = a"
    by (induction a) auto
  then show ?thesis by (simp add: cut_def)
qed

lemma cut_absent [simp]: "c \<notin> set a \<Longrightarrow> cut a c = (a, [], False)"
proof -
  assume "c \<notin> set a"
  then have "dropWhile (\<lambda>x. x \<noteq> c) a = []" by (induction a) auto
  then show ?thesis by (simp only: cut_def list.case)
qed

lemma cut_found: "cut s c = (a, b, True) \<Longrightarrow> s = a @ c # b \<and> c \<notin> set a"
proof (induction s arbitrary: a)
  case (Cons x xs)
  show ?case
  proof (cases "x = c")
    case True
    with Cons.prems show ?thesis by (simp add: cut_def)
  next
    case False
    with Cons.prems obtain a' where "cut xs c = (a', b, True)" "a = x # a'"
      by (auto simp: cut_def split: list.splits)
    with Cons.IH False show ?thesis by auto
  qed
qed (simp add: cut_def)

lemma split_on_absent: "c \<notin> set s \<Longrightarrow> split_on c s = [s]"
  by (induction s) auto

lemma split_on_append: "c \<notin> set a \<Longrightarrow> split_on c (a @ c # b) = a # split_on c b"
  by (induction a) auto

lemma split_on_not_Nil [simp]: "split_on c s \<noteq> []"
  by (cases s) (auto split: list.splits)

lemma split_on_parts: "p \<in> set (split_on c s) \<Longrightarrow> c \<notin> set p"
  by (induction s arbitrary: p) (auto split: list.splits if_splits)

lemma split_join:
  "fs \<noteq> [] \<Longrightarrow> \<forall>f \<in> set fs. c \<notin> set f \<Longrightarrow> split_on c (join_with [c] fs) = fs"
  by (induction "[c]" fs rule: join_with.induct)
    (auto simp: split_on_absent split_on_append)

lemma set_join_with: "set (join_with sep fs) \<subseteq> set sep \<union> (\<Union>f \<in> set fs. set f)"
  by (induction sep fs rule: join_with.induct) auto

subsection \<open>White space and case\<close>

text \<open>The UTF-8 encodings of the code points for which \<open>unicode.IsSpace\<close> holds.\<close>

definition byte :: "nat \<Rightarrow> char" where
  "byte n = char_of n"

definition space_seqs :: "string list" where
  "space_seqs =
     map (\<lambda>n. [byte n]) [9, 10, 11, 12, 13, 32] @
     [[byte 0xC2, byte 0x85], [byte 0xC2, byte 0xA0], [byte 0xE1, byte 0x9A, byte 0x80]] @
     map (\<lambda>n. [byte 0xE2, byte 0x80, byte n]) ([0x80 ..< 0x8B] @ [0xA8, 0xA9, 0xAF]) @
     [[byte 0xE2, byte 0x81, byte 0x9F], [byte 0xE3, byte 0x80, byte 0x80]]"

function trim_with :: "string list \<Rightarrow> string \<Rightarrow> string" where
  "trim_with seqs s = (case find (\<lambda>p. p \<noteq> [] \<and> has_prefix s p) seqs of
     None \<Rightarrow> s
   | Some p \<Rightarrow> trim_with seqs (drop (length p) s))"
  by pat_completeness auto
termination
  by (relation "measure (\<lambda>(_, s). length s)")
    (auto dest!: find_Some_set simp: has_prefix_iff)

declare trim_with.simps [simp del]

definition trim_space :: "string \<Rightarrow> string" where
  "trim_space s = rev (trim_with (map rev space_seqs) (rev (trim_with space_seqs s)))"

text \<open>Printable ASCII characters begin and end no white space.\<close>

definition graphic :: "char \<Rightarrow> bool" where
  "graphic c \<longleftrightarrow> 33 \<le> (of_char c :: nat) \<and> (of_char c :: nat) \<le> 126"

lemma trim_with_none:
  "(\<And>p. p \<in> set seqs \<Longrightarrow> p \<noteq> [] \<Longrightarrow> \<not> has_prefix s p) \<Longrightarrow> trim_with seqs s = s"
proof -
  assume "\<And>p. p \<in> set seqs \<Longrightarrow> p \<noteq> [] \<Longrightarrow> \<not> has_prefix s p"
  then have "find (\<lambda>p. p \<noteq> [] \<and> has_prefix s p) seqs = None"
    by (auto simp: find_None_set)
  then show ?thesis by (subst trim_with.simps) simp
qed

lemma space_seqs_heads:
  "p \<in> set space_seqs \<Longrightarrow> p \<noteq> [] \<and> \<not> graphic (hd p) \<and> \<not> graphic (last p)"
  by (auto simp: space_seqs_def graphic_def byte_def)

lemma graphic_hd_no_prefix: "s \<noteq> [] \<Longrightarrow> graphic (hd s) \<Longrightarrow> p \<in> set space_seqs \<Longrightarrow> \<not> has_prefix s p"
  by (auto simp: has_prefix_iff dest!: space_seqs_heads)

lemma trim_space_graphic:
  "s = [] \<or> graphic (hd s) \<and> graphic (last s) \<Longrightarrow> trim_space s = s"
proof -
  assume s: "s = [] \<or> graphic (hd s) \<and> graphic (last s)"
  have "trim_with space_seqs s = s"
  proof (cases "s = []")
    case True
    then show ?thesis by (intro trim_with_none) (auto simp: has_prefix_iff)
  next
    case False
    with s show ?thesis by (intro trim_with_none) (simp add: graphic_hd_no_prefix)
  qed
  moreover have "trim_with (map rev space_seqs) (rev s) = rev s"
  proof (rule trim_with_none)
    fix p assume p: "p \<in> set (map rev space_seqs)" "p \<noteq> []"
    then obtain q where q: "q \<in> set space_seqs" "p = rev q" by auto
    show "\<not> has_prefix (rev s) p"
    proof
      assume "has_prefix (rev s) p"
      then obtain r where "rev s = p @ r" by (auto simp: has_prefix_iff)
      then have "s = rev r @ q" using q by (metis rev_append rev_rev_ident)
      with s q p space_seqs_heads [OF q(1)] show False by auto
    qed
  qed
  ultimately show ?thesis by (simp add: trim_space_def)
qed

lemma trim_space_all_graphic: "list_all graphic s \<Longrightarrow> trim_space s = s"
  by (cases "s = []") (auto intro!: trim_space_graphic simp: list_all_iff)

lemma trim_with_idem: "trim_with seqs (trim_with seqs s) = trim_with seqs s"
proof (induction seqs s rule: trim_with.induct)
  case (1 seqs s)
  show ?case
  proof (cases "find (\<lambda>p. p \<noteq> [] \<and> has_prefix s p) seqs")
    case None
    then have "trim_with seqs s = s" by (subst trim_with.simps) simp
    then show ?thesis by simp
  next
    case (Some p)
    then have "trim_with seqs s = trim_with seqs (drop (length p) s)"
      by (subst trim_with.simps) simp
    then show ?thesis using 1 [OF Some] by simp
  qed
qed

lemma trim_with_suffix: "\<exists>a. s = a @ trim_with seqs s"
proof (induction seqs s rule: trim_with.induct)
  case (1 seqs s)
  show ?case
  proof (cases "find (\<lambda>p. p \<noteq> [] \<and> has_prefix s p) seqs")
    case None
    then show ?thesis by (simp add: trim_with.simps [of seqs s])
  next
    case (Some p)
    with 1 obtain a where "drop (length p) s = a @ trim_with seqs (drop (length p) s)" by blast
    then have "s = (take (length p) s @ a) @ trim_with seqs (drop (length p) s)"
      by (metis append_assoc append_take_drop_id)
    then show ?thesis
      using Some by (simp add: trim_with.simps [of seqs s] del: append_assoc) blast
  qed
qed

lemma trim_with_clean: "trim_with seqs s = s \<Longrightarrow> p \<in> set seqs \<Longrightarrow> p \<noteq> [] \<Longrightarrow> \<not> has_prefix s p"
proof
  assume s: "trim_with seqs s = s" and p: "p \<in> set seqs" "p \<noteq> []" "has_prefix s p"
  then obtain q where q: "find (\<lambda>p. p \<noteq> [] \<and> has_prefix s p) seqs = Some q"
    by (cases "find (\<lambda>p. p \<noteq> [] \<and> has_prefix s p) seqs") (auto simp: find_None_set)
  then have "q \<noteq> []" "has_prefix s q" by (auto dest!: find_Some_set)
  then have "length (drop (length q) s) < length s"
    by (auto simp: has_prefix_iff)
  moreover have "trim_with seqs s = trim_with seqs (drop (length q) s)"
    using q by (subst trim_with.simps) simp
  moreover obtain a where "drop (length q) s = a @ trim_with seqs (drop (length q) s)"
    using trim_with_suffix by blast
  then have "length (trim_with seqs (drop (length q) s)) \<le> length (drop (length q) s)"
    by (metis le_add2 length_append)
  ultimately show False
    using s by (metis leD)
qed

text \<open>Trimming twice is trimming once: what is left has white space at neither end.\<close>

lemma trim_space_idem [simp]: "trim_space (trim_space s) = trim_space s"
proof -
  define a where "a = trim_with space_seqs s"
  define b where "b = trim_with (map rev space_seqs) (rev a)"
  have t: "trim_space s = rev b" by (simp add: trim_space_def a_def b_def)
  obtain c where "rev a = c @ b" using trim_with_suffix unfolding b_def by blast
  then have ab: "a = rev b @ rev c" by (metis rev_append rev_rev_ident)
  have "trim_with space_seqs (rev b) = rev b"
  proof (rule trim_with_none)
    fix p assume p: "p \<in> set space_seqs" "p \<noteq> []"
    have "\<not> has_prefix a p"
      using p trim_with_clean [of space_seqs a p] by (simp add: a_def trim_with_idem)
    then show "\<not> has_prefix (rev b) p" by (auto simp: ab has_prefix_iff)
  qed
  then show ?thesis by (simp add: t) (simp add: trim_space_def b_def trim_with_idem)
qed

definition lower_char :: "char \<Rightarrow> char" where
  "lower_char c = (let n = of_char c :: nat in if 65 \<le> n \<and> n \<le> 90 then char_of (n + 32) else c)"

definition to_lower :: "string \<Rightarrow> string" where
  "to_lower s = map lower_char s"

definition is_ascii_space :: "char \<Rightarrow> bool" where
  "is_ascii_space c \<longleftrightarrow> (of_char c :: nat) \<in> {9, 10, 11, 12, 13, 32}"

text \<open>\<open>strings.Fields\<close> on ASCII text: the maximal runs of other characters.\<close>

function fields :: "string \<Rightarrow> string list" where
  "fields s = (case dropWhile is_ascii_space s of
     [] \<Rightarrow> []
   | c # cs \<Rightarrow> (c # takeWhile (\<lambda>x. \<not> is_ascii_space x) cs)
        # fields (dropWhile (\<lambda>x. \<not> is_ascii_space x) cs))"
  by pat_completeness auto
termination
proof (relation "measure length")
  show "wf (measure length)" by simp
next
  fix s c cs assume e: "dropWhile is_ascii_space s = c # cs"
  have "length (dropWhile (\<lambda>x. \<not> is_ascii_space x) cs) \<le> length cs"
    by (rule length_dropWhile_le)
  moreover have "length (dropWhile is_ascii_space s) \<le> length s"
    by (rule length_dropWhile_le)
  ultimately show "(dropWhile (\<lambda>x. \<not> is_ascii_space x) cs, s) \<in> measure length"
    using e by simp
qed

declare fields.simps [simp del]

subsection \<open>Decimal numbers\<close>

definition is_digit :: "char \<Rightarrow> bool" where
  "is_digit c \<longleftrightarrow> 48 \<le> (of_char c :: nat) \<and> (of_char c :: nat) \<le> 57"

definition digit_char :: "nat \<Rightarrow> char" where
  "digit_char d = char_of (48 + d)"

fun show_nat :: "nat \<Rightarrow> string" where
  "show_nat n = (if n < 10 then [digit_char n] else show_nat (n div 10) @ [digit_char (n mod 10)])"

declare show_nat.simps [simp del]

definition itoa :: "int \<Rightarrow> string" where
  "itoa i = (if i < 0 then CHR ''-'' # show_nat (nat (- i)) else show_nat (nat i))"

definition digits_value :: "string \<Rightarrow> nat" where
  "digits_value s = foldl (\<lambda>acc c. 10 * acc + (of_char c - 48)) 0 s"

text \<open>\<open>strconv.Atoi\<close> and \<open>ParseInt(s, 10, 64)\<close>: an optional sign, digits, 64 bits.\<close>

definition parse_int64 :: "string \<Rightarrow> int option" where
  "parse_int64 s =
     (let neg = (s \<noteq> [] \<and> hd s = CHR ''-'');
          body = (if s \<noteq> [] \<and> (hd s = CHR ''-'' \<or> hd s = CHR ''+'') then tl s else s)
      in if body = [] \<or> \<not> list_all is_digit body then None
         else let v = (if neg then - int (digits_value body) else int (digits_value body))
              in if - (2 ^ 63) \<le> v \<and> v < 2 ^ 63 then Some v else None)"

lemma digit_char_digit: "d < 10 \<Longrightarrow> is_digit (digit_char d)"
  by (simp add: is_digit_def digit_char_def)

lemma digit_char_value: "d < 10 \<Longrightarrow> of_char (digit_char d) = (48 + d :: nat)"
  by (simp add: digit_char_def)

lemma show_nat_digits: "list_all is_digit (show_nat n) \<and> show_nat n \<noteq> []"
proof (induction n rule: show_nat.induct)
  case (1 n)
  then show ?case
    by (cases "n < 10") (auto simp: show_nat.simps [of n] digit_char_digit)
qed

lemma show_nat_value: "digits_value (show_nat n) = n"
proof (induction n rule: show_nat.induct)
  case (1 n)
  then show ?case
    by (cases "n < 10") (auto simp: show_nat.simps [of n] digits_value_def digit_char_value)
qed

lemma parse_itoa: "- (2 ^ 63) \<le> i \<Longrightarrow> i < 2 ^ 63 \<Longrightarrow> parse_int64 (itoa i) = Some i"
proof -
  assume i: "- (2 ^ 63) \<le> i" "i < 2 ^ 63"
  have d: "list_all is_digit (show_nat n)" "show_nat n \<noteq> []" for n
    using show_nat_digits by auto
  have h: "hd (show_nat n) \<noteq> CHR ''-''" "hd (show_nat n) \<noteq> CHR ''+''" for n
    using d [of n] by (cases "show_nat n"; auto simp: is_digit_def)+
  show ?thesis
    using i by (cases "i < 0") (simp_all add: parse_int64_def itoa_def d h show_nat_value)
qed

lemma itoa_graphic: "c \<in> set (itoa i) \<Longrightarrow> is_digit c \<or> c = CHR ''-''"
  using show_nat_digits by (fastforce simp: itoa_def list_all_iff split: if_splits)

lemma itoa_inject: "itoa i = itoa j \<longleftrightarrow> i = j"
proof
  assume e: "itoa i = itoa j"
  have d: "CHR ''-'' \<notin> set (show_nat n)" for n
    using show_nat_digits [of n] by (auto simp: list_all_iff is_digit_def)
  have n: "show_nat a = show_nat b \<Longrightarrow> a = b" for a b
    by (metis show_nat_value)
  show "i = j"
  proof (cases "i < 0"; cases "j < 0")
    assume s: "i < 0" "j < 0"
    then have "nat (- i) = nat (- j)" using e n by (simp add: itoa_def)
    then show ?thesis using s by simp
  next
    assume s: "\<not> i < 0" "\<not> j < 0"
    then have "nat i = nat j" using e n by (simp add: itoa_def)
    then show ?thesis using s by simp
  next
    assume "i < 0" "\<not> j < 0"
    then have "CHR ''-'' # show_nat (nat (- i)) = show_nat (nat j)" using e by (simp add: itoa_def)
    then show ?thesis using d by (metis list.set_intros(1))
  next
    assume "\<not> i < 0" "j < 0"
    then have "show_nat (nat i) = CHR ''-'' # show_nat (nat (- j))" using e by (simp add: itoa_def)
    then show ?thesis using d by (metis list.set_intros(1))
  qed
qed simp

subsection \<open>Query escaping\<close>

definition hex_value :: "char \<Rightarrow> nat option" where
  "hex_value c = (let n = of_char c :: nat in
     if 48 \<le> n \<and> n \<le> 57 then Some (n - 48)
     else if 97 \<le> n \<and> n \<le> 102 then Some (n - 87)
     else if 65 \<le> n \<and> n \<le> 70 then Some (n - 55) else None)"

definition hex_char :: "nat \<Rightarrow> char" where
  "hex_char n = (if n < 10 then char_of (48 + n) else char_of (55 + n))"

text \<open>\<open>url.QueryUnescape\<close>: \<open>+\<close> is a space, a per cent sign needs two hex digits.\<close>

fun query_unescape :: "string \<Rightarrow> string option" where
  "query_unescape [] = Some []"
| "query_unescape (c # cs) =
     (if c = CHR ''%'' then
        (case cs of
           a # b # rest \<Rightarrow>
             (case (hex_value a, hex_value b) of
                (Some h, Some l) \<Rightarrow> map_option ((#) (char_of (16 * h + l))) (query_unescape rest)
              | _ \<Rightarrow> None)
         | _ \<Rightarrow> None)
      else map_option ((#) (if c = CHR ''+'' then CHR '' '' else c)) (query_unescape cs))"

definition is_alnum :: "char \<Rightarrow> bool" where
  "is_alnum c \<longleftrightarrow> (let n = of_char c :: nat in
     48 \<le> n \<and> n \<le> 57 \<or> 65 \<le> n \<and> n \<le> 90 \<or> 97 \<le> n \<and> n \<le> 122)"

definition unreserved :: "char \<Rightarrow> bool" where
  "unreserved c \<longleftrightarrow> is_alnum c \<or> c \<in> set ''-_.~''"

definition escape_char :: "char \<Rightarrow> string" where
  "escape_char c =
     (if unreserved c then [c] else if c = CHR '' '' then ''+''
      else let n = of_char c :: nat in [CHR ''%'', hex_char (n div 16), hex_char (n mod 16)])"

definition query_escape :: "string \<Rightarrow> string" where
  "query_escape s = concat (map escape_char s)"

lemma hex_value_char: "n < 16 \<Longrightarrow> hex_value (hex_char n) = Some n"
  by (auto simp: hex_value_def hex_char_def Let_def)

lemma char_nat_less: "(of_char c :: nat) < 256"
  by (metis of_char_mod_256 mod_less_divisor zero_less_numeral)

lemma nibbles: "of_char c div 16 < (16::nat)" "of_char c mod 16 < (16::nat)" for c :: char
  using char_nat_less [of c] by (simp_all add: less_mult_imp_div_less)

lemma unescape_escape_char:
  "query_unescape (escape_char c @ s) = map_option ((#) c) (query_unescape s)"
proof (cases "unreserved c \<or> c = CHR '' ''")
  case True
  then show ?thesis
    by (auto simp: escape_char_def unreserved_def is_alnum_def)
next
  case False
  then have "escape_char c = [CHR ''%'', hex_char (of_char c div 16), hex_char (of_char c mod 16)]"
    by (simp add: escape_char_def Let_def)
  then show ?thesis
    by (simp add: nibbles hex_value_char)
qed

lemma query_unescape_escape: "query_unescape (query_escape s) = Some s"
  by (induction s) (auto simp: query_escape_def unescape_escape_char)

lemma hex_char_alnum: "n < 16 \<Longrightarrow> is_alnum (hex_char n)"
  by (auto simp: is_alnum_def hex_char_def Let_def)

lemma query_escape_chars:
  "c \<in> set (query_escape s) \<Longrightarrow> unreserved c \<or> c = CHR ''+'' \<or> c = CHR ''%''"
proof -
  assume "c \<in> set (query_escape s)"
  then obtain d where d: "c \<in> set (escape_char d)" by (auto simp: query_escape_def)
  then show ?thesis
    by (auto simp: nibbles escape_char_def unreserved_def hex_char_alnum Let_def split: if_splits)
qed

lemma query_unescape_plain:
  "list_all (\<lambda>c. c \<noteq> CHR ''%'' \<and> c \<noteq> CHR ''+'') s \<Longrightarrow> query_unescape s = Some s"
  by (induction s) auto

lemma query_escape_Nil_iff: "query_escape s = [] \<longleftrightarrow> s = []"
  by (cases s) (auto simp: query_escape_def escape_char_def Let_def split: if_splits)

end
