(* ===== verification/SrtModels.thy ===== *)
theory SrtModels
  imports GoStrings "HOL-Library.Word"
begin

text \<open>
  The data of the SRT relay (\<open>internal/srtrelay/models.go\<close>, \<open>protocol.go\<close>), one record per
  Go struct with its fields in order. Directions, encryption modes and statuses are
  strings, as in the source. Go's int and int64 are \<open>int\<close>: the code compares them with
  small bounds or copies them. The one float, the round trip time, is only copied and is
  kept as its 64 bits.
\<close>

definition encryption_aes256 :: string where
  "encryption_aes256 = ''aes-256''"

definition encryption_none :: string where
  "encryption_none = ''none''"

definition direction_listener :: string where
  "direction_listener = ''listener''"

definition direction_publish :: string where
  "direction_publish = ''publish''"

lemmas mode_defs = encryption_aes256_def encryption_none_def direction_listener_def direction_publish_def

record relay =
  r_id :: string
  r_name :: string
  r_direction :: string
  r_input_url :: string
  r_network_interface :: string
  r_bind_address :: string
  r_port :: int
  r_destination_address :: string
  r_destination_port :: int
  r_stream_id :: string
  r_encryption_mode :: string
  r_key_version :: int
  r_latency_ms :: int
  r_payload_size :: int
  r_max_clients :: int
  r_input_timeout_seconds :: int
  r_allow_missing_stream_id :: bool
  r_default_client_id :: string
  r_enabled :: bool

record relay_state =
  st_status :: string
  st_pid :: int
  st_active_clients :: int
  st_input_bitrate :: int
  st_output_bitrate :: int
  st_input_packets :: int
  st_continuity_errors :: int
  st_restart_count :: int
  st_flapping :: bool
  st_last_error :: string
  st_updated_at :: gotime

record relay_view =
  v_config :: relay
  v_state :: relay_state
  v_passphrase :: string

record client =
  c_id :: string
  c_name :: string
  c_enabled :: bool
  c_encryption_mode :: string
  c_allowed_relay_ids :: "string list"
  c_allowed_cidrs :: "string list"
  c_max_sessions :: int
  c_key_version :: int
  c_created_at :: gotime
  c_updated_at :: gotime

record client_credential =
  cc_client :: client
  cc_passphrase :: string

record session_stats =
  ss_bytes_sent :: int
  ss_packets_sent :: int
  ss_packets_lost :: int
  ss_packets_retrans :: int
  ss_packets_dropped :: int
  ss_bitrate :: int
  ss_rtt_bits :: "64 word"
  ss_latency_ms :: int

record session =
  s_id :: string
  s_relay_id :: string
  s_client_id :: string
  s_remote_ip :: string
  s_remote_port :: int
  s_stream_id :: string
  s_peer_version :: string
  s_encrypted :: bool
  s_connected_at :: gotime
  s_disconnected_at :: "gotime option"
  s_disconnect_reason :: string
  s_stats :: session_stats

text \<open>The values the sources store in the free-form \<open>Details\<close> of an audit event.\<close>

datatype detail = DString string | DStrings "string list" | DBool bool | DInt int | DTime gotime | DStats session_stats

record audit_event =
  a_id :: string
  a_time :: gotime
  a_type :: string
  a_level :: string
  a_relay_id :: string
  a_client_id :: string
  a_session_id :: string
  a_remote_ip :: string
  a_remote_port :: int
  a_stream_id :: string
  a_reason :: string
  a_actor :: string
  a_details :: "(string, detail) gomap"

record worker_client =
  wc_id :: string
  wc_encryption_mode :: string
  wc_passphrase :: string
  wc_allowed_cidrs :: "string list"
  wc_max_sessions :: int

record worker_config =
  wcfg_relay :: relay
  wcfg_publish_passphrase :: string
  wcfg_clients :: "worker_client list"

record worker_event =
  we_type :: string
  we_time :: gotime
  we_reason :: string
  we_session :: "session option"
  we_active_clients :: int
  we_input_bitrate :: int
  we_output_bitrate :: int
  we_input_packets :: int
  we_continuity_errors :: int

datatype event_payload =
    NoPayload
  | RelayPayload relay_view
  | ClientPayload client
  | StatePayload relay_state
  | WorkerPayload worker_event
  | AuditPayload audit_event

record event =
  e_type :: string
  e_relay_id :: string
  e_client_id :: string
  e_time :: gotime
  e_payload :: event_payload

subsection \<open>Go's zero values\<close>

definition zero_stats :: session_stats where
  "zero_stats = \<lparr>ss_bytes_sent = 0, ss_packets_sent = 0, ss_packets_lost = 0, ss_packets_retrans = 0,
     ss_packets_dropped = 0, ss_bitrate = 0, ss_rtt_bits = 0, ss_latency_ms = 0\<rparr>"

definition zero_session :: session where
  "zero_session = \<lparr>s_id = [], s_relay_id = [], s_client_id = [], s_remote_ip = [], s_remote_port = 0,
     s_stream_id = [], s_peer_version = [], s_encrypted = False, s_connected_at = zero_time,
     s_disconnected_at = None, s_disconnect_reason = [], s_stats = zero_stats\<rparr>"

definition zero_relay_state :: relay_state where
  "zero_relay_state = \<lparr>st_status = [], st_pid = 0, st_active_clients = 0, st_input_bitrate = 0,
     st_output_bitrate = 0, st_input_packets = 0, st_continuity_errors = 0, st_restart_count = 0,
     st_flapping = False, st_last_error = [], st_updated_at = zero_time\<rparr>"

definition zero_relay :: relay where
  "zero_relay = \<lparr>r_id = [], r_name = [], r_direction = [], r_input_url = [], r_network_interface = [],
     r_bind_address = [], r_port = 0, r_destination_address = [], r_destination_port = 0,
     r_stream_id = [], r_encryption_mode = [], r_key_version = 0, r_latency_ms = 0, r_payload_size = 0,
     r_max_clients = 0, r_input_timeout_seconds = 0, r_allow_missing_stream_id = False,
     r_default_client_id = [], r_enabled = False\<rparr>"

definition zero_client :: client where
  "zero_client = \<lparr>c_id = [], c_name = [], c_enabled = False, c_encryption_mode = [],
     c_allowed_relay_ids = [], c_allowed_cidrs = [], c_max_sessions = 0, c_key_version = 0,
     c_created_at = zero_time, c_updated_at = zero_time\<rparr>"

definition zero_audit_event :: audit_event where
  "zero_audit_event = \<lparr>a_id = [], a_time = zero_time, a_type = [], a_level = [], a_relay_id = [],
     a_client_id = [], a_session_id = [], a_remote_ip = [], a_remote_port = 0, a_stream_id = [],
     a_reason = [], a_actor = [], a_details = []\<rparr>"

definition zero_worker_event :: worker_event where
  "zero_worker_event = \<lparr>we_type = [], we_time = zero_time, we_reason = [], we_session = None,
     we_active_clients = 0, we_input_bitrate = 0, we_output_bitrate = 0, we_input_packets = 0,
     we_continuity_errors = 0\<rparr>"

text \<open>A session that has not ended.\<close>

definition active :: "session \<Rightarrow> bool" where
  "active s \<longleftrightarrow> s_disconnected_at s = None"

end
