(* ===== verification/StreamId.thy ===== *)
theory StreamId
  imports GoStrings
begin

text \<open>
  The SRT Stream ID a caller presents (\<open>internal/srtworker/streamid.go\<close>): either the
  client ID itself, or access-control syntax \<open>#!::k=v,k=v,...\<close> whose first field \<open>u\<close>
  holds the client ID, query escaped.
\<close>

datatype stream_id_error = StreamIdRequired | InvalidClientIdInStreamId | StreamIdNeedsUser

fun stream_id_error_text :: "stream_id_error \<Rightarrow> string" where
  "stream_id_error_text StreamIdRequired = ''Stream ID is required''"
| "stream_id_error_text InvalidClientIdInStreamId = ''invalid client ID in Stream ID''"
| "stream_id_error_text StreamIdNeedsUser = ''Stream ID must include u=<client-id>''"

text \<open>The loop over the comma-separated fields.\<close>

fun find_user_field :: "string list \<Rightarrow> (stream_id_error, string) result" where
  "find_user_field [] = Inl StreamIdNeedsUser"
| "find_user_field (field # rest) =
     (let (key, value, ok) = cut field (CHR ''='')
      in if \<not> ok \<or> key \<noteq> ''u'' then find_user_field rest
         else (case query_unescape value of
                 None \<Rightarrow> Inl InvalidClientIdInStreamId
               | Some decoded \<Rightarrow>
                   if decoded = [] then Inl InvalidClientIdInStreamId else Inr decoded))"

definition client_id_from_stream_id :: "string \<Rightarrow> (stream_id_error, string) result" where
  "client_id_from_stream_id raw =
     (let stream_id = trim_space raw
      in if stream_id = [] then Inl StreamIdRequired
         else if \<not> has_prefix stream_id ''#!::'' then Inr stream_id
         else find_user_field (split_on (CHR '','') (trim_prefix stream_id ''#!::'')))"

subsection \<open>Lemmas\<close>

text \<open>A field that is not the user field: its text up to the first \<open>=\<close> is not \<open>u\<close>.\<close>

definition other_field :: "string \<Rightarrow> bool" where
  "other_field f \<longleftrightarrow> (\<forall>v. f \<noteq> ''u='' @ v)"

definition field_ok :: "string \<Rightarrow> bool" where
  "field_ok f \<longleftrightarrow> list_all graphic f \<and> CHR '','' \<notin> set f"

lemma cut_user_field: "cut (''u='' @ v) (CHR ''='') = (''u'', v, True)"
  using cut_append [of "CHR ''=''" "''u''" v] by simp

lemma find_user_field_skip: "other_field f \<Longrightarrow> find_user_field (f # fs) = find_user_field fs"
  by (auto simp: other_field_def Let_def split: prod.splits dest!: cut_found)

lemma find_user_field_skips:
  "list_all other_field pre \<Longrightarrow> find_user_field (pre @ fs) = find_user_field fs"
  by (induction pre) (simp_all del: find_user_field.simps add: find_user_field_skip)

lemma find_user_field_nonempty: "find_user_field fs = Inr cid \<Longrightarrow> cid \<noteq> []"
  by (induction fs rule: find_user_field.induct)
    (auto simp: Let_def split: prod.splits if_splits option.splits)

lemma query_escape_field_ok: "field_ok (query_escape s)"
  by (auto simp: field_ok_def list_all_iff graphic_def unreserved_def is_alnum_def Let_def
      dest!: query_escape_chars)

lemma join_graphic:
  "\<forall>f \<in> set fs. field_ok f \<Longrightarrow> list_all graphic (''#!::'' @ join_with '','' fs)"
  using set_join_with [of "'',''" fs]
  by (fastforce simp: list_all_iff field_ok_def graphic_def)

lemma client_id_of_fields:
  "fs \<noteq> [] \<Longrightarrow> \<forall>f \<in> set fs. field_ok f \<Longrightarrow>
    client_id_from_stream_id (''#!::'' @ join_with '','' fs) = find_user_field fs"
  using trim_space_all_graphic [OF join_graphic, of fs]
    trim_prefix_append [of "''#!::''" "join_with '','' fs"]
    has_prefix_append [of "''#!::''" "join_with '','' fs"] split_join [of fs "CHR '',''"]
  by (simp add: client_id_from_stream_id_def field_ok_def del: has_prefix_append)

subsection \<open>Properties\<close>

text \<open>
  A Stream ID in access-control syntax is decoded to exactly the client ID that was
  query escaped into its first \<open>u=\<close> field, whatever other fields precede or follow it.
\<close>

theorem stream_id_roundtrip:
  assumes "cid \<noteq> []"
    and "list_all other_field pre"
    and "\<forall>f \<in> set (pre @ post). field_ok f"
  shows "client_id_from_stream_id
     (''#!::'' @ join_with '','' (pre @ (''u='' @ query_escape cid) # post)) = Inr cid"
proof -
  have "field_ok (''u='' @ query_escape cid)"
    using query_escape_field_ok [of cid] by (auto simp: field_ok_def graphic_def)
  then have "client_id_from_stream_id
      (''#!::'' @ join_with '','' (pre @ (''u='' @ query_escape cid) # post))
      = find_user_field (pre @ (''u='' @ query_escape cid) # post)"
    using assms(3) by (intro client_id_of_fields) auto
  also have "\<dots> = find_user_field ((''u='' @ query_escape cid) # post)"
    using assms(2) by (rule find_user_field_skips)
  also have "\<dots> = Inr cid"
    using assms(1) cut_user_field [of "query_escape cid"]
    by (simp add: query_unescape_escape)
  finally show ?thesis .
qed

lemma stream_id_roundtrip_witness:
  "client_id_from_stream_id
     (''#!::'' @ join_with '','' ([''m=request''] @ (''u='' @ query_escape ''a,b c'') # [''r=x'']))
   = Inr ''a,b c''"
  by (rule stream_id_roundtrip)
    (auto simp: other_field_def field_ok_def graphic_def)

end
