(* ===== verification/Continuity.thy ===== *)
theory Continuity
  imports Prelude "HOL-Library.Word"
begin

unbundle bit_operations_syntax

text \<open>
  The MPEG-TS continuity tracker of the SRT worker (\<open>internal/srtworker/continuity.go\<close>).
  Its state maps a 13-bit PID to the last continuity counter seen on it; \<open>observe\<close>
  reads one UDP datagram of 188-byte packets and counts the errors in it. Bytes, PIDs
  and counters are words of the source's widths. The counter of errors is a \<open>nat\<close>: it
  grows by at most 349 per datagram (\<open>observe_errors_bound\<close>), far from the source's int64.
\<close>

type_synonym u8 = "8 word"
type_synonym pid = "16 word"
type_synonym tracker = "(pid, u8) gomap"

definition new_continuity_tracker :: tracker where
  "new_continuity_tracker = []"

definition packet_pid :: "u8 list \<Rightarrow> pid" where
  "packet_pid packet = push_bit 8 (ucast (packet ! 1 AND 0x1f)) OR ucast (packet ! 2)"

definition adaptation_control :: "u8 list \<Rightarrow> u8" where
  "adaptation_control packet = drop_bit 4 (packet ! 3) AND 0x03"

definition discontinuity :: "u8 list \<Rightarrow> bool" where
  "discontinuity packet \<longleftrightarrow> adaptation_control packet = 3 \<and> packet ! 4 > 0
     \<and> unat (packet ! 4) + 5 \<le> length packet \<and> packet ! 5 AND 0x80 \<noteq> 0"

definition packet_counter :: "u8 list \<Rightarrow> u8" where
  "packet_counter packet = packet ! 3 AND 0x0f"

text \<open>The body of the loop, for one 188-byte packet.\<close>

definition observe_packet :: "tracker \<Rightarrow> u8 list \<Rightarrow> nat \<times> tracker" where
  "observe_packet t packet =
     (if packet ! 0 \<noteq> 0x47 then (1, t)
      else let pid = packet_pid packet in
        if pid = 0x1fff then (0, t)
        else if adaptation_control packet = 0 then (1, t)
        else if \<not> (adaptation_control packet = 1 \<or> adaptation_control packet = 3) then (0, t)
        else let counter = packet_counter packet in
          ((case get t pid of
              Some previous \<Rightarrow>
                if \<not> discontinuity packet \<and> counter \<noteq> (previous + 1) AND 0x0f then 1 else 0
            | None \<Rightarrow> 0),
           put pid counter t))"

function observe_from :: "tracker \<Rightarrow> nat \<Rightarrow> u8 list \<Rightarrow> nat \<Rightarrow> nat \<times> tracker" where
  "observe_from t errors data offset =
     (if offset + 188 \<le> length data then
        let (e, t') = observe_packet t (take 188 (drop offset data))
        in observe_from t' (errors + e) data (offset + 188)
      else (errors, t))"
  by pat_completeness auto
termination
  by (relation "measure (\<lambda>(_, _, data, offset). length data - offset)") auto

declare observe_from.simps [simp del]

definition observe :: "tracker \<Rightarrow> u8 list \<Rightarrow> nat \<times> tracker" where
  "observe t data = observe_from t (if length data mod 188 \<noteq> 0 then 1 else 0) data 0"

subsection \<open>What is counted: a definition by the history\<close>

text \<open>
  The specification has no tracker. A packet is classified by its own bytes; a payload
  packet breaks continuity if, among the packets before it, the latest payload packet of
  the same PID does not carry the preceding counter and no discontinuity is signalled.
\<close>

datatype packet_class = Malformed | Ignored | Payload pid u8 bool

definition classify :: "u8 list \<Rightarrow> packet_class" where
  "classify p =
     (if p ! 0 \<noteq> 0x47 then Malformed
      else if packet_pid p = 0x1fff then Ignored
      else if adaptation_control p = 0 then Malformed
      else if adaptation_control p = 2 then Ignored
      else Payload (packet_pid p) (packet_counter p) (discontinuity p))"

fun last_counter :: "packet_class list \<Rightarrow> pid \<Rightarrow> u8 option" where
  "last_counter [] pid = None"
| "last_counter (Payload q c d # newer_first) pid =
     (if q = pid then Some c else last_counter newer_first pid)"
| "last_counter (_ # newer_first) pid = last_counter newer_first pid"

fun is_error :: "packet_class list \<Rightarrow> packet_class \<Rightarrow> bool" where
  "is_error history Malformed = True"
| "is_error history Ignored = False"
| "is_error history (Payload pid c d) =
     (\<not> d \<and> (\<exists>p. last_counter history pid = Some p \<and> c \<noteq> (p + 1) AND 0x0f))"

fun count_errors :: "packet_class list \<Rightarrow> packet_class list \<Rightarrow> nat" where
  "count_errors history [] = 0"
| "count_errors history (p # ps) =
     (if is_error history p then 1 else 0) + count_errors (p # history) ps"

definition tracks :: "tracker \<Rightarrow> packet_class list \<Rightarrow> bool" where
  "tracks t history \<longleftrightarrow> (\<forall>pid. get t pid = last_counter history pid)"

subsection \<open>Lemmas\<close>

lemma adaptation_control_cases:
  "adaptation_control p = 0 \<or> adaptation_control p = 1 \<or>
   adaptation_control p = 2 \<or> adaptation_control p = 3"
proof -
  have "unat (adaptation_control p) \<le> unat (3 :: u8)"
    unfolding adaptation_control_def by (rule word_and_le1 [THEN word_le_nat_alt [THEN iffD1]])
  then have "unat (adaptation_control p) \<le> 3" by simp
  then show ?thesis
    unfolding word_unat_eq_iff by simp arith
qed

lemma observe_packet_class:
  "tracks t history \<Longrightarrow>
    fst (observe_packet t p) = (if is_error history (classify p) then 1 else 0) \<and>
    tracks (snd (observe_packet t p)) (classify p # history)"
  using adaptation_control_cases [of p]
  by (auto simp: observe_packet_def classify_def tracks_def Let_def split: option.splits)

lemma observe_packet_le_1: "fst (observe_packet t p) \<le> 1"
  by (auto simp: observe_packet_def Let_def split: option.splits)

lemma observe_from_step:
  "offset + 188 \<le> length data \<Longrightarrow> observe_from t errors data offset =
    observe_from (snd (observe_packet t (take 188 (drop offset data))))
      (errors + fst (observe_packet t (take 188 (drop offset data)))) data (offset + 188)"
  by (subst observe_from.simps) (simp add: case_prod_beta)

lemma observe_from_stop:
  "\<not> offset + 188 \<le> length data \<Longrightarrow> observe_from t errors data offset = (errors, t)"
  by (subst observe_from.simps) simp

lemma observe_from_bound:
  "fst (observe_from t errors data offset) \<le> errors + (length data - offset) div 188"
proof (induction t errors data offset rule: observe_from.induct)
  case (1 t errors data offset)
  show ?case
  proof (cases "offset + 188 \<le> length data")
    case True
    obtain e t' where o: "observe_packet t (take 188 (drop offset data)) = (e, t')" by fastforce
    with observe_packet_le_1 [of t "take 188 (drop offset data)"] have "e \<le> 1" by simp
    moreover have "(length data - offset) div 188 = Suc ((length data - (offset + 188)) div 188)"
      using True by (simp add: div_if [of "length data - offset"])
    ultimately show ?thesis
      using 1 [OF True o [symmetric] refl] True o
      by (simp add: observe_from_step)
  qed (simp add: observe_from_stop)
qed

text \<open>A datagram made of whole packets, from any offset.\<close>

fun observe_packets :: "tracker \<Rightarrow> u8 list list \<Rightarrow> nat \<times> tracker" where
  "observe_packets t [] = (0, t)"
| "observe_packets t (p # ps) =
     (let (e, t') = observe_packet t p; (es, t'') = observe_packets t' ps in (e + es, t''))"

lemma observe_from_packets:
  "\<forall>p \<in> set ps. length p = 188 \<Longrightarrow> length pre = offset \<Longrightarrow>
    observe_from t errors (pre @ concat ps) offset =
      (errors + fst (observe_packets t ps), snd (observe_packets t ps))"
proof (induction ps arbitrary: t errors pre offset)
  case (Cons p ps)
  have "observe_from t errors ((pre @ p) @ concat ps) offset =
      observe_from (snd (observe_packet t p)) (errors + fst (observe_packet t p))
        ((pre @ p) @ concat ps) (offset + 188)"
    using Cons.prems by (subst observe_from_step) simp_all
  also have "\<dots> = (errors + fst (observe_packet t p) +
      fst (observe_packets (snd (observe_packet t p)) ps),
      snd (observe_packets (snd (observe_packet t p)) ps))"
    using Cons.prems by (intro Cons.IH) auto
  finally show ?case by (simp add: case_prod_beta)
qed (simp add: observe_from_stop)

lemma length_concat_188: "\<forall>p \<in> set ps. length p = 188 \<Longrightarrow> length (concat ps) = 188 * length ps"
  by (induction ps) auto

lemma observe_concat:
  "\<forall>p \<in> set ps. length p = 188 \<Longrightarrow> observe t (concat ps) = observe_packets t ps"
  using observe_from_packets [of ps "[]" 0 t 0]
  by (simp add: observe_def length_concat_188)

lemma observe_packets_append:
  "observe_packets t (ps @ qs) =
    (fst (observe_packets t ps) + fst (observe_packets (snd (observe_packets t ps)) qs),
     snd (observe_packets (snd (observe_packets t ps)) qs))"
  by (induction ps arbitrary: t) (auto simp: case_prod_beta)

lemma observe_packets_class:
  "tracks t history \<Longrightarrow> fst (observe_packets t ps) = count_errors history (map classify ps)"
proof (induction ps arbitrary: t history)
  case (Cons p ps)
  from observe_packet_class [OF Cons.prems, of p] Cons.IH show ?case
    by (simp add: case_prod_beta)
qed simp

subsection \<open>Properties\<close>

text \<open>
  C13: On a datagram of whole packets the tracker counts exactly the malformed packets and
  the payload packets whose counter does not follow the latest counter of their PID, as
  the history definition says.
\<close>

theorem observe_counts_history:
  assumes "\<forall>p \<in> set ps. length p = 188"
  shows "fst (observe new_continuity_tracker (concat ps)) = count_errors [] (map classify ps)"
  using observe_packets_class [of new_continuity_tracker "[]" ps] assms
  by (simp add: observe_concat tracks_def new_continuity_tracker_def)

definition sample_packet :: "u8 \<Rightarrow> u8 list" where
  "sample_packet c = [0x47, 0x01, 0x00, 0x10 OR c] @ replicate 184 0"

lemma observe_counts_history_witness:
  "fst (observe new_continuity_tracker (concat [sample_packet 3, sample_packet 5])) =
    count_errors [] (map classify [sample_packet 3, sample_packet 5])"
  by (rule observe_counts_history) (simp add: sample_packet_def)

text \<open>
  How the sender groups whole packets into datagrams makes no difference: reading two
  datagrams one after the other adds the same errors and leaves the same tracker as
  reading them as one.
\<close>

theorem observe_datagram_split:
  assumes "\<forall>p \<in> set (ps @ qs). length p = 188"
  shows "observe t (concat ps @ concat qs) =
     (let (e1, t1) = observe t (concat ps); (e2, t2) = observe t1 (concat qs) in (e1 + e2, t2))"
  using assms observe_concat [of "ps @ qs" t]
  by (simp add: observe_concat observe_packets_append case_prod_beta)

lemma observe_datagram_split_witness:
  "observe [] (concat [sample_packet 3] @ concat [sample_packet 5]) =
     (let (e1, t1) = observe [] (concat [sample_packet 3]);
          (e2, t2) = observe t1 (concat [sample_packet 5]) in (e1 + e2, t2))"
  by (rule observe_datagram_split) (simp add: sample_packet_def)

lemma observe_errors_bound: "fst (observe t data) \<le> length data div 188 + 1"
  using observe_from_bound [of t "if length data mod 188 \<noteq> 0 then 1 else 0" data 0]
  by (simp add: observe_def split: if_splits)

end
