(* ===== verification/GoUrl.thy ===== *)
theory GoUrl
  imports GoStrings
begin

text \<open>
  What the sources use of Go's \<open>net/url\<close>: \<open>Parse\<close>, \<open>URL.String\<close>, \<open>Hostname\<close>, \<open>Port\<close>,
  \<open>Query\<close> and \<open>Values.Encode\<close>. A query is a Go map from keys to their values in order.
  The lemmas show that setting a parameter keeps every other one through \<open>Encode\<close> and
  \<open>Query\<close> (\<open>query_values_encode\<close>).
\<close>

subsection \<open>Escaping\<close>

datatype encoding = EncPath | EncHost | EncZone | EncUser | EncFragment

fun should_escape :: "encoding \<Rightarrow> char \<Rightarrow> bool" where
  "should_escape mode c =
     (if is_alnum c then False
      else if (mode = EncHost \<or> mode = EncZone) \<and> c \<in> set ''!$&'' \<union> {char_of (39 :: nat)} \<union> set ''()*+,;=:[]<>'' \<union> {char_of (34 :: nat)} then False
      else if c \<in> set ''-_.~'' then False
      else if c \<in> set ''$&+,/:;=?@'' then
        (case mode of
           EncPath \<Rightarrow> c = CHR ''?''
         | EncUser \<Rightarrow> c \<in> set ''@/?:''
         | EncFragment \<Rightarrow> False
         | _ \<Rightarrow> True)
      else \<not> (mode = EncFragment \<and> c \<in> set ''!()*''))"

definition escape :: "encoding \<Rightarrow> string \<Rightarrow> string" where
  "escape mode s = concat (map (\<lambda>c. if should_escape mode c
     then let n = of_char c :: nat in [CHR ''%'', hex_char (n div 16), hex_char (n mod 16)] else [c]) s)"

fun unescape :: "encoding \<Rightarrow> string \<Rightarrow> string option" where
  "unescape mode [] = Some []"
| "unescape mode (c # cs) =
     (if c = CHR ''%'' then
        (case cs of
           a # b # rest \<Rightarrow>
             (case (hex_value a, hex_value b) of
                (Some h, Some l) \<Rightarrow>
                  if mode = EncHost \<and> h < 8 \<and> [a, b] \<noteq> ''25'' then None
                  else if mode = EncZone \<and> [a, b] \<noteq> ''25'' \<and> 16 * h + l \<noteq> 32
                    \<and> should_escape EncHost (char_of (16 * h + l)) then None
                  else map_option ((#) (char_of (16 * h + l))) (unescape mode rest)
              | _ \<Rightarrow> None)
         | _ \<Rightarrow> None)
      else if (mode = EncHost \<or> mode = EncZone) \<and> (of_char c :: nat) < 128 \<and> should_escape mode c then None
      else map_option ((#) c) (unescape mode cs))"

subsection \<open>Parsing\<close>

record url =
  u_scheme :: string
  u_opaque :: string
  u_user :: "(string \<times> string option) option"
  u_host :: string
  u_path :: string
  u_raw_path :: string
  u_omit_host :: bool
  u_force_query :: bool
  u_raw_query :: string
  u_fragment :: string
  u_raw_fragment :: string

definition empty_url :: url where
  "empty_url = \<lparr>u_scheme = [], u_opaque = [], u_user = None, u_host = [], u_path = [],
     u_raw_path = [], u_omit_host = False, u_force_query = False, u_raw_query = [],
     u_fragment = [], u_raw_fragment = []\<rparr>"

definition is_letter :: "char \<Rightarrow> bool" where
  "is_letter c \<longleftrightarrow> is_alnum c \<and> \<not> is_digit c"

text \<open>\<open>getScheme\<close>: \<open>None\<close> for a missing scheme, otherwise the scheme and the rest.\<close>

fun scheme_from :: "string \<Rightarrow> string \<Rightarrow> string \<Rightarrow> (string \<times> string) option" where
  "scheme_from whole seen [] = Some ([], whole)"
| "scheme_from whole seen (c # cs) =
     (if is_letter c then scheme_from whole (seen @ [c]) cs
      else if is_digit c \<or> c \<in> set ''+-.'' then
        (if seen = [] then Some ([], whole) else scheme_from whole (seen @ [c]) cs)
      else if c = CHR '':'' then (if seen = [] then None else Some (seen, cs))
      else Some ([], whole))"

definition last_index :: "string \<Rightarrow> char \<Rightarrow> nat option" where
  "last_index s c = (if c \<in> set s then Some (length s - Suc (length (takeWhile (\<lambda>x. x \<noteq> c) (rev s)))) else None)"

fun valid_optional_port :: "string \<Rightarrow> bool" where
  "valid_optional_port [] = True"
| "valid_optional_port (c # cs) = (c = CHR '':'' \<and> list_all is_digit cs)"

definition concat_some :: "string option list \<Rightarrow> string option" where
  "concat_some xs = (if None \<in> set xs then None else Some (concat (map the xs)))"

definition parse_host :: "string \<Rightarrow> string option" where
  "parse_host host =
     (if has_prefix host ''['' then
        (case last_index host (CHR '']'') of
           None \<Rightarrow> None
         | Some i \<Rightarrow>
             if \<not> valid_optional_port (drop (Suc i) host) then None
             else (case index_of (take i host) ''%25'' of
                Some zone \<Rightarrow> concat_some [unescape EncHost (take zone host),
                  unescape EncZone (drop zone (take i host)), unescape EncHost (drop i host)]
              | None \<Rightarrow> unescape EncHost host))
      else (case last_index host (CHR '':'') of
         Some i \<Rightarrow> if valid_optional_port (drop i host) then unescape EncHost host else None
       | None \<Rightarrow> unescape EncHost host))"

definition valid_userinfo :: "string \<Rightarrow> bool" where
  "valid_userinfo s = list_all (\<lambda>c. is_alnum c \<or> c \<in> set ''-._:~!$&()*+,;=%@'' \<or> c = char_of (39 :: nat)) s"

definition parse_authority :: "string \<Rightarrow> ((string \<times> string option) option \<times> string) option" where
  "parse_authority a = (case last_index a (CHR ''@'') of
     None \<Rightarrow> map_option (\<lambda>h. (None, h)) (parse_host a)
   | Some i \<Rightarrow>
       (case parse_host (drop (Suc i) a) of
          None \<Rightarrow> None
        | Some h \<Rightarrow>
            let info = take i a in
            if \<not> valid_userinfo info then None
            else let (name, password, found) = cut info (CHR '':'') in
              if \<not> found then map_option (\<lambda>n. (Some (n, None), h)) (unescape EncUser info)
              else (case (unescape EncUser name, unescape EncUser password) of
                      (Some n, Some p) \<Rightarrow> Some (Some (n, Some p), h)
                    | _ \<Rightarrow> None)))"

definition set_path :: "url \<Rightarrow> string \<Rightarrow> url option" where
  "set_path u p = map_option (\<lambda>path. u\<lparr>u_path := path,
     u_raw_path := if p = escape EncPath path then [] else p\<rparr>) (unescape EncPath p)"

definition count_char :: "char \<Rightarrow> string \<Rightarrow> nat" where
  "count_char c s = length (filter ((=) c) s)"

definition parse_after_query :: "url \<Rightarrow> string \<Rightarrow> url option" where
  "parse_after_query u rest =
     (if \<not> has_prefix rest ''/'' \<and> u_scheme u \<noteq> [] then Some (u\<lparr>u_opaque := rest\<rparr>)
      else if \<not> has_prefix rest ''/'' \<and> CHR '':'' \<in> set (takeWhile (\<lambda>c. c \<noteq> CHR ''/'') rest) then None
      else if (u_scheme u \<noteq> [] \<or> \<not> has_prefix rest ''///'') \<and> has_prefix rest ''//'' then
        let authority = takeWhile (\<lambda>c. c \<noteq> CHR ''/'') (drop 2 rest);
            path = dropWhile (\<lambda>c. c \<noteq> CHR ''/'') (drop 2 rest)
        in (case parse_authority authority of
              None \<Rightarrow> None
            | Some (user, host) \<Rightarrow> set_path (u\<lparr>u_user := user, u_host := host\<rparr>) path)
      else set_path (u\<lparr>u_omit_host := (u_scheme u \<noteq> [] \<and> has_prefix rest ''/'')\<rparr>) rest)"

definition parse_no_fragment :: "string \<Rightarrow> url option" where
  "parse_no_fragment raw =
     (if list_ex (\<lambda>c. (of_char c :: nat) < 32 \<or> (of_char c :: nat) = 127) raw then None
      else if raw = ''*'' then Some (empty_url\<lparr>u_path := ''*''\<rparr>)
      else (case scheme_from raw [] raw of
         None \<Rightarrow> None
       | Some (scheme, rest) \<Rightarrow>
           let u = empty_url\<lparr>u_scheme := to_lower scheme\<rparr> in
           if has_suffix rest ''?'' \<and> count_char (CHR ''?'') rest = 1 then
             parse_after_query (u\<lparr>u_force_query := True\<rparr>) (butlast rest)
           else let (front, query, _) = cut rest (CHR ''?'') in
             parse_after_query (u\<lparr>u_raw_query := query\<rparr>) front))"

definition parse_url :: "string \<Rightarrow> url option" where
  "parse_url raw =
     (let (front, frag, _) = cut raw (CHR ''#'') in
      case parse_no_fragment front of
        None \<Rightarrow> None
      | Some u \<Rightarrow> if frag = [] then Some u
          else map_option (\<lambda>f. u\<lparr>u_fragment := f,
            u_raw_fragment := if frag = escape EncFragment f then [] else frag\<rparr>) (unescape EncFragment frag))"

subsection \<open>Host and port\<close>

definition split_host_port :: "string \<Rightarrow> string \<times> string" where
  "split_host_port hp =
     (let (host, port) = (case last_index hp (CHR '':'') of
         Some i \<Rightarrow> if valid_optional_port (drop i hp) then (take i hp, drop (Suc i) hp) else (hp, [])
       | None \<Rightarrow> (hp, []))
      in (if has_prefix host ''['' \<and> has_suffix host '']'' then butlast (tl host) else host, port))"

definition url_hostname :: "url \<Rightarrow> string" where
  "url_hostname u = fst (split_host_port (u_host u))"

definition url_port :: "url \<Rightarrow> string" where
  "url_port u = snd (split_host_port (u_host u))"

subsection \<open>Queries\<close>

type_synonym query = "(string, string list) gomap"

definition add_value :: "string \<Rightarrow> string \<Rightarrow> query \<Rightarrow> query" where
  "add_value k v q = put k ((case get q k of None \<Rightarrow> [] | Some vs \<Rightarrow> vs) @ [v]) q"

text \<open>\<open>ParseQuery\<close> skips a malformed field and goes on; \<open>Query\<close> ignores the error.\<close>

definition parse_field :: "query \<Rightarrow> string \<Rightarrow> query" where
  "parse_field q field =
     (if CHR '';'' \<in> set field \<or> field = [] then q
      else let (key, value, _) = cut field (CHR ''='') in
        (case (query_unescape key, query_unescape value) of
           (Some k, Some v) \<Rightarrow> add_value k v q
         | _ \<Rightarrow> q))"

definition parse_query :: "string \<Rightarrow> query" where
  "parse_query s = foldl parse_field [] (split_on (CHR ''&'') s)"

definition query_values :: "query \<Rightarrow> string \<Rightarrow> string list" where
  "query_values q k = (case get q k of None \<Rightarrow> [] | Some vs \<Rightarrow> vs)"

definition query_get :: "query \<Rightarrow> string \<Rightarrow> string" where
  "query_get q k = (case query_values q k of [] \<Rightarrow> [] | v # _ \<Rightarrow> v)"

definition query_set :: "string \<Rightarrow> string \<Rightarrow> query \<Rightarrow> query" where
  "query_set k v q = put k [v] q"

definition query_fields :: "query \<Rightarrow> (string \<times> string) list" where
  "query_fields q = concat (map (\<lambda>k. map (\<lambda>v. (k, v)) (query_values q k)) (sorted_keys q))"

definition print_field :: "string \<times> string \<Rightarrow> string" where
  "print_field kv = query_escape (fst kv) @ ''='' @ query_escape (snd kv)"

definition query_encode :: "query \<Rightarrow> string" where
  "query_encode q = join_with ''&'' (map print_field (query_fields q))"

text \<open>Printing and parsing a query keep the values of every key, in order.\<close>

lemma query_escape_safe:
  "c \<in> {CHR ''&'', CHR '';'', CHR ''='', CHR ''#'', CHR ''?''} \<Longrightarrow> c \<notin> set (query_escape s)"
  using query_escape_chars [of c s] by (auto simp: unreserved_def is_alnum_def)

lemma parse_print_field: "parse_field q (print_field (k, v)) = add_value k v q"
proof -
  have "cut (print_field (k, v)) (CHR ''='') = (query_escape k, query_escape v, True)"
    by (simp add: print_field_def query_escape_safe)
  moreover have "CHR '';'' \<notin> set (print_field (k, v))" "print_field (k, v) \<noteq> []"
    by (simp_all add: print_field_def query_escape_safe)
  ultimately show ?thesis
    by (simp add: parse_field_def query_unescape_escape)
qed

lemma foldl_parse_print:
  "foldl parse_field q (map print_field kvs) = foldl (\<lambda>q (k, v). add_value k v q) q kvs"
  by (induction kvs arbitrary: q) (auto simp: parse_print_field)

lemma foldl_add_values:
  "query_values (foldl (\<lambda>q (k, v). add_value k v q) q kvs) x
    = query_values q x @ map snd (filter (\<lambda>kv. fst kv = x) kvs)"
  by (induction kvs arbitrary: q) (auto simp: add_value_def query_values_def)

lemma parse_print_fields:
  "query_values (parse_query (join_with ''&'' (map print_field kvs))) x
    = map snd (filter (\<lambda>kv. fst kv = x) kvs)"
proof (cases "kvs = []")
  case True
  then show ?thesis by (simp add: parse_query_def parse_field_def query_values_def)
next
  case False
  have "\<forall>f \<in> set (map print_field kvs). CHR ''&'' \<notin> set f"
    by (auto simp: print_field_def query_escape_safe)
  then have "split_on (CHR ''&'') (join_with ''&'' (map print_field kvs)) = map print_field kvs"
    using False by (intro split_join) auto
  then show ?thesis
    using foldl_add_values [of "[]" kvs x]
    by (simp add: parse_query_def foldl_parse_print query_values_def)
qed

lemma filter_key_fields:
  "distinct ks \<Longrightarrow>
    map snd (filter (\<lambda>kv. fst kv = x) (concat (map (\<lambda>k. map (\<lambda>v. (k, v)) (f k)) ks)))
      = (if x \<in> set ks then f x else [])"
  by (induction ks) (auto simp: filter_map comp_def filter_empty_conv)

lemma query_values_encode:
  assumes "map_ok q"
  shows "query_values (parse_query (query_encode q)) k = query_values q k"
proof -
  have "distinct (sorted_keys q)"
    using assms by (simp add: sorted_keys_def keys_def map_ok_def)
  then have "map snd (filter (\<lambda>kv. fst kv = k) (query_fields q))
      = (if k \<in> set (sorted_keys q) then query_values q k else [])"
    unfolding query_fields_def by (rule filter_key_fields)
  then show ?thesis
    by (cases "get q k") (simp_all add: query_encode_def parse_print_fields has_key_def query_values_def [of q])
qed

lemma map_ok_parse_query [simp]: "map_ok (parse_query s)"
proof -
  have "map_ok q \<Longrightarrow> map_ok (foldl parse_field q fs)" for q fs
    by (induction fs arbitrary: q)
      (auto simp: parse_field_def add_value_def split: prod.splits option.splits)
  then show ?thesis by (simp add: parse_query_def)
qed

lemma map_ok_query_set [simp]: "map_ok q \<Longrightarrow> map_ok (query_set k v q)"
  by (simp add: query_set_def)

lemma query_values_set [simp]:
  "query_values (query_set k v q) x = (if x = k then [v] else query_values q x)"
  by (simp add: query_values_def query_set_def)

subsection \<open>Printing\<close>

definition valid_encoded :: "encoding \<Rightarrow> string \<Rightarrow> bool" where
  "valid_encoded mode s = list_all (\<lambda>c. c \<in> set ''!$&()*+,;=:@[]%'' \<or> c = char_of (39 :: nat) \<or> \<not> should_escape mode c) s"

definition escaped_with :: "encoding \<Rightarrow> string \<Rightarrow> string \<Rightarrow> string" where
  "escaped_with mode raw value =
     (if raw \<noteq> [] \<and> valid_encoded mode raw \<and> unescape mode raw = Some value then raw else escape mode value)"

definition escaped_path :: "url \<Rightarrow> string" where
  "escaped_path u =
     (if u_raw_path u = [] \<and> u_path u = ''*'' then ''*'' else escaped_with EncPath (u_raw_path u) (u_path u))"

definition user_string :: "string \<times> string option \<Rightarrow> string" where
  "user_string user = escape EncUser (fst user) @
     (case snd user of None \<Rightarrow> [] | Some p \<Rightarrow> '':'' @ escape EncUser p)"

definition url_prefix :: "url \<Rightarrow> string" where
  "url_prefix u =
     (if u_scheme u \<noteq> [] then u_scheme u @ '':'' else []) @
     (if u_scheme u = [] \<and> u_host u = [] \<and> u_user u = None then []
      else if u_omit_host u \<and> u_host u = [] \<and> u_user u = None then []
      else (if u_host u \<noteq> [] \<or> u_path u \<noteq> [] \<or> u_user u \<noteq> None then ''//'' else []) @
        (case u_user u of None \<Rightarrow> [] | Some user \<Rightarrow> user_string user @ ''@'') @
        escape EncHost (u_host u))"

definition url_string :: "url \<Rightarrow> string" where
  "url_string u =
     (if u_opaque u \<noteq> [] then
        (if u_scheme u \<noteq> [] then u_scheme u @ '':'' else []) @ u_opaque u
      else
        let path = escaped_path u;
            front = url_prefix u @ (if path \<noteq> [] \<and> hd path \<noteq> CHR ''/'' \<and> u_host u \<noteq> [] then ''/'' else [])
        in front @ (if front = [] \<and> CHR '':'' \<in> set (takeWhile (\<lambda>c. c \<noteq> CHR ''/'') path) then ''./'' else []) @ path) @
     (if u_force_query u \<or> u_raw_query u \<noteq> [] then ''?'' @ u_raw_query u else []) @
     (if u_fragment u \<noteq> [] then ''#'' @ escaped_with EncFragment (u_raw_fragment u) (u_fragment u) else [])"

end
