(* ===== verification/Base64.thy ===== *)
theory Base64
  imports GoStrings "HOL-Library.Word"
begin

text \<open>
  Go's \<open>base64.RawURLEncoding\<close>: no padding, the URL alphabet. Decoding skips carriage
  returns and line feeds and ignores the unused low bits of a last partial group, as the
  library does. Encoded bytes decode to themselves (\<open>decode_encode\<close>).
\<close>

definition enc6 :: "nat \<Rightarrow> char" where
  "enc6 n = (if n < 26 then char_of (n + 65) else if n < 52 then char_of (n + 71)
     else if n < 62 then char_of (n - 4) else if n = 62 then CHR ''-'' else CHR ''_'')"

definition dec6 :: "char \<Rightarrow> nat option" where
  "dec6 c = (let n = of_char c :: nat in
     if 65 \<le> n \<and> n \<le> 90 then Some (n - 65)
     else if 97 \<le> n \<and> n \<le> 122 then Some (n - 71)
     else if 48 \<le> n \<and> n \<le> 57 then Some (n + 4)
     else if c = CHR ''-'' then Some 62
     else if c = CHR ''_'' then Some 63 else None)"

fun encode64 :: "octets \<Rightarrow> string" where
  "encode64 [] = []"
| "encode64 [a] = [enc6 (unat a div 4), enc6 (unat a mod 4 * 16)]"
| "encode64 [a, b] = [enc6 (unat a div 4), enc6 (unat a mod 4 * 16 + unat b div 16), enc6 (unat b mod 16 * 4)]"
| "encode64 (a # b # c # rest) =
     [enc6 (unat a div 4), enc6 (unat a mod 4 * 16 + unat b div 16),
      enc6 (unat b mod 16 * 4 + unat c div 64), enc6 (unat c mod 64)] @ encode64 rest"

fun decode_groups :: "nat list \<Rightarrow> octets option" where
  "decode_groups [] = Some []"
| "decode_groups [w] = None"
| "decode_groups [w, x] = Some [of_nat (w * 4 + x div 16)]"
| "decode_groups [w, x, y] = Some [of_nat (w * 4 + x div 16), of_nat (x mod 16 * 16 + y div 4)]"
| "decode_groups (w # x # y # z # rest) =
     map_option (\<lambda>bs. [of_nat (w * 4 + x div 16), of_nat (x mod 16 * 16 + y div 4),
       of_nat (y mod 4 * 64 + z)] @ bs) (decode_groups rest)"

fun all_some :: "'a option list \<Rightarrow> 'a list option" where
  "all_some [] = Some []"
| "all_some (None # xs) = None"
| "all_some (Some x # xs) = map_option ((#) x) (all_some xs)"

definition decode64 :: "string \<Rightarrow> octets option" where
  "decode64 s = (case all_some (map dec6 (filter (\<lambda>c. (of_char c :: nat) \<noteq> 10 \<and> (of_char c :: nat) \<noteq> 13) s)) of
     None \<Rightarrow> None | Some ns \<Rightarrow> decode_groups ns)"

definition url64_char :: "char \<Rightarrow> bool" where
  "url64_char c \<longleftrightarrow> is_alnum c \<or> c = CHR ''-'' \<or> c = CHR ''_''"

lemma dec6_enc6: "n < 64 \<Longrightarrow> dec6 (enc6 n) = Some n"
  by (auto simp: dec6_def enc6_def Let_def)

lemma url64_enc6: "n < 64 \<Longrightarrow> url64_char (enc6 n)"
  by (auto simp: url64_char_def is_alnum_def enc6_def Let_def)

lemma url64_char_kept: "url64_char c \<Longrightarrow> (of_char c :: nat) \<noteq> 10 \<and> (of_char c :: nat) \<noteq> 13"
  by (auto simp: url64_char_def is_alnum_def Let_def)

lemma unat_byte_less: "unat (b :: 8 word) < 256"
  using unsigned_less [where ?'a = nat, of b] by simp

text \<open>The six-bit groups the encoder prints.\<close>

fun sextets :: "octets \<Rightarrow> nat list" where
  "sextets [] = []"
| "sextets [a] = [unat a div 4, unat a mod 4 * 16]"
| "sextets [a, b] = [unat a div 4, unat a mod 4 * 16 + unat b div 16, unat b mod 16 * 4]"
| "sextets (a # b # c # rest) =
     [unat a div 4, unat a mod 4 * 16 + unat b div 16, unat b mod 16 * 4 + unat c div 64,
      unat c mod 64] @ sextets rest"

lemma encode64_sextets: "encode64 bs = map enc6 (sextets bs)"
  by (induction bs rule: encode64.induct) auto

lemma byte_parts:
  fixes a b :: "8 word"
  shows "unat a div 4 < 64" "unat a mod 4 * 16 + unat b div 16 < 64"
    "unat a mod 16 * 4 + unat b div 64 < 64" "unat a mod 4 * 16 < 64" "unat a mod 16 * 4 < 64"
proof -
  have "unat a div 4 \<le> 63" "unat b div 16 \<le> 15" "unat b div 64 \<le> 3"
    using unat_byte_less [of a] unat_byte_less [of b] by linarith+
  moreover have "unat a mod 4 \<le> 3" "unat a mod 16 \<le> 15"
    using mod_less_divisor [of 4 "unat a"] mod_less_divisor [of 16 "unat a"] by linarith+
  ultimately show "unat a div 4 < 64" "unat a mod 4 * 16 + unat b div 16 < 64"
    "unat a mod 16 * 4 + unat b div 64 < 64" "unat a mod 4 * 16 < 64" "unat a mod 16 * 4 < 64"
    by linarith+
qed

lemma sextets_less: "n \<in> set (sextets bs) \<Longrightarrow> n < 64"
  by (induction bs rule: sextets.induct) (auto simp: byte_parts)

lemma rejoin: "(y :: nat) < k \<Longrightarrow> (x * k + y) div k = x" "(y :: nat) < k \<Longrightarrow> (x * k + y) mod k = y"
  by (simp_all add: add.commute [of "x * k"])

lemma byte_rebuild:
  fixes a b c :: "8 word"
  shows "of_nat (unat a div 4 * 4 + (unat a mod 4 * 16 + unat b div 16) div 16) = a"
    and "of_nat ((unat a mod 4 * 16 + unat b div 16) mod 16 * 16 + (unat b mod 16 * 4 + unat c div 64) div 4) = b"
    and "of_nat ((unat b mod 16 * 4 + unat c div 64) mod 4 * 64 + unat c mod 64) = c"
proof -
  have small: "unat b div 16 < 16" "unat c div 64 < 4"
    using unat_byte_less [of b] unat_byte_less [of c] by linarith+
  have "unat a div 4 * 4 + (unat a mod 4 * 16 + unat b div 16) div 16 = unat a"
    "(unat a mod 4 * 16 + unat b div 16) mod 16 * 16 + (unat b mod 16 * 4 + unat c div 64) div 4 = unat b"
    "(unat b mod 16 * 4 + unat c div 64) mod 4 * 64 + unat c mod 64 = unat c"
    by (simp_all only: rejoin [OF small(1)] rejoin [OF small(2)] div_mult_mod_eq)
  then show "of_nat (unat a div 4 * 4 + (unat a mod 4 * 16 + unat b div 16) div 16) = a"
    and "of_nat ((unat a mod 4 * 16 + unat b div 16) mod 16 * 16 + (unat b mod 16 * 4 + unat c div 64) div 4) = b"
    and "of_nat ((unat b mod 16 * 4 + unat c div 64) mod 4 * 64 + unat c mod 64) = c"
    by simp_all
qed

lemma decode_sextets: "decode_groups (sextets bs) = Some bs"
proof (induction bs rule: sextets.induct)
  case (2 a)
  then show ?case using byte_rebuild(1) [of a 0] by simp
next
  case (3 a b)
  then show ?case using byte_rebuild(1) [of a b] byte_rebuild(2) [of a b 0] by simp
next
  case (4 a b c rest)
  then show ?case
    using byte_rebuild(1) [of a b] byte_rebuild(2) [of a b c] byte_rebuild(3) [of b c] by simp
qed simp

lemma all_some_dec: "(\<And>n. n \<in> set ns \<Longrightarrow> n < 64) \<Longrightarrow> all_some (map dec6 (map enc6 ns)) = Some ns"
  by (induction ns) (auto simp: dec6_enc6)

lemma encode64_chars: "c \<in> set (encode64 bs) \<Longrightarrow> url64_char c"
  by (auto simp: encode64_sextets dest: sextets_less intro: url64_enc6)

lemma decode_encode: "decode64 (encode64 bs) = Some bs"
proof -
  have "filter (\<lambda>c. (of_char c :: nat) \<noteq> 10 \<and> (of_char c :: nat) \<noteq> 13) (encode64 bs) = encode64 bs"
    by (rule filter_True) (use encode64_chars url64_char_kept in blast)
  then show ?thesis
    using all_some_dec [of "sextets bs", OF sextets_less]
    by (simp add: decode64_def encode64_sextets decode_sextets)
qed

lemma length_encode64: "length (encode64 bs) = (8 * length bs + 5) div 6"
  by (induction bs rule: encode64.induct) auto

end
