(* ===== verification/RestartLimiter.thy ===== *)
theory RestartLimiter
  imports Prelude
begin

text \<open>
  Counting attempts in a window, as three components do: the SRT manager
  (\<open>internal/srtrelay/manager.go\<close>) and the stream manager (\<open>internal/streams/jobs.go\<close>) for
  restarts, the SRT worker (\<open>internal/srtworker/worker.go\<close>) for connection attempts. A window
  opens at the first attempt, the attempts inside it are counted, and an attempt is granted
  while the count is within the limit.

  The locale \<open>attempt_limiter\<close> is the contract all three keep; an attempt may also be refused
  without being counted. \<open>restart_limiter\<close> adds that every attempt is counted, which makes the
  number of grants exact. Each component interprets them on its own definitions.
\<close>

record restart_tracker =
  rt_first :: gotime
  rt_attempts :: int

definition zero_tracker :: restart_tracker where
  "zero_tracker = \<lparr>rt_first = zero_time, rt_attempts = 0\<rparr>"

definition tracker_of :: "(string, restart_tracker) gomap \<Rightarrow> string \<Rightarrow> restart_tracker" where
  "tracker_of restarts i = (case get restarts i of None \<Rightarrow> zero_tracker | Some t \<Rightarrow> t)"

definition window_over :: "int \<Rightarrow> gotime \<Rightarrow> restart_tracker \<Rightarrow> bool" where
  "window_over window now t \<longleftrightarrow> is_zero (rt_first t) \<or> time_sub now (rt_first t) > window"

definition next_tracker :: "int \<Rightarrow> gotime \<Rightarrow> restart_tracker \<Rightarrow> restart_tracker" where
  "next_tracker window now t =
     (if window_over window now t then \<lparr>rt_first = now, rt_attempts = 1\<rparr>
      else t\<lparr>rt_attempts := rt_attempts t + 1\<rparr>)"

locale attempt_limiter =
  fixes attempt :: "gotime \<Rightarrow> 's \<Rightarrow> bool \<times> 's"
    and tracker :: "'s \<Rightarrow> restart_tracker"
    and window :: int
    and limit :: int
    and timely :: "gotime \<Rightarrow> bool"
  assumes counted_or_refused: "timely now \<Longrightarrow> tracker (snd (attempt now s)) = next_tracker window now (tracker s)
      \<or> (\<not> fst (attempt now s) \<and> tracker (snd (attempt now s)) = tracker s)"
    and grant_within: "timely now \<Longrightarrow> fst (attempt now s) \<Longrightarrow> rt_attempts (next_tracker window now (tracker s)) \<le> limit"
    and timely_nonzero: "timely now \<Longrightarrow> \<not> is_zero now"
    and limit_nonneg: "0 \<le> limit"
begin

text \<open>The number of attempts granted in a run of attempts at the given times.\<close>

fun granted :: "gotime list \<Rightarrow> 's \<Rightarrow> nat" where
  "granted [] s = 0"
| "granted (t # ts) s = of_bool (fst (attempt t s)) + granted ts (snd (attempt t s))"

text \<open>
  Inside an open window the grants are at most what the count leaves of the limit.
\<close>

lemma granted_in_window_le:
  "list_all timely ts \<Longrightarrow> \<not> is_zero (rt_first (tracker s)) \<Longrightarrow> \<forall>t \<in> set ts. time_sub t (rt_first (tracker s)) \<le> window
    \<Longrightarrow> granted ts s \<le> nat (limit - rt_attempts (tracker s))"
proof (induction ts arbitrary: s)
  case (Cons t ts)
  let ?s = "snd (attempt t s)"
  have n: "next_tracker window t (tracker s) = (tracker s)\<lparr>rt_attempts := rt_attempts (tracker s) + 1\<rparr>"
    using Cons.prems by (simp add: next_tracker_def window_over_def)
  have t: "timely t" "list_all timely ts" using Cons.prems by simp_all
  from counted_or_refused [OF t(1), of s] show ?case
  proof
    assume c: "tracker ?s = next_tracker window t (tracker s)"
    then have "granted ts ?s \<le> nat (limit - rt_attempts (tracker ?s))"
      using Cons.prems t by (intro Cons.IH) (simp_all add: n)
    then show ?thesis using grant_within [OF t(1), of s] by (auto simp: c n)
  next
    assume c: "\<not> fst (attempt t s) \<and> tracker ?s = tracker s"
    then have "granted ts ?s \<le> nat (limit - rt_attempts (tracker ?s))"
      using Cons.prems t by (intro Cons.IH) simp_all
    then show ?thesis using c by simp
  qed
qed simp

text \<open>
  Whatever came before, no stretch of time as long as the window sees more grants than twice
  the limit: at most the limit in the window that is open when the stretch begins, and at
  most the limit in the one that opens during it.
\<close>

lemma granted_stretch:
  assumes "sorted ts" "\<forall>t \<in> set ts. \<forall>u \<in> set ts. time_sub u t \<le> window" "list_all timely ts"
    and "0 \<le> rt_attempts (tracker s)"
  shows "int (granted ts s) \<le> limit + (if is_zero (rt_first (tracker s)) then 0 else max 0 (limit - rt_attempts (tracker s)))"
  using assms
proof (induction ts arbitrary: s)
  case (Cons t ts)
  let ?s = "snd (attempt t s)"
  have t: "timely t" "list_all timely ts" using Cons.prems by simp_all
  have rest: "sorted ts" "\<forall>t \<in> set ts. \<forall>u \<in> set ts. time_sub u t \<le> window"
    using Cons.prems by simp_all
  from counted_or_refused [OF t(1), of s] show ?case
  proof
    assume c: "tracker ?s = next_tracker window t (tracker s)"
    show ?thesis
    proof (cases "window_over window t (tracker s)")
      case True
      then have f: "tracker ?s = \<lparr>rt_first = t, rt_attempts = 1\<rparr>"
        by (simp add: c next_tracker_def)
      have "granted ts ?s \<le> nat (limit - 1)"
        using granted_in_window_le [OF t(2), of ?s] Cons.prems timely_nonzero [OF t(1)] by (simp add: f)
      moreover have "fst (attempt t s) \<Longrightarrow> 1 \<le> limit"
        using grant_within [OF t(1), of s] True by (simp add: next_tracker_def)
      ultimately show ?thesis using limit_nonneg by auto
    next
      case False
      then have n: "next_tracker window t (tracker s) = (tracker s)\<lparr>rt_attempts := rt_attempts (tracker s) + 1\<rparr>"
        and nz: "\<not> is_zero (rt_first (tracker s))"
        by (simp_all add: next_tracker_def window_over_def)
      then show ?thesis
        using Cons.IH [OF rest t(2), of ?s] Cons.prems(4) grant_within [OF t(1), of s]
        by (auto simp: c n)
    qed
  next
    assume "\<not> fst (attempt t s) \<and> tracker ?s = tracker s"
    then have "\<not> fst (attempt t s)" "tracker ?s = tracker s" by simp_all
    then show ?thesis
      using Cons.IH [OF rest t(2), of ?s] Cons.prems(4) by (simp split: if_splits)
  qed
qed (use limit_nonneg in auto)

lemma granted_burst:
  assumes "sorted ts" "\<forall>t \<in> set ts. \<forall>u \<in> set ts. time_sub u t \<le> window" "list_all timely ts"
    and "0 \<le> rt_attempts (tracker s)"
  shows "int (granted ts s) \<le> 2 * limit"
  using granted_stretch [OF assms] assms(4) limit_nonneg by (auto split: if_splits)

end

text \<open>Every attempt is counted.\<close>

locale restart_limiter = attempt_limiter +
  assumes note_tracker: "tracker (snd (attempt now s)) = next_tracker window now (tracker s)"
    and note_grants: "fst (attempt now s) \<longleftrightarrow> rt_attempts (next_tracker window now (tracker s)) \<le> limit"
begin

lemma granted_in_window:
  "\<not> is_zero (rt_first (tracker s)) \<Longrightarrow> \<forall>t \<in> set ts. time_sub t (rt_first (tracker s)) \<le> window
    \<Longrightarrow> granted ts s = min (length ts) (nat (limit - rt_attempts (tracker s)))"
proof (induction ts arbitrary: s)
  case (Cons t ts)
  let ?s = "snd (attempt t s)"
  have n: "next_tracker window t (tracker s) = (tracker s)\<lparr>rt_attempts := rt_attempts (tracker s) + 1\<rparr>"
    using Cons.prems by (simp add: next_tracker_def window_over_def)
  have ih: "granted ts ?s = min (length ts) (nat (limit - rt_attempts (tracker ?s)))"
    using Cons.prems by (intro Cons.IH) (simp_all add: note_tracker n)
  show ?case
    by (auto simp: ih note_tracker note_grants n)
qed simp

text \<open>After a reset, a run of failures inside one window is granted exactly the limit.\<close>

lemma granted_fresh:
  assumes "window_over window t (tracker s)" "\<forall>u \<in> set ts. time_sub u t \<le> window" "\<not> is_zero t"
  shows "granted (t # ts) s = min (Suc (length ts)) (nat limit)"
proof -
  let ?s = "snd (attempt t s)"
  have f: "tracker ?s = \<lparr>rt_first = t, rt_attempts = 1\<rparr>" "fst (attempt t s) = (1 \<le> limit)"
    using assms(1) by (simp_all add: note_tracker note_grants next_tracker_def)
  have "granted ts ?s = min (length ts) (nat (limit - 1))"
    using granted_in_window [of ?s ts] assms(2,3) by (simp add: f)
  then show ?thesis
    using limit_nonneg by (auto simp: f min_def)
qed

end

end
