(* ===== verification/SrtWorker.thy ===== *)
theory SrtWorker
  imports SrtModels StreamId Continuity GoNet GoUrl Base64 RestartLimiter
begin

text \<open>
  The SRT worker process (\<open>internal/srtworker/worker.go\<close>): its configuration, the admission of
  callers, sessions and their queues, the input loop and the metrics. Each critical section
  of the source is one function of the worker's state. Sockets are numbers, and what libsrt,
  the network and the clock answer is passed in. \<open>w_closing\<close> holds the closes that run in
  goroutines of their own, \<open>w_errors\<close> what was sent to the error channel of \<open>Run\<close>.
\<close>

subsection \<open>State\<close>

record client_acl =
  acl_config :: worker_client
  acl_networks :: "ipnet list"

record pending_attempt =
  pa_client :: string
  pa_ip :: string
  pa_port :: int
  pa_stream :: string

record attempt_window =
  aw_started :: gotime
  aw_count :: int
  aw_reported :: bool

record client_session =
  cs_socket :: int
  cs_queue :: "octets list"
  cs_data :: session
  cs_drop_burst :: int
  cs_app_drops :: int
  cs_fatal :: bool

record worker =
  w_config :: worker_config
  w_clients :: "(string, client_acl) gomap"
  w_events :: "worker_event list"
  w_sessions :: "(string, client_session) gomap"
  w_pending :: "(string, pending_attempt) gomap"
  w_reservations :: "(string, int) gomap"
  w_attempts :: "(string, attempt_window) gomap"
  w_input_bytes :: int
  w_input_packets :: int
  w_last_input :: gotime
  w_continuity :: int
  w_stopping :: bool
  w_closing :: "(string \<times> string) list"
  w_timers :: "string list"
  w_errors :: "string list"
  w_closed :: "int list"

definition session_queue_size :: nat where "session_queue_size = 512"
definition max_queue_drop_burst :: int where "max_queue_drop_burst = 256"

subsection \<open>Configuration\<close>

datatype worker_error =
    InvalidPublishPassphrase | PublishPassphraseUnwanted | InputTimeoutRange
  | InvalidClient string | InvalidClientPassphrase string | ClientPassphraseUnwanted string
  | InvalidClientCidr string string | CompatibilityListenerOnly | DefaultClientUnavailable string

definition bad_passphrase :: "string \<Rightarrow> bool" where
  "bad_passphrase p \<longleftrightarrow> length p < 10 \<or> length p > 79"

fun acl_nets :: "string \<Rightarrow> string list \<Rightarrow> (worker_error, ipnet list) result" where
  "acl_nets i [] = Inr []"
| "acl_nets i (value # rest) = (case parse_cidr value of
     None \<Rightarrow> Inl (InvalidClientCidr i value)
   | Some network \<Rightarrow> and_then (acl_nets i rest) (\<lambda>networks. Inr (network # networks)))"

definition build_acl :: "worker_client \<Rightarrow> (worker_error, client_acl) result" where
  "build_acl given =
     (let c = (if wc_encryption_mode given = [] then given\<lparr>wc_encryption_mode := encryption_aes256\<rparr> else given);
          mode = wc_encryption_mode c
      in if wc_id c = [] \<or> (mode \<noteq> encryption_aes256 \<and> mode \<noteq> encryption_none) then Inl (InvalidClient (wc_id c))
         else if mode = encryption_aes256 \<and> bad_passphrase (wc_passphrase c) then Inl (InvalidClientPassphrase (wc_id c))
         else if mode = encryption_none \<and> wc_passphrase c \<noteq> [] then Inl (ClientPassphraseUnwanted (wc_id c))
         else and_then (acl_nets (wc_id c) (wc_allowed_cidrs c)) (\<lambda>networks.
           Inr \<lparr>acl_config = c, acl_networks = networks\<rparr>))"

fun build_acls :: "worker_client list \<Rightarrow> (string, client_acl) gomap \<Rightarrow> (worker_error, (string, client_acl) gomap) result" where
  "build_acls [] acls = Inr acls"
| "build_acls (c # cs) acls = and_then (build_acl c) (\<lambda>acl.
     build_acls cs (put (wc_id (acl_config acl)) acl acls))"

definition fill_worker_relay :: "relay \<Rightarrow> relay" where
  "fill_worker_relay r =
     (let r = (if r_direction r = [] then r\<lparr>r_direction := direction_listener\<rparr> else r)
      in if r_input_timeout_seconds r = 0 then r\<lparr>r_input_timeout_seconds := 10\<rparr> else r)"

definition check_publish :: "relay \<Rightarrow> string \<Rightarrow> (worker_error, unit) result" where
  "check_publish r passphrase =
     (if r_direction r = direction_publish then
        if r_encryption_mode r = encryption_aes256 \<and> bad_passphrase passphrase then Inl InvalidPublishPassphrase
        else if r_encryption_mode r = encryption_none \<and> passphrase \<noteq> [] then Inl PublishPassphraseUnwanted
        else Inr ()
      else Inr ())"

definition check_compatibility :: "relay \<Rightarrow> (string, client_acl) gomap \<Rightarrow> (worker_error, unit) result" where
  "check_compatibility r acls =
     (if \<not> r_allow_missing_stream_id r then Inr ()
      else if r_direction r \<noteq> direction_listener then Inl CompatibilityListenerOnly
      else if \<not> has_key acls (r_default_client_id r) then Inl (DefaultClientUnavailable (r_default_client_id r))
      else Inr ())"

definition new_worker :: "gotime \<Rightarrow> worker_config \<Rightarrow> (worker_error, worker) result" where
  "new_worker now config =
     (let r = fill_worker_relay (wcfg_relay config) in
      and_then (check_publish r (wcfg_publish_passphrase config)) (\<lambda>_.
      if r_input_timeout_seconds r < 3 \<or> r_input_timeout_seconds r > 300 then Inl InputTimeoutRange
      else and_then (build_acls (wcfg_clients config) []) (\<lambda>acls.
        and_then (check_compatibility r acls) (\<lambda>_.
          Inr \<lparr>w_config = config\<lparr>wcfg_relay := r\<rparr>, w_clients = acls, w_events = [], w_sessions = [],
            w_pending = [], w_reservations = [], w_attempts = [], w_input_bytes = 0, w_input_packets = 0,
            w_last_input = now, w_continuity = 0, w_stopping = False, w_closing = [], w_timers = [],
            w_errors = [], w_closed = []\<rparr>))))"

definition listener_minimum_version :: "relay \<Rightarrow> int" where
  "listener_minimum_version r = (if r_allow_missing_stream_id r then 0x010000 else 0x010300)"

definition listener_enforces_encryption :: "worker_client list \<Rightarrow> bool" where
  "listener_enforces_encryption clients \<longleftrightarrow> \<not> list_ex (\<lambda>c. wc_encryption_mode c = encryption_none) clients"

subsection \<open>Events\<close>

text \<open>
  The channel holds 1024 events. A lifecycle event that finds it full waits for room; it is
  the entry beyond the capacity. Any other event is then dropped.
\<close>

definition lifecycle_types :: "string list" where
  "lifecycle_types = [''session_connected'', ''session_disconnected'', ''connection_rejected'', ''relay_error'']"

definition emit :: "worker_event \<Rightarrow> worker \<Rightarrow> bool \<times> worker" where
  "emit e w = (if length (w_events w) < 1024 \<or> we_type e \<in> set lifecycle_types
     then (True, w\<lparr>w_events := w_events w @ [e]\<rparr>) else (False, w))"

definition session_event :: "string \<Rightarrow> gotime \<Rightarrow> string \<Rightarrow> session \<Rightarrow> worker_event" where
  "session_event type now reason x = zero_worker_event\<lparr>we_type := type, we_time := now, we_reason := reason, we_session := Some x\<rparr>"

definition emit_rejected :: "gotime \<Rightarrow> session \<Rightarrow> string \<Rightarrow> worker \<Rightarrow> worker" where
  "emit_rejected now x reason w = snd (emit (session_event ''connection_rejected'' now reason x) w)"

text \<open>
  \<open>writeEvents\<close>: each event is encoded and flushed; the first failure ends the writing, with
  what was written before. \<open>write\<close> answers whether the n-th line reaches the output.
\<close>

fun write_events :: "(worker_event \<Rightarrow> string) \<Rightarrow> (nat \<Rightarrow> bool) \<Rightarrow> nat \<Rightarrow> worker_event list \<Rightarrow> string list \<times> bool" where
  "write_events encode write n [] = ([], True)"
| "write_events encode write n (e # es) =
     (if \<not> write n then ([], False)
      else case write_events encode write (n + 1) es of (lines, ok) \<Rightarrow> (encode e # lines, ok))"

subsection \<open>Admission\<close>

definition attempt_key :: "string \<Rightarrow> int \<Rightarrow> string \<Rightarrow> string" where
  "attempt_key ip port stream = join_host_port ip (itoa port) @ CHR 0x00 # stream"

definition ip_allowed :: "octets \<Rightarrow> ipnet list \<Rightarrow> bool" where
  "ip_allowed ip networks \<longleftrightarrow> list_ex (\<lambda>n. net_contains n ip) networks"

definition pending_secret :: "string \<Rightarrow> worker \<Rightarrow> string option" where
  "pending_secret key w = (case get (w_pending w) key of
     None \<Rightarrow> None
   | Some p \<Rightarrow> map_option (\<lambda>acl. wc_passphrase (acl_config acl)) (get (w_clients w) (pa_client p)))"

definition minute :: int where "minute = seconds 60"
definition attempts_per_minute :: int where "attempts_per_minute = 60"
definition max_tracked_ips :: nat where "max_tracked_ips = 10000"

definition sweep_attempts :: "gotime \<Rightarrow> (string, attempt_window) gomap \<Rightarrow> (string, attempt_window) gomap" where
  "sweep_attempts now attempts = filter (\<lambda>(_, window). \<not> time_sub now (aw_started window) \<ge> minute) attempts"

definition count_attempt :: "string \<Rightarrow> gotime \<Rightarrow> (string, attempt_window) gomap \<Rightarrow> (bool \<times> bool) \<times> (string, attempt_window) gomap" where
  "count_attempt ip now attempts =
     (let found = get attempts ip;
          attempts = (if found = None \<and> int (length attempts) \<ge> int max_tracked_ips then sweep_attempts now attempts else attempts)
      in if found = None \<and> int (length attempts) \<ge> int max_tracked_ips then ((False, False), attempts)
         else (case found of
           None \<Rightarrow> ((True, False), put ip \<lparr>aw_started = now, aw_count = 1, aw_reported = False\<rparr> attempts)
         | Some window \<Rightarrow>
             if time_sub now (aw_started window) \<ge> minute then
               ((True, False), put ip \<lparr>aw_started = now, aw_count = 1, aw_reported = False\<rparr> attempts)
             else let window = window\<lparr>aw_count := aw_count window + 1\<rparr> in
               if aw_count window \<le> attempts_per_minute then ((True, False), put ip window attempts)
               else ((False, \<not> aw_reported window), put ip (window\<lparr>aw_reported := True\<rparr>) attempts)))"

definition allow_connection_attempt :: "string \<Rightarrow> gotime \<Rightarrow> worker \<Rightarrow> (bool \<times> bool) \<times> worker" where
  "allow_connection_attempt ip now w = (case count_attempt ip now (w_attempts w) of
     (answer, attempts) \<Rightarrow> (answer, w\<lparr>w_attempts := attempts\<rparr>))"

definition reserved :: "worker \<Rightarrow> string \<Rightarrow> int" where
  "reserved w c = (case get (w_reservations w) c of None \<Rightarrow> 0 | Some n \<Rightarrow> n)"

definition sessions_of :: "worker \<Rightarrow> string \<Rightarrow> nat" where
  "sessions_of w c = length (filter (\<lambda>(_, s). s_client_id (cs_data s) = c) (w_sessions w))"

datatype reservation = Reserved string | AlreadyPending string | ClientFull | RelayFull

text \<open>The critical section of \<open>authorize\<close> that reserves a place.\<close>

definition reserve :: "string \<Rightarrow> pending_attempt \<Rightarrow> client_acl \<Rightarrow> worker \<Rightarrow> reservation \<times> worker" where
  "reserve key p acl w = (case get (w_pending w) key of
     Some other \<Rightarrow> (AlreadyPending (case get (w_clients w) (pa_client other) of
         None \<Rightarrow> [] | Some a \<Rightarrow> wc_passphrase (acl_config a)), w)
   | None \<Rightarrow>
       if reserved w (pa_client p) + int (sessions_of w (pa_client p)) \<ge> wc_max_sessions (acl_config acl) then (ClientFull, w)
       else if int (length (w_sessions w) + length (w_pending w)) \<ge> r_max_clients (wcfg_relay (w_config w)) then (RelayFull, w)
       else (Reserved (wc_passphrase (acl_config acl)),
         w\<lparr>w_pending := put key p (w_pending w),
           w_reservations := put (pa_client p) (reserved w (pa_client p) + 1) (w_reservations w),
           w_timers := w_timers w @ [key]\<rparr>))"

definition caller :: "string \<Rightarrow> int \<Rightarrow> string \<Rightarrow> string \<Rightarrow> session" where
  "caller client port ip stream = zero_session\<lparr>s_client_id := client, s_remote_ip := ip, s_remote_port := port, s_stream_id := stream\<rparr>"

text \<open>The client a Stream ID stands for: the one it names, or the default of a compatibility relay.\<close>

definition resolve_client :: "worker \<Rightarrow> string \<Rightarrow> (stream_id_error, string) result" where
  "resolve_client w stream = (case client_id_from_stream_id stream of
     Inr c \<Rightarrow> Inr c
   | Inl e \<Rightarrow> if stream \<noteq> [] \<or> \<not> r_allow_missing_stream_id (wcfg_relay (w_config w)) then Inl e
       else Inr (r_default_client_id (wcfg_relay (w_config w))))"

definition admit :: "gotime \<Rightarrow> string \<Rightarrow> int \<Rightarrow> string \<Rightarrow> worker \<Rightarrow> (string \<times> int) \<times> worker" where
  "admit now ip port stream w = (case resolve_client w stream of
     Inl e \<Rightarrow> (([], 400), emit_rejected now (caller [] port ip stream) (stream_id_error_text e) w)
   | Inr c \<Rightarrow> (case get (w_clients w) c of
       None \<Rightarrow> (([], 404), emit_rejected now (caller c port ip stream) ''unknown or disabled SRT client'' w)
     | Some acl \<Rightarrow> (case parse_ip ip of
         None \<Rightarrow> (([], 403), emit_rejected now (caller c port ip stream) ''remote IP is not allowed'' w)
       | Some addr \<Rightarrow>
           if \<not> ip_allowed addr (acl_networks acl) then
             (([], 403), emit_rejected now (caller c port ip stream) ''remote IP is not allowed'' w)
           else (case reserve (attempt_key ip port stream)
                 \<lparr>pa_client = c, pa_ip = ip, pa_port = port, pa_stream = stream\<rparr> acl w of
             (Reserved secret, w') \<Rightarrow> ((secret, 0), w')
           | (AlreadyPending secret, w') \<Rightarrow> ((secret, 0), w')
           | (ClientFull, w') \<Rightarrow> (([], 429), emit_rejected now (caller c port ip stream) ''client session limit reached'' w')
           | (RelayFull, w') \<Rightarrow> (([], 429), emit_rejected now (caller c port ip stream) ''relay client limit reached'' w')))))"

definition authorize :: "gotime \<Rightarrow> string \<Rightarrow> int \<Rightarrow> string \<Rightarrow> worker \<Rightarrow> (string \<times> int) \<times> worker" where
  "authorize now ip port stream w = (case pending_secret (attempt_key ip port stream) w of
     Some secret \<Rightarrow> ((secret, 0), w)
   | None \<Rightarrow> (case allow_connection_attempt ip now w of
       ((False, report), w') \<Rightarrow> (([], 429),
         if report then emit_rejected now (caller [] port ip stream) ''connection attempt rate limit exceeded'' w' else w')
     | ((True, _), w') \<Rightarrow> admit now ip port stream
         (snd (emit (session_event ''connection_attempt'' now [] (caller [] port ip stream)) w'))))"

text \<open>
  The callback from libsrt: the secret is copied with its terminator into a buffer of the
  given capacity, and the code is the decision.
\<close>

definition go_srt_authorize ::
  "gotime \<Rightarrow> string \<Rightarrow> int \<Rightarrow> string \<Rightarrow> nat \<Rightarrow> worker option \<Rightarrow> (int \<times> string option) \<times> worker option" where
  "go_srt_authorize now ip port stream capacity registered = (case registered of
     None \<Rightarrow> ((503, None), None)
   | Some w \<Rightarrow> (case authorize now ip port stream w of
       ((secret, decision), w') \<Rightarrow>
         if decision \<noteq> 0 then ((decision, None), Some w')
         else if length secret + 1 > capacity then ((500, None), Some w')
         else ((0, Some (secret @ [CHR 0x00])), Some w')))"

definition c_string :: "string \<Rightarrow> string" where
  "c_string buffer = takeWhile (\<lambda>c. c \<noteq> CHR 0x00) buffer"

definition native_error :: "string \<Rightarrow> string" where
  "native_error buffer = (let message = c_string buffer in if message = [] then ''unknown SRT error'' else message)"

definition release :: "string \<Rightarrow> pending_attempt \<Rightarrow> worker \<Rightarrow> worker" where
  "release key p w = w\<lparr>w_pending := del key (w_pending w),
     w_reservations := put (pa_client p) (reserved w (pa_client p) - 1) (w_reservations w)\<rparr>"

definition expire_attempt :: "gotime \<Rightarrow> string \<Rightarrow> worker \<Rightarrow> worker" where
  "expire_attempt now key w = (case get (w_pending w) key of
     None \<Rightarrow> w
   | Some p \<Rightarrow> emit_rejected now (caller (pa_client p) (pa_port p) (pa_ip p) (pa_stream p))
       ''SRT handshake did not complete: encryption mismatch or timeout'' (release key p w))"

subsection \<open>Sessions\<close>

record accepted =
  ac_socket :: int
  ac_ip :: string
  ac_port :: int
  ac_stream :: string
  ac_version :: string
  ac_encrypted :: bool

definition native_close :: "int \<Rightarrow> worker \<Rightarrow> worker" where
  "native_close socket w = w\<lparr>w_closed := w_closed w @ [socket]\<rparr>"

definition new_session :: "gotime \<Rightarrow> string \<Rightarrow> string \<Rightarrow> string \<Rightarrow> accepted \<Rightarrow> session" where
  "new_session now i relay client a = zero_session\<lparr>s_id := i, s_relay_id := relay, s_client_id := client,
     s_remote_ip := ac_ip a, s_remote_port := ac_port a, s_stream_id := ac_stream a,
     s_peer_version := ac_version a, s_encrypted := ac_encrypted a, s_connected_at := now\<rparr>"

definition add_session :: "gotime \<Rightarrow> bool \<Rightarrow> int \<Rightarrow> session \<Rightarrow> worker \<Rightarrow> worker" where
  "add_session now fatal socket x w = snd (emit (session_event ''session_connected'' now [] x)
     (w\<lparr>w_sessions := put (s_id x) \<lparr>cs_socket = socket, cs_queue = [], cs_data = x, cs_drop_burst = 0,
        cs_app_drops = 0, cs_fatal = fatal\<rparr> (w_sessions w)\<rparr>))"

text \<open>The ID of a session, from 12 random bytes when there are any.\<close>

definition random_session_id :: "octets option \<Rightarrow> string option" where
  "random_session_id random = map_option (\<lambda>data. ''srt_'' @ encode64 data) random"

definition accept_one :: "gotime \<Rightarrow> octets option \<Rightarrow> accepted \<Rightarrow> worker \<Rightarrow> worker" where
  "accept_one now random a w =
     (let key = attempt_key (ac_ip a) (ac_port a) (ac_stream a) in
      case get (w_pending w) key of
        None \<Rightarrow> emit_rejected now (caller [] (ac_port a) (ac_ip a) (ac_stream a))
          ''SRT accept had no authorized pending handshake'' (native_close (ac_socket a) w)
      | Some p \<Rightarrow> (case random_session_id random of
          None \<Rightarrow> native_close (ac_socket a) (release key p w)
        | Some i \<Rightarrow> add_session now False (ac_socket a)
            (new_session now i (r_id (wcfg_relay (w_config w))) (pa_client p) a) (release key p w)))"

definition fail_run :: "string \<Rightarrow> worker \<Rightarrow> worker" where
  "fail_run reason w = w\<lparr>w_errors := w_errors w @ [reason]\<rparr>"

fun accept_loop :: "(gotime \<times> octets option \<times> (string + accepted)) list \<Rightarrow> worker \<Rightarrow> worker" where
  "accept_loop [] w = w"
| "accept_loop ((now, random, Inl e) # rest) w = (if w_stopping w then w else fail_run (''SRT accept: '' @ e) w)"
| "accept_loop ((now, random, Inr a) # rest) w = accept_loop rest (accept_one now random a w)"

text \<open>
  Closing a session, which happens once: a closed session is not in the map any more. The
  error channel of \<open>Run\<close> has room for three errors, and a fourth is dropped here.
\<close>

definition close_session :: "gotime \<Rightarrow> string \<Rightarrow> string \<Rightarrow> worker \<Rightarrow> worker" where
  "close_session now i reason w = (case get (w_sessions w) i of
     None \<Rightarrow> w
   | Some s \<Rightarrow>
       let x = (cs_data s)\<lparr>s_disconnected_at := Some now, s_disconnect_reason := reason\<rparr>;
           w' = snd (emit (session_event ''session_disconnected'' now reason x)
             ((native_close (cs_socket s) w)\<lparr>w_sessions := del i (w_sessions w)\<rparr>))
       in if cs_fatal s \<and> \<not> w_stopping w' \<and> length (w_errors w') < 3 then fail_run reason w' else w')"

definition close_all_sessions :: "gotime \<Rightarrow> string \<Rightarrow> worker \<Rightarrow> worker" where
  "close_all_sessions now reason w = fold (\<lambda>i. close_session now i reason) (keys (w_sessions w)) w"

text \<open>One packet to every session: queued, or counted as dropped when the queue is full.\<close>

definition enqueue :: "octets \<Rightarrow> client_session \<Rightarrow> client_session" where
  "enqueue packet s = (if length (cs_queue s) < session_queue_size
     then s\<lparr>cs_queue := cs_queue s @ [packet], cs_drop_burst := 0\<rparr>
     else s\<lparr>cs_app_drops := cs_app_drops s + 1, cs_drop_burst := cs_drop_burst s + 1\<rparr>)"

definition overrun :: "client_session \<Rightarrow> bool" where
  "overrun s \<longleftrightarrow> \<not> length (cs_queue s) < session_queue_size \<and> cs_drop_burst s + 1 = max_queue_drop_burst"

definition broadcast :: "octets \<Rightarrow> worker \<Rightarrow> worker" where
  "broadcast packet w = w\<lparr>w_sessions := map (\<lambda>(i, s). (i, enqueue packet s)) (w_sessions w),
     w_closing := w_closing w @ map (\<lambda>(i, _). (i, ''client send queue remained full''))
       (filter (\<lambda>(_, s). overrun s) (w_sessions w))\<rparr>"

text \<open>One turn of \<open>sendLoop\<close>: \<open>outcome\<close> is what the send of the first queued packet answers.\<close>

definition send_one :: "gotime \<Rightarrow> string \<Rightarrow> string option \<Rightarrow> worker \<Rightarrow> worker" where
  "send_one now i outcome w = (case get (w_sessions w) i of
     None \<Rightarrow> w
   | Some s \<Rightarrow> (case cs_queue s of
       [] \<Rightarrow> w
     | packet # rest \<Rightarrow>
         let w' = w\<lparr>w_sessions := put i (s\<lparr>cs_queue := rest\<rparr>) (w_sessions w)\<rparr>
         in case outcome of None \<Rightarrow> w' | Some e \<Rightarrow> close_session now i (''SRT send failed: '' @ e) w'))"

subsection \<open>Input\<close>

text \<open>
  Cutting the input into packets of the payload size. With a size of 0 the loop of the
  source does not end, which is the value \<open>None\<close> here.
\<close>

partial_function (option) drain :: "nat \<Rightarrow> octets \<Rightarrow> worker \<Rightarrow> (octets \<times> worker) option" where
  "drain chunk pending w =
     (if length pending \<ge> chunk then drain chunk (drop chunk pending) (broadcast (take chunk pending) w)
      else Some (pending, w))"

definition count_input :: "gotime \<Rightarrow> octets \<Rightarrow> tracker \<Rightarrow> worker \<Rightarrow> worker \<times> tracker" where
  "count_input now data t w = (case observe t data of (errors, t') \<Rightarrow>
     (w\<lparr>w_input_bytes := w_input_bytes w + int (length data),
        w_input_packets := w_input_packets w + int (length data div 188),
        w_last_input := now, w_continuity := w_continuity w + int errors\<rparr>, t'))"

text \<open>The input loop over what the reads answer; its result is the bytes held back.\<close>

fun input_loop ::
  "nat \<Rightarrow> (gotime \<times> (string + octets)) list \<Rightarrow> octets \<Rightarrow> tracker \<Rightarrow> worker \<Rightarrow> (octets \<times> worker) option" where
  "input_loop chunk [] pending t w = Some (pending, w)"
| "input_loop chunk ((now, Inl e) # rest) pending t w =
     Some (pending, if w_stopping w then w else fail_run (''multicast read: '' @ e) w)"
| "input_loop chunk ((now, Inr data) # rest) pending t w = (case count_input now data t w of (w', t') \<Rightarrow>
     (case drain chunk (pending @ data) w' of
       None \<Rightarrow> None
     | Some (pending', w'') \<Rightarrow> input_loop chunk rest pending' t' w''))"

definition input_stall_reason :: "gotime \<Rightarrow> gotime \<Rightarrow> int \<Rightarrow> string" where
  "input_stall_reason now latest timeout =
     (if timeout \<le> 0 \<or> time_sub now latest < timeout then []
      else ''multicast input has no packets for '' @ itoa (timeout div 1000000000) @ '' seconds'')"

subsection \<open>Metrics\<close>

definition measure_session :: "gotime \<Rightarrow> (int \<Rightarrow> session_stats option) \<Rightarrow> string \<Rightarrow> int \<times> worker \<Rightarrow> int \<times> worker" where
  "measure_session now native i acc = (case acc of (bitrate, w) \<Rightarrow> (case get (w_sessions w) i of
     None \<Rightarrow> (bitrate, w)
   | Some s \<Rightarrow> (case native (cs_socket s) of
       None \<Rightarrow> (bitrate, w)
     | Some st \<Rightarrow>
         let stats = st\<lparr>ss_packets_dropped := ss_packets_dropped st + cs_app_drops s,
               ss_latency_ms := r_latency_ms (wcfg_relay (w_config w))\<rparr>;
             s' = s\<lparr>cs_data := (cs_data s)\<lparr>s_stats := stats\<rparr>\<rparr>
         in (bitrate + ss_bitrate st, snd (emit (session_event ''session_stats'' now [] (cs_data s'))
               (w\<lparr>w_sessions := put i s' (w_sessions w)\<rparr>))))))"

definition relay_metrics :: "gotime \<Rightarrow> int \<Rightarrow> int \<Rightarrow> nat \<Rightarrow> worker \<Rightarrow> worker_event" where
  "relay_metrics now input output clients w = zero_worker_event\<lparr>we_type := ''relay_metrics'', we_time := now,
     we_reason := input_stall_reason now (w_last_input w) (seconds (r_input_timeout_seconds (wcfg_relay (w_config w)))),
     we_active_clients := int clients, we_input_bitrate := input, we_output_bitrate := output,
     we_input_packets := w_input_packets w, we_continuity_errors := w_continuity w\<rparr>"

text \<open>One tick: \<open>previous\<close> is the byte count of the tick before, the result the one for the next.\<close>

definition metrics_tick :: "gotime \<Rightarrow> (int \<Rightarrow> session_stats option) \<Rightarrow> int \<Rightarrow> worker \<Rightarrow> int \<times> worker" where
  "metrics_tick now native previous w =
     (let input = (w_input_bytes w - previous) * 8;
          ids = keys (w_sessions w);
          (output, w') = fold (measure_session now native) ids (0, w)
      in (w_input_bytes w, snd (emit (relay_metrics now input output (length ids) w') w')))"

subsection \<open>The multicast input\<close>

text \<open>What the operating system answers about network interfaces and the socket.\<close>

record net_env =
  ne_by_name :: "string \<Rightarrow> bool"
  ne_interfaces :: "(string \<times> string list option) list option"
  ne_listen :: "string option \<Rightarrow> octets option \<Rightarrow> int \<Rightarrow> bool"
  ne_read_buffer :: bool

datatype multicast_error =
  InputUrlInvalid | MulticastPortInvalid | InterfaceUnknown | LocalAddressInvalid | InterfacesUnreadable
  | NoSuchAddress | ListenFailed | ReadBufferFailed

definition has_address :: "octets \<Rightarrow> string \<Rightarrow> bool" where
  "has_address ip address \<longleftrightarrow> parse_ip (hd (split_on (CHR ''/'') address)) = Some ip"

definition interface_by_ip :: "net_env \<Rightarrow> octets option \<Rightarrow> (multicast_error, string) result" where
  "interface_by_ip env addr = (case addr of
     None \<Rightarrow> Inl LocalAddressInvalid
   | Some ip \<Rightarrow> (case ne_interfaces env of
       None \<Rightarrow> Inl InterfacesUnreadable
     | Some interfaces \<Rightarrow> (case find (\<lambda>(_, addresses). case addresses of None \<Rightarrow> False
           | Some as \<Rightarrow> list_ex (has_address ip) as) interfaces of
         None \<Rightarrow> Inl NoSuchAddress
       | Some (name, _) \<Rightarrow> Inr name)))"

definition select_interface :: "net_env \<Rightarrow> relay \<Rightarrow> url \<Rightarrow> (multicast_error, string option) result" where
  "select_interface env r u =
     (if r_network_interface r \<noteq> [] then
        if ne_by_name env (r_network_interface r) then Inr (Some (r_network_interface r)) else Inl InterfaceUnknown
      else let address = query_get (parse_query (u_raw_query u)) ''localaddr'' in
        if address = [] then Inr None
        else and_then (interface_by_ip env (parse_ip address)) (\<lambda>name. Inr (Some name)))"

definition open_multicast :: "net_env \<Rightarrow> relay \<Rightarrow> (multicast_error, string option \<times> octets option \<times> int) result" where
  "open_multicast env r = (case parse_url (r_input_url r) of
     None \<Rightarrow> Inl InputUrlInvalid
   | Some u \<Rightarrow> (case parse_int64 (url_port u) of
       None \<Rightarrow> Inl MulticastPortInvalid
     | Some port \<Rightarrow> and_then (select_interface env r u) (\<lambda>interface.
         let ip = parse_ip (url_hostname u) in
         if \<not> ne_listen env interface ip port then Inl ListenFailed
         else if \<not> ne_read_buffer env then Inl ReadBufferFailed
         else Inr (interface, ip, port))))"

subsection \<open>Run\<close>

datatype endpoint =
    Caller string int int int string string
  | Listener string int int int int bool

definition endpoint_of :: "worker_config \<Rightarrow> endpoint" where
  "endpoint_of config = (let r = wcfg_relay config in
     if r_direction r = direction_publish then
       Caller (r_destination_address r) (r_destination_port r) (r_latency_ms r) (r_payload_size r)
         (r_stream_id r) (wcfg_publish_passphrase config)
     else Listener (r_bind_address r) (r_port r) (r_latency_ms r) (r_payload_size r)
         (listener_minimum_version r) (listener_enforces_encryption (wcfg_clients config)))"

datatype run_error =
    ConfigRejected worker_error | StartupFailed string | InputFailed multicast_error | EndpointFailed string

record run_env =
  re_startup :: "string option"
  re_net :: net_env
  re_open :: "endpoint \<Rightarrow> string + int"

text \<open>Nanoseconds since 1970, which is 62135596800 seconds after the zero time.\<close>

definition unix_nano :: "gotime \<Rightarrow> int" where
  "unix_nano t = nanos t - seconds 62135596800"

definition publish_session :: "gotime \<Rightarrow> relay \<Rightarrow> session" where
  "publish_session now r = zero_session\<lparr>s_id := ''publish-'' @ itoa (unix_nano now), s_relay_id := r_id r,
     s_client_id := r_stream_id r, s_remote_ip := r_destination_address r, s_remote_port := r_destination_port r,
     s_stream_id := r_stream_id r, s_encrypted := (r_encryption_mode r = encryption_aes256), s_connected_at := now\<rparr>"

text \<open>\<open>Run\<close> up to its loops: the worker and its endpoint's socket.\<close>

definition run_begin :: "gotime \<Rightarrow> run_env \<Rightarrow> worker_config \<Rightarrow> (run_error, worker \<times> int) result" where
  "run_begin now env config = (case new_worker now config of
     Inl e \<Rightarrow> Inl (ConfigRejected e)
   | Inr w \<Rightarrow> (case re_startup env of
       Some e \<Rightarrow> Inl (StartupFailed e)
     | None \<Rightarrow> (case open_multicast (re_net env) (wcfg_relay config) of
         Inl e \<Rightarrow> Inl (InputFailed e)
       | Inr _ \<Rightarrow> (case re_open env (endpoint_of config) of
           Inl e \<Rightarrow> Inl (EndpointFailed e)
         | Inr socket \<Rightarrow>
             let w = (if r_direction (wcfg_relay config) = direction_publish
               then add_session now True socket (publish_session now (wcfg_relay config)) w else w)
             in Inr (snd (emit (zero_worker_event\<lparr>we_type := ''relay_ready'', we_time := now\<rparr>) w), socket)))))"

datatype run_stop = Cancelled | OutputFailed string | LoopFailed string

text \<open>\<open>Run\<close> after its loops: everything is closed, and the first error is the result.\<close>

definition run_end ::
  "gotime \<Rightarrow> run_stop \<Rightarrow> string option \<Rightarrow> int \<Rightarrow> worker \<Rightarrow> string option \<times> worker" where
  "run_end now stop late socket w =
     (let result = (case stop of Cancelled \<Rightarrow> None | OutputFailed e \<Rightarrow> Some (''event output: '' @ e) | LoopFailed e \<Rightarrow> Some e);
          w1 = close_all_sessions now ''relay stopped'' (native_close socket (w\<lparr>w_stopping := True\<rparr>));
          w2 = w1\<lparr>w_pending := [], w_reservations := []\<rparr>
      in (case late of Some e \<Rightarrow> (if result = None then Some (''event output: '' @ e) else result) | None \<Rightarrow> result, w2))"

subsection \<open>The rate limit of connection attempts\<close>

definition window_tracker :: "(string, attempt_window) gomap \<Rightarrow> string \<Rightarrow> restart_tracker" where
  "window_tracker attempts ip = (case get attempts ip of
     None \<Rightarrow> zero_tracker | Some window \<Rightarrow> \<lparr>rt_first = aw_started window, rt_attempts = aw_count window\<rparr>)"

end
