(* ===== verification/NativeSrt.thy ===== *)
theory NativeSrt
  imports SrtWorker
begin

text \<open>
  The binding of the worker to libsrt: the functions of \<open>native_srt.go\<close> and those of \<open>bridge.c\<close>
  that they call. The record \<open>libsrt\<close> holds what libsrt and the resolver of the system answer;
  an error is its text. Functions that make sockets also return the ones they closed again.
  A C string ends at its first zero byte, and a buffer of \<open>n\<close> bytes holds \<open>n - 1\<close> of them.
\<close>

subsection \<open>C values\<close>

definition c_int :: "int \<Rightarrow> int" where
  "c_int n = (n + 2 ^ 31) mod 2 ^ 32 - 2 ^ 31"

definition error_buffer_size :: nat where "error_buffer_size = 512"

definition copy_error :: "nat \<Rightarrow> string \<Rightarrow> string" where
  "copy_error buffer_size message = take (buffer_size - 1) (c_string message) @ [CHR 0x00]"

subsection \<open>libsrt\<close>

datatype sockopt =
    SrtoSender int | SrtoLive | SrtoPeerLatency int | SrtoPayloadSize int | SrtoMinVersion int
  | SrtoEnforcedEncryption int | SrtoStreamId string | SrtoPbKeyLen int | SrtoPassphrase string

record libsrt =
  ls_startup :: "string option"
  ls_create :: "(string, int) result"
  ls_set :: "int \<Rightarrow> sockopt \<Rightarrow> string option"
  ls_resolve :: "bool \<Rightarrow> string \<Rightarrow> string \<Rightarrow> (string, string) result"
  ls_bind :: "int \<Rightarrow> string \<Rightarrow> string option"
  ls_listen :: "int \<Rightarrow> string option"
  ls_connect :: "int \<Rightarrow> string \<Rightarrow> string option"
  ls_accept :: "int \<Rightarrow> (string, int \<times> string) result"
  ls_name :: "string \<Rightarrow> (string \<times> int) option"
  ls_stream_id :: "int \<Rightarrow> string option"
  ls_version :: "int \<Rightarrow> int option"
  ls_secured :: "int \<Rightarrow> bool option"
  ls_send :: "int \<Rightarrow> octets \<Rightarrow> (string, int) result"
  ls_stats :: "int \<Rightarrow> (string, session_stats) result"

text \<open>Options are set in their order; the first that is refused ends it.\<close>

fun set_options :: "libsrt \<Rightarrow> int \<Rightarrow> sockopt list \<Rightarrow> string option" where
  "set_options lib socket [] = None"
| "set_options lib socket (opt # opts) = (case ls_set lib socket opt of
     Some e \<Rightarrow> Some e
   | None \<Rightarrow> set_options lib socket opts)"

type_synonym opened = "(int \<times> string) \<times> int list"

definition open_failed :: "int list \<Rightarrow> string \<Rightarrow> opened" where
  "open_failed sockets e = ((-1, copy_error error_buffer_size e), sockets)"

definition neo_srt_listener_open :: "libsrt \<Rightarrow> string \<Rightarrow> int \<Rightarrow> int \<Rightarrow> int \<Rightarrow> int \<Rightarrow> int \<Rightarrow> opened" where
  "neo_srt_listener_open lib bind_address port latency payload minimum enforce = (case ls_create lib of
     Inl e \<Rightarrow> open_failed [] e
   | Inr socket \<Rightarrow> (case set_options lib socket [SrtoSender 1, SrtoLive, SrtoPeerLatency latency, SrtoPayloadSize payload,
         SrtoMinVersion minimum, SrtoEnforcedEncryption enforce] of
       Some e \<Rightarrow> open_failed [socket] e
     | None \<Rightarrow> (case ls_resolve lib True bind_address (itoa port) of
         Inl e \<Rightarrow> open_failed [socket] e
       | Inr address \<Rightarrow> (case ls_bind lib socket address of
           Some e \<Rightarrow> open_failed [socket] e
         | None \<Rightarrow> (case ls_listen lib socket of
             Some e \<Rightarrow> open_failed [socket] e
           | None \<Rightarrow> ((socket, []), []))))))"

definition neo_srt_caller_open :: "libsrt \<Rightarrow> string \<Rightarrow> int \<Rightarrow> int \<Rightarrow> int \<Rightarrow> string \<Rightarrow> string \<Rightarrow> opened" where
  "neo_srt_caller_open lib destination port latency payload stream passphrase = (case ls_create lib of
     Inl e \<Rightarrow> open_failed [] e
   | Inr socket \<Rightarrow> (case set_options lib socket ([SrtoSender 1, SrtoLive, SrtoPeerLatency latency, SrtoPayloadSize payload,
         SrtoMinVersion 0x010300, SrtoStreamId stream] @ (if passphrase \<noteq> [] then [SrtoPbKeyLen 32, SrtoPassphrase passphrase] else [])) of
       Some e \<Rightarrow> open_failed [socket] e
     | None \<Rightarrow> (case ls_resolve lib False destination (itoa port) of
         Inl e \<Rightarrow> open_failed [socket] e
       | Inr address \<Rightarrow> (case ls_connect lib socket address of
           Some e \<Rightarrow> open_failed [socket] e
         | None \<Rightarrow> ((socket, []), [])))))"

subsection \<open>The Go side\<close>

definition native_startup :: "libsrt \<Rightarrow> string option" where
  "native_startup lib = map_option (\<lambda>e. native_error (copy_error error_buffer_size e)) (ls_startup lib)"

definition socket_or_error :: "opened \<Rightarrow> (string, int) result \<times> int list" where
  "socket_or_error r = (case r of ((socket, buffer), closed) \<Rightarrow>
     (if socket < 0 then Inl (native_error buffer) else Inr socket, closed))"

definition native_open_listener :: "libsrt \<Rightarrow> string \<Rightarrow> int \<Rightarrow> int \<Rightarrow> int \<Rightarrow> int \<Rightarrow> bool \<Rightarrow> (string, int) result \<times> int list" where
  "native_open_listener lib bind_address port latency payload minimum enforce =
     socket_or_error (neo_srt_listener_open lib (c_string bind_address) (c_int port) (c_int latency) (c_int payload)
       (c_int minimum) (if enforce then 1 else 0))"

definition native_open_caller :: "libsrt \<Rightarrow> string \<Rightarrow> int \<Rightarrow> int \<Rightarrow> int \<Rightarrow> string \<Rightarrow> string \<Rightarrow> (string, int) result \<times> int list" where
  "native_open_caller lib destination port latency payload stream passphrase =
     socket_or_error (neo_srt_caller_open lib (c_string destination) (c_int port) (c_int latency) (c_int payload)
       (c_string stream) (c_string passphrase))"

fun native_open :: "libsrt \<Rightarrow> endpoint \<Rightarrow> (string, int) result \<times> int list" where
  "native_open lib (Caller destination port latency payload stream passphrase) =
     native_open_caller lib destination port latency payload stream passphrase"
| "native_open lib (Listener bind_address port latency payload minimum enforce) =
     native_open_listener lib bind_address port latency payload minimum enforce"

text \<open>The version is printed from its three low bytes.\<close>

definition peer_version :: "int \<Rightarrow> string" where
  "peer_version v = itoa (v div 65536 mod 256) @ ''.'' @ itoa (v div 256 mod 256) @ ''.'' @ itoa (v mod 256)"

definition native_accept :: "libsrt \<Rightarrow> int \<Rightarrow> (string, accepted) result \<times> int list" where
  "native_accept lib listener = (case ls_accept lib listener of
     Inl e \<Rightarrow> (Inl (native_error (copy_error error_buffer_size e)), [])
   | Inr (socket, peer) \<Rightarrow> (case ls_name lib peer of
       None \<Rightarrow> (Inl (native_error (copy_error error_buffer_size ''cannot resolve accepted SRT peer address'')), [socket])
     | Some (host, port) \<Rightarrow>
         (Inr \<lparr>ac_socket = socket, ac_ip = c_string host, ac_port = port,
            ac_stream = c_string (case ls_stream_id lib socket of None \<Rightarrow> [] | Some s \<Rightarrow> take 512 s),
            ac_version = peer_version (case ls_version lib socket of None \<Rightarrow> 0 | Some v \<Rightarrow> v),
            ac_encrypted = (ls_secured lib socket = Some True)\<rparr>, [])))"

definition native_send :: "libsrt \<Rightarrow> int \<Rightarrow> octets \<Rightarrow> string \<Rightarrow> string option" where
  "native_send lib socket data last_error = (if data = [] then None
     else (case ls_send lib socket data of
       Inl e \<Rightarrow> Some (native_error (copy_error error_buffer_size e))
     | Inr sent \<Rightarrow> if sent \<noteq> int (length data) then Some (native_error (copy_error error_buffer_size last_error)) else None))"

definition native_stats :: "libsrt \<Rightarrow> int \<Rightarrow> (string, session_stats) result" where
  "native_stats lib socket = (case ls_stats lib socket of
     Inl e \<Rightarrow> Inl (native_error (copy_error error_buffer_size e))
   | Inr st \<Rightarrow> Inr st)"

subsection \<open>The callback\<close>

text \<open>
  libsrt calls it during a handshake. A caller is rejected with a code, or the handshake goes
  on with the options that were set on its socket.
\<close>

datatype callback_result = CallerRejected int | HandshakeContinues "sockopt list"

definition encryption_options :: "string \<Rightarrow> sockopt list" where
  "encryption_options passphrase = (if passphrase = [] then []
     else [SrtoSender 1, SrtoEnforcedEncryption 1, SrtoPbKeyLen 32, SrtoPassphrase passphrase])"

definition listener_callback :: "libsrt \<Rightarrow> gotime \<Rightarrow> int \<Rightarrow> string \<Rightarrow> string option \<Rightarrow> worker option
    \<Rightarrow> callback_result \<times> worker option" where
  "listener_callback lib now socket peer stream registered = (case ls_name lib peer of
     None \<Rightarrow> (CallerRejected 400, registered)
   | Some (host, port) \<Rightarrow>
       (case go_srt_authorize now (c_string host) port (c_string (case stream of None \<Rightarrow> [] | Some s \<Rightarrow> s)) 80 registered of
         ((decision, buffer), registered') \<Rightarrow>
           if decision \<noteq> 0 then (CallerRejected decision, registered')
           else let opts = encryption_options (c_string (case buffer of None \<Rightarrow> [] | Some b \<Rightarrow> b))
             in (case set_options lib socket opts of
               Some _ \<Rightarrow> (CallerRejected 500, registered')
             | None \<Rightarrow> (HandshakeContinues opts, registered'))))"

end
