(* ===== verification/GoNetLaws.thy ===== *)
theory GoNetLaws
  imports GoNet
begin

unbundle bit_operations_syntax

text \<open>
  The laws of the address and network syntax that the stores rely on: what is printed
  parses back to the same bytes, and printing a network is a normal form.
\<close>

subsection \<open>Numbers\<close>

lemma show_nat_hd: "0 < n \<Longrightarrow> hd (show_nat n) \<noteq> CHR ''0''"
proof (induction n rule: show_nat.induct)
  case (1 n)
  have "digit_char n \<noteq> CHR ''0''" if "n < 10"
  proof
    assume "digit_char n = CHR ''0''"
    then have "(of_char (digit_char n) :: nat) = 48" by simp
    with that "1.prems" show False by (simp add: digit_char_value)
  qed
  with 1 show_nat_digits [of "n div 10"] show ?case
    by (cases "n < 10") (auto simp: show_nat.simps [of n] hd_append)
qed

lemma unat_byte: "unat (b :: 8 word) < 256"
  using unsigned_less [where ?'a = nat, of b] by simp

lemma parse_octet_show: "parse_octet (show_nat (unat (b :: 8 word))) = Some b"
proof -
  have "unat b \<le> 255" using unat_byte [of b] by simp
  moreover have "length (show_nat (unat b)) = 1 \<or> hd (show_nat (unat b)) \<noteq> CHR ''0''"
    by (cases "unat b = 0") (auto simp: show_nat_hd show_nat.simps [of 0])
  ultimately show ?thesis
    using show_nat_digits [of "unat b"] by (simp add: parse_octet_def show_nat_value)
qed

lemma digit_not: "is_digit c \<Longrightarrow> c \<noteq> CHR ''.'' \<and> c \<noteq> CHR '':'' \<and> c \<noteq> CHR ''%'' \<and> c \<noteq> CHR ''/''"
  by (auto simp: is_digit_def)

lemma show_nat_not:
  "CHR ''.'' \<notin> set (show_nat n)" "CHR '':'' \<notin> set (show_nat n)"
  "CHR ''%'' \<notin> set (show_nat n)" "CHR ''/'' \<notin> set (show_nat n)"
  using show_nat_digits [of n] by (auto simp: list_all_iff dest: digit_not)

lemma parse_ipv4_string: "length q = 4 \<Longrightarrow> parse_ipv4 (v4_string q) = Some q"
proof -
  assume "length q = 4"
  then obtain a b c d where q: "q = [a, b, c, d]"
    by (auto simp: numeral_eq_Suc length_Suc_conv)
  have "split_on (CHR ''.'') (v4_string q) = map (\<lambda>b. show_nat (unat b)) q"
    unfolding v4_string_def by (rule split_join) (auto simp: q show_nat_not)
  then show ?thesis by (simp add: parse_ipv4_def parse_octet_show q)
qed

subsection \<open>Hexadecimal groups\<close>

lemma hex_lower: "n < 16 \<Longrightarrow> hex_value (lower_char (hex_char n)) = Some n"
  by (auto simp: hex_value_def hex_char_def lower_char_def Let_def)

lemma show_hex_chars: "list_all is_hex (show_hex n) \<and> show_hex n \<noteq> []"
proof (induction n rule: show_hex.induct)
  case (1 n)
  then show ?case
    by (cases "n < 16") (auto simp: show_hex.simps [of n] is_hex_def hex_lower)
qed

lemma show_hex_number: "hex_number (show_hex n) = n"
proof (induction n rule: show_hex.induct)
  case (1 n)
  then show ?case
    by (cases "n < 16") (auto simp: show_hex.simps [of n] hex_number_def hex_lower)
qed

lemma show_hex_length: "n < 16 ^ Suc k \<Longrightarrow> length (show_hex n) \<le> Suc k"
proof (induction k arbitrary: n)
  case 0
  then show ?case by (simp add: show_hex.simps [of n])
next
  case (Suc k)
  then have "n div 16 < 16 ^ Suc k" by (simp add: less_mult_imp_div_less)
  then show ?case using Suc.IH [of "n div 16"] by (simp add: show_hex.simps [of n])
qed

lemma hex_not: "is_hex c \<Longrightarrow> c \<noteq> CHR ''.'' \<and> c \<noteq> CHR '':'' \<and> c \<noteq> CHR ''%'' \<and> c \<noteq> CHR ''/''"
  by (auto simp: is_hex_def hex_value_def)

lemma show_hex_set: "c \<in> set (show_hex n) \<Longrightarrow> is_hex c"
  using show_hex_chars [of n] by (auto simp: list_all_iff)

lemma takeWhile_hex: "\<not> is_hex c \<Longrightarrow> takeWhile is_hex (show_hex n @ c # r) = show_hex n"
  and dropWhile_hex: "\<not> is_hex c \<Longrightarrow> dropWhile is_hex (show_hex n @ c # r) = c # r"
  by (auto simp: takeWhile_append dropWhile_append show_hex_set)

lemma takeWhile_hex_end: "takeWhile is_hex (show_hex n) = show_hex n"
  and dropWhile_hex_end: "dropWhile is_hex (show_hex n) = []"
  by (auto simp: takeWhile_eq_all_conv dropWhile_eq_Nil_conv show_hex_set)

definition bytes_of :: "nat list \<Rightarrow> octets" where
  "bytes_of gs = concat (map group_bytes gs)"

lemma length_bytes_of [simp]: "length (bytes_of gs) = 2 * length gs"
  by (induction gs) (auto simp: bytes_of_def group_bytes_def)

lemma bytes_of_append [simp]: "bytes_of (gs @ hs) = bytes_of gs @ bytes_of hs"
  by (simp add: bytes_of_def)

lemma bytes_of_zeros: "bytes_of (replicate n 0) = replicate (2 * n) 0"
  by (induction n) (auto simp: bytes_of_def group_bytes_def)

lemma bytes_of_groups: "even (length ip) \<Longrightarrow> bytes_of (groups ip) = ip"
proof (induction ip rule: groups.induct)
  case (1 a b rest)
  then show ?case by (simp add: bytes_of_def group_bytes_def unat_byte)
qed (auto simp: bytes_of_def)

lemma groups_bound: "g \<in> set (groups ip) \<Longrightarrow> g < 65536"
proof (induction ip rule: groups.induct)
  case (1 a b rest)
  then show ?case using unat_byte [of a] unat_byte [of b] by auto
qed auto

lemma length_groups: "length (groups ip) = length ip div 2"
  by (induction ip rule: groups.induct) auto

subsection \<open>IPv6\<close>

definition valid_groups :: "nat list \<Rightarrow> bool" where
  "valid_groups gs \<longleftrightarrow> (\<forall>g \<in> set gs. g < 65536)"

abbreviation colons :: "nat list \<Rightarrow> string" where
  "colons gs \<equiv> join_with '':'' (map show_hex gs)"

lemma colons_Cons: "gs \<noteq> [] \<Longrightarrow> colons (g # gs) = show_hex g @ CHR '':'' # colons gs"
  by (cases gs) auto

lemma colons_not_Nil: "gs \<noteq> [] \<Longrightarrow> colons gs \<noteq> [] \<and> is_hex (hd (colons gs))"
  using show_hex_chars [of "hd gs"] by (cases gs; cases "tl gs") (auto simp: hd_append list_all_iff)

lemma colon_not_hex [simp]: "\<not> is_hex CHR '':''"
  by (simp add: is_hex_def hex_value_def)

lemmas v6_step_facts = Let_def show_hex_set show_hex_number bytes_of_def group_bytes_def
  takeWhile_hex_end dropWhile_hex_end

lemma v6_loop_last:
  "g < 65536 \<Longrightarrow> v6_loop (Suc k) acc ell (show_hex g) = Some (acc @ bytes_of [g], ell, [])"
  using show_hex_chars [of g] show_hex_length [of g 3]
  by (simp add: v6_step_facts)

lemma v6_loop_colon:
  assumes "g < 65536" "r \<noteq> []" "hd r \<noteq> CHR '':''"
  shows "v6_loop (Suc k) acc ell (show_hex g @ CHR '':'' # r) = v6_loop k (acc @ bytes_of [g]) ell r"
  using assms show_hex_chars [of g] show_hex_length [of g 3]
  by (simp add: v6_step_facts)

lemma v6_loop_ellipsis:
  assumes "g < 65536"
  shows "v6_loop (Suc k) acc None (show_hex g @ '':'' @ CHR '':'' # r) =
    (if r = [] then Some (acc @ bytes_of [g], Some (length acc + 2), [])
     else v6_loop k (acc @ bytes_of [g]) (Some (length acc + 2)) r)"
  using assms show_hex_chars [of g] show_hex_length [of g 3]
  by (simp add: v6_step_facts)

lemma v6_loop_colons:
  "gs \<noteq> [] \<Longrightarrow> length gs \<le> k \<Longrightarrow> valid_groups gs \<Longrightarrow>
    v6_loop k acc ell (colons gs) = Some (acc @ bytes_of gs, ell, [])"
proof (induction gs arbitrary: k acc)
  case (Cons g gs)
  then obtain k' where k: "k = Suc k'" by (cases k) auto
  show ?case
  proof (cases "gs = []")
    case True
    with Cons.prems k show ?thesis using v6_loop_last [of g k'] by (simp add: valid_groups_def)
  next
    case False
    then have "v6_loop k acc ell (colons (g # gs)) = v6_loop k' (acc @ bytes_of [g]) ell (colons gs)"
      using Cons.prems colons_not_Nil [OF False] hex_not [of "hd (colons gs)"]
      unfolding k colons_Cons [OF False] by (intro v6_loop_colon) (auto simp: valid_groups_def)
    also have "\<dots> = Some (acc @ bytes_of (g # gs), ell, [])"
      using Cons k False bytes_of_append [of "[g]" gs]
      by (subst Cons.IH) (auto simp: valid_groups_def)
    finally show ?thesis .
  qed
qed simp

lemma v6_loop_compressed:
  "gs \<noteq> [] \<Longrightarrow> length gs + length hs \<le> k \<Longrightarrow> valid_groups (gs @ hs) \<Longrightarrow>
    v6_loop k acc None (colons gs @ ''::'' @ colons hs) =
      Some (acc @ bytes_of gs @ bytes_of hs, Some (length acc + 2 * length gs), [])"
proof (induction gs arbitrary: k acc)
  case (Cons g gs)
  then obtain k' where k: "k = Suc k'" by (cases k) auto
  have g: "g < 65536" using Cons.prems by (simp add: valid_groups_def)
  show ?case
  proof (cases "gs = []")
    case gs: True
    show ?thesis
    proof (cases "hs = []")
      case True
      with gs k g show ?thesis using v6_loop_ellipsis [of g k' acc "[]"] by (simp add: bytes_of_def)
    next
      case False
      with gs Cons.prems k
      have "v6_loop k' (acc @ bytes_of [g]) (Some (length acc + 2)) (colons hs)
          = Some (acc @ bytes_of [g] @ bytes_of hs, Some (length acc + 2), [])"
        by (subst v6_loop_colons) (auto simp: valid_groups_def)
      with gs k g False colons_not_Nil [OF False] show ?thesis
        using v6_loop_ellipsis [of g k' acc "colons hs"] by simp
    qed
  next
    case False
    then have "v6_loop k acc None (colons (g # gs) @ ''::'' @ colons hs)
        = v6_loop k' (acc @ bytes_of [g]) None (colons gs @ ''::'' @ colons hs)"
      using colons_not_Nil [OF False] hex_not [of "hd (colons gs)"] g
      unfolding k colons_Cons [OF False] append_assoc append_Cons
      by (intro v6_loop_colon) (auto simp: hd_append)
    also have "\<dots> = Some (acc @ bytes_of (g # gs) @ bytes_of hs, Some (length acc + 2 * length (g # gs)), [])"
      using Cons k False bytes_of_append [of "[g]" gs]
      by (subst Cons.IH) (auto simp: valid_groups_def)
    finally show ?thesis .
  qed
qed simp

lemma foldl_invariant:
  "P a \<Longrightarrow> (\<And>a x. x \<in> set xs \<Longrightarrow> P a \<Longrightarrow> P (f a x)) \<Longrightarrow> P (foldl f a xs)"
  by (induction xs arbitrary: a) auto

definition run_ok :: "nat list \<Rightarrow> nat \<times> nat \<Rightarrow> bool" where
  "run_ok gs r \<longleftrightarrow> (case r of (st, l) \<Rightarrow>
     l = 0 \<or> 2 \<le> l \<and> st + l \<le> length gs \<and> take l (drop st gs) = replicate l 0)"

lemma zero_run_ok: "i \<le> length gs \<Longrightarrow> 2 \<le> zero_run gs i \<Longrightarrow> run_ok gs (i, zero_run gs i)"
proof -
  assume i: "i \<le> length gs" and r: "2 \<le> zero_run gs i"
  have "zero_run gs i \<le> length (drop i gs)"
    unfolding zero_run_def by (rule length_takeWhile_le)
  moreover have "take (zero_run gs i) (drop i gs) = takeWhile (\<lambda>g. g = 0) (drop i gs)"
    unfolding zero_run_def by (rule takeWhile_eq_take [symmetric])
  moreover have "takeWhile (\<lambda>g. g = 0) (drop i gs) = replicate (zero_run gs i) 0"
    unfolding zero_run_def by (rule replicate_eqI) (auto dest: set_takeWhileD)
  ultimately show ?thesis using i r by (simp add: run_ok_def)
qed

lemma longest_zero_run_ok: "run_ok gs (longest_zero_run gs)"
  unfolding longest_zero_run_def
  by (rule foldl_invariant) (auto simp: zero_run_ok split: prod.splits, simp add: run_ok_def)

lemma colons_chars: "c \<in> set (colons gs) \<Longrightarrow> is_hex c \<or> c = CHR '':''"
  using set_join_with [of "'':''" "map show_hex gs"] by (auto dest: show_hex_set)

lemma v6_string_chars: "c \<in> set (v6_string ip) \<Longrightarrow> is_hex c \<or> c = CHR '':''"
  by (auto simp: v6_string_def Let_def split: prod.splits if_splits dest: colons_chars)

lemma colons_hd_not_colon: "\<not> has_prefix (colons gs) ''::''"
proof (cases "gs = []")
  case False
  then show ?thesis using colons_not_Nil [OF False] by (auto simp: has_prefix_iff)
qed (simp add: has_prefix_def)

lemma rebuild_run:
  "run_ok gs (st, l) \<Longrightarrow> gs = take st gs @ replicate l 0 @ drop (st + l) gs"
proof -
  assume "run_ok gs (st, l)"
  then have "take l (drop st gs) = replicate l 0" by (auto simp: run_ok_def)
  moreover have "gs = take st gs @ take l (drop st gs) @ drop (st + l) gs"
    by (metis append_take_drop_id add.commute drop_drop)
  ultimately show ?thesis by simp
qed

lemma parse_ipv6_string:
  assumes "length ip = 16"
  shows "parse_ipv6 (v6_string ip) = Some ip"
proof -
  let ?gs = "groups ip"
  obtain st l where r: "longest_zero_run ?gs = (st, l)" by fastforce
  have ok: "run_ok ?gs (st, l)" using longest_zero_run_ok [of ?gs] r by simp
  have gs: "length ?gs = 8" "valid_groups ?gs" "bytes_of ?gs = ip"
    using assms groups_bound by (auto simp: length_groups valid_groups_def bytes_of_groups)
  have ne: "?gs \<noteq> []" using gs(1) by auto
  have no_zone: "CHR ''%'' \<notin> set (v6_string ip)"
    using v6_string_chars hex_not by fastforce
  show ?thesis
  proof (cases "l = 0")
    case True
    then have s: "v6_string ip = colons ?gs" using r by (simp add: v6_string_def Let_def)
    have "v6_loop 8 [] None (colons ?gs) = Some (ip, None, [])"
      using gs ne v6_loop_colons [of ?gs 8 "[]" None] by simp
    then show ?thesis
      using assms no_zone colons_hd_not_colon [of ?gs] unfolding s by (simp add: parse_ipv6_def)
  next
    case False
    let ?a = "take st ?gs" and ?b = "drop (st + l) ?gs"
    from False have s: "v6_string ip = colons ?a @ ''::'' @ colons ?b"
      using r by (simp add: v6_string_def Let_def)
    have len: "length ?a = st" "length ?b = 8 - (st + l)" "st + l \<le> 8" "2 \<le> l"
      using ok False gs by (auto simp: run_ok_def)
    have ab: "valid_groups ?a" "valid_groups ?b"
      using gs(2) by (auto simp: valid_groups_def dest: in_set_takeD in_set_dropD)
    have ip: "bytes_of ?a @ replicate (2 * l) 0 @ bytes_of ?b = ip"
      using rebuild_run [OF ok] gs(3) by (metis bytes_of_append bytes_of_zeros)
    have fin: "v6_finish (Some (bytes_of ?a @ bytes_of ?b, Some (2 * st), [])) = Some ip"
    proof -
      have "2 * st + 2 * (8 - (st + l)) < 16" and "16 - (2 * st + 2 * (8 - (st + l))) = 2 * l"
        using len(3,4) by linarith+
      then show ?thesis using len ip by (simp del: mult_Suc_right)
    qed
    show ?thesis
    proof (cases "st = 0")
      case True
      then have a: "?a = []" by simp
      have s': "v6_string ip = ''::'' @ colons ?b" unfolding s a by simp
      show ?thesis
      proof (cases "?b = []")
        case b: True
        then have "v6_string ip = ''::''" unfolding s' b by simp
        moreover have "ip = replicate 16 0"
          using ip len unfolding a b by (simp add: bytes_of_def)
        ultimately show ?thesis by (simp add: parse_ipv6_def has_prefix_def)
      next
        case False
        have "v6_loop 8 [] (Some 0) (colons ?b) = Some (bytes_of ?b, Some 0, [])"
          using v6_loop_colons [OF False, of 8 "[]" "Some 0"] len ab by simp
        moreover have "v6_finish (Some (bytes_of ?b, Some 0, [])) = Some ip"
          using fin \<open>st = 0\<close> unfolding a by (simp add: bytes_of_def)
        moreover have "drop 2 (v6_string ip) = colons ?b" "has_prefix (v6_string ip) ''::''"
          unfolding s' by (simp_all add: has_prefix_def)
        ultimately show ?thesis
          using no_zone colons_not_Nil [OF False] unfolding parse_ipv6_def by simp
      qed
    next
      case False
      with len gs(1) have "?a \<noteq> []" by auto
      then have "v6_loop 8 [] None (v6_string ip) = Some (bytes_of ?a @ bytes_of ?b, Some (2 * st), [])"
        unfolding s using len ab v6_loop_compressed [of ?a ?b 8 "[]"]
        by (simp add: valid_groups_def ball_Un)
      moreover have "\<not> has_prefix (v6_string ip) ''::''"
        using colons_not_Nil [OF \<open>?a \<noteq> []\<close>] unfolding s by (auto simp: has_prefix_iff append_eq_Cons_conv)
      ultimately show ?thesis using no_zone fin by (simp add: parse_ipv6_def)
    qed
  qed
qed

subsection \<open>Addresses\<close>

lemma v4_string_chars: "c \<in> set (v4_string q) \<Longrightarrow> is_digit c \<or> c = CHR ''.''"
  using set_join_with [of "''.''" "map (\<lambda>b. show_nat (unat b)) q"] show_nat_digits
  by (fastforce simp: v4_string_def list_all_iff)

lemma v4_string_dot: "length q = 4 \<Longrightarrow> CHR ''.'' \<in> set (v4_string q)"
  by (auto simp: v4_string_def numeral_eq_Suc length_Suc_conv)

lemma colons_colon: "2 \<le> length gs \<Longrightarrow> CHR '':'' \<in> set (colons gs)"
  by (cases gs; cases "tl gs") auto

lemma v6_string_colon: "length ip = 16 \<Longrightarrow> CHR '':'' \<in> set (v6_string ip)"
  using colons_colon [of "groups ip"]
  by (cases "longest_zero_run (groups ip)") (auto simp: v6_string_def length_groups Let_def)

definition ip_len :: "octets \<Rightarrow> bool" where
  "ip_len ip \<longleftrightarrow> length ip = 4 \<or> length ip = 16"

text \<open>The printed form parses to the same address, in its shortest form.\<close>

lemma parse_addr_ip_string:
  "ip_len ip \<Longrightarrow> parse_addr (ip_string ip) = Some (case to4 ip of Some q \<Rightarrow> q | None \<Rightarrow> ip)"
proof (cases "to4 ip")
  case None
  assume "ip_len ip"
  with None have l: "length ip = 16" by (auto simp: to4_def ip_len_def split: if_splits)
  have "find (\<lambda>c. c \<in> set ''.:%'') (v6_string ip) = Some (CHR '':'')"
    using v6_string_colon [OF l] v6_string_chars [of _ ip] by (intro find_unique) (auto dest: hex_not)
  with None l show ?thesis by (simp add: ip_string_def parse_addr_def parse_ipv6_string)
next
  case (Some q)
  then have l: "length q = 4" by (auto simp: to4_def split: if_splits)
  have "find (\<lambda>c. c \<in> set ''.:%'') (v4_string q) = Some (CHR ''.'')"
    using v4_string_dot [OF l] v4_string_chars [of _ q] by (intro find_unique) (auto dest: digit_not)
  with Some l show ?thesis by (simp add: ip_string_def parse_addr_def parse_ipv4_string)
qed

lemma ip_string_chars: "c \<in> set (ip_string ip) \<Longrightarrow> is_digit c \<or> is_hex c \<or> c = CHR ''.'' \<or> c = CHR '':''"
  by (auto simp: ip_string_def split: option.splits dest: v4_string_chars v6_string_chars)

lemma ip_string_no_slash: "CHR ''/'' \<notin> set (ip_string ip)"
  using ip_string_chars digit_not hex_not by fastforce

lemma ip_string_not_Nil: "ip_len ip \<Longrightarrow> ip_string ip \<noteq> []"
  using parse_addr_ip_string [of ip] by (auto simp: parse_addr_def)

lemma ip_string_graphic: "list_all graphic (ip_string ip)"
  by (auto simp: list_all_iff graphic_def is_digit_def is_hex_def hex_value_def Let_def
      split: if_splits dest!: ip_string_chars)

subsection \<open>A text with a slash is no address\<close>

lemma parse_octet_no_slash: "parse_octet s = Some b \<Longrightarrow> CHR ''/'' \<notin> set s"
  by (auto simp: parse_octet_def list_all_iff split: if_splits dest: digit_not)

lemma split_on_member: "x \<in> set s \<Longrightarrow> x \<noteq> c \<Longrightarrow> \<exists>p \<in> set (split_on c s). x \<in> set p"
  by (induction s) (auto split: list.splits)

lemma parse_ipv4_no_slash: "parse_ipv4 s = Some q \<Longrightarrow> CHR ''/'' \<notin> set s \<and> length q = 4"
proof -
  assume p: "parse_ipv4 s = Some q"
  then obtain a b c d where m: "map parse_octet (split_on (CHR ''.'') s) = [Some a, Some b, Some c, Some d]"
    and q: "q = [a, b, c, d]"
    by (auto simp: parse_ipv4_def split: list.splits option.splits)
  have "\<exists>v. parse_octet x = Some v" if "x \<in> set (split_on (CHR ''.'') s)" for x
  proof -
    from that have "parse_octet x \<in> set (map parse_octet (split_on (CHR ''.'') s))" by simp
    then show ?thesis unfolding m by auto
  qed
  then show ?thesis
    using split_on_member [of "CHR ''/''" s "CHR ''.''"] parse_octet_no_slash q by auto
qed

lemma takeWhile_dropWhile_member: "x \<in> set s \<Longrightarrow> \<not> P x \<Longrightarrow> x \<in> set (dropWhile P s)"
  by (induction s) auto

lemma v6_loop_no_slash: "v6_loop k acc ell s = Some (b, e, []) \<Longrightarrow> CHR ''/'' \<notin> set s"
proof (induction k acc ell s rule: v6_loop.induct)
  case (2 k acc ell s)
  show ?case
  proof
    assume slash: "CHR ''/'' \<in> set s"
    then have "CHR ''/'' \<in> set (dropWhile is_hex s)"
      by (rule takeWhile_dropWhile_member) (auto simp: is_hex_def hex_value_def)
    then obtain c r where rest: "dropWhile is_hex s = c # r" and "CHR ''/'' \<in> set (c # r)"
      by (cases "dropWhile is_hex s") auto
    moreover have "c \<noteq> CHR ''.''"
      using 2(3) slash rest by (auto simp: Let_def split: if_splits dest: parse_ipv4_no_slash)
    moreover from this have c: "c = CHR '':''"
      using 2(3) rest by (auto simp: Let_def split: if_splits)
    ultimately have r: "CHR ''/'' \<in> set r" by auto
    show False
    proof (cases "hd r = CHR '':''")
      case True
      then have "CHR ''/'' \<in> set (tl r)" using r by (cases r) auto
      moreover from this have "tl r \<noteq> []" by auto
      ultimately show False
        using 2(3) True rest c 2(1) [OF refl refl _ _ refl rest] by (auto simp: Let_def split: if_splits)
    next
      case False
      then show False
        using 2(3) rest c r 2(2) [OF refl refl _ _ refl rest] by (auto simp: Let_def split: if_splits)
    qed
  qed
qed simp

lemma parse_addr_no_slash: "parse_addr s = Some b \<Longrightarrow> CHR ''/'' \<notin> set s"
proof -
  assume p: "parse_addr s = Some b"
  have "CHR ''/'' \<notin> set s" if "v6_finish (v6_loop k acc ell s) = Some b" for k acc ell s
    using that by (cases "v6_loop k acc ell s") (auto split: if_splits dest: v6_loop_no_slash)
  note fin = this
  have "CHR ''/'' \<notin> set s" if "parse_ipv6 s = Some b"
  proof (cases "has_prefix s ''::''")
    case True
    then obtain r where "s = ''::'' @ r" by (auto simp: has_prefix_iff)
    with that show ?thesis by (auto simp: parse_ipv6_def split: if_splits dest: fin)
  next
    case False
    with that show ?thesis by (auto simp: parse_ipv6_def split: if_splits dest: fin)
  qed
  with p show ?thesis
    by (auto simp: parse_addr_def split: option.splits if_splits dest: parse_ipv4_no_slash)
qed

lemma parse_ip_no_slash: "CHR ''/'' \<in> set s \<Longrightarrow> parse_ip s = None"
  using parse_addr_no_slash by (cases "parse_addr s") (auto simp: parse_ip_def)

lemma parse_ipv4_length: "parse_ipv4 s = Some q \<Longrightarrow> length q = 4"
  by (simp add: parse_ipv4_no_slash)

lemma v6_loop_length:
  "v6_loop k acc ell s = Some (b, e, r) \<Longrightarrow> length acc + 2 * k \<le> 16 \<Longrightarrow>
    (\<forall>i. ell = Some i \<longrightarrow> i \<le> length acc) \<Longrightarrow> length b \<le> 16 \<and> (\<forall>i. e = Some i \<longrightarrow> i \<le> length b)"
proof (induction k acc ell s rule: v6_loop.induct)
  case (2 k acc ell s)
  let ?g = "group_bytes (hex_number (takeWhile is_hex s))"
  have g: "length ?g = 2" by (simp add: group_bytes_def)
  show ?case
  proof (cases "dropWhile is_hex s")
    case Nil
    with 2(3-5) g show ?thesis by (auto simp: Let_def split: if_splits)
  next
    case rest: (Cons c r)
    consider (dot) "c = CHR ''.''" | (two) "c = CHR '':''" "hd r = CHR '':''" | (one) "c = CHR '':''" "hd r \<noteq> CHR '':''"
      using 2(3) rest by (auto simp: Let_def split: if_splits)
    then show ?thesis
    proof cases
      case dot
      with 2(3-5) rest show ?thesis by (auto simp: Let_def split: if_splits dest: parse_ipv4_length)
    next
      case two
      with 2(3-5) rest g 2(1) [OF refl refl _ _ refl rest] show ?thesis
        by (auto simp: Let_def split: if_splits)
    next
      case one
      with 2(3-5) rest g 2(2) [OF refl refl _ _ refl rest] show ?thesis
        by (simp add: Let_def split: if_splits) force
    qed
  qed
qed auto

lemma parse_addr_len: "parse_addr s = Some b \<Longrightarrow> ip_len b"
proof -
  assume p: "parse_addr s = Some b"
  have fin: "length b = 16" if f: "v6_finish (v6_loop 8 [] ell t) = Some b" "ell = None \<or> ell = Some 0" for ell t
  proof (cases "v6_loop 8 [] ell t")
    case (Some r)
    obtain x e u where r: "r = (x, e, u)" by (cases r) auto
    with Some f have "length x \<le> 16" "\<forall>i. e = Some i \<longrightarrow> i \<le> length x"
      using v6_loop_length [of 8 "[]" ell t x e u] by auto
    with f Some r show ?thesis by (auto split: if_splits)
  qed (use f in simp)
  from p show ?thesis
    by (auto simp: parse_addr_def parse_ipv6_def ip_len_def split: option.splits if_splits
        dest: parse_ipv4_length fin)
qed

subsection \<open>Networks\<close>

lemma mask_bytes: "list_all (\<lambda>n. NOT (drop_bit n (255 :: 8 word)) \<noteq> 255 \<and>
    find (\<lambda>k. drop_bit n (255 :: 8 word) = drop_bit k 255) [0..<8] = Some n) [0..<8]"
  by code_simp

lemma mask_byte: "n < 8 \<Longrightarrow> NOT (drop_bit n (255 :: 8 word)) \<noteq> 255 \<and>
    find (\<lambda>k. drop_bit n (255 :: 8 word) = drop_bit k 255) [0..<8] = Some n"
  using mask_bytes unfolding list_all_iff by auto

lemma length_cidr_mask [simp]: "length (cidr_mask n k) = k"
  by (induction n k rule: cidr_mask.induct) auto

lemma cidr_mask_0: "list_all ((=) 0) (cidr_mask 0 k)"
  by (induction k) auto

lemma mask_len_cidr: "n \<le> 8 * k \<Longrightarrow> mask_len (cidr_mask n k) = Some n"
  by (induction n k rule: cidr_mask.induct) (auto simp: mask_byte cidr_mask_0)

lemma drop_cidr_mask: "drop a (cidr_mask n (a + b)) = cidr_mask (n - 8 * a) b"
  by (induction a arbitrary: n) auto

lemma map2_and_idem: "map2 (AND) (map2 (AND) a m) m = map2 (AND) a (m :: octets)"
  by (induction a m rule: list_induct2') (auto simp: and.assoc)

definition net_form :: "octets \<Rightarrow> nat \<Rightarrow> bool" where
  "net_form ip k \<longleftrightarrow> ip_len ip \<and> k \<le> 8 * length ip \<and> (length ip = 16 \<longrightarrow> to4 ip = None)
     \<and> map2 (AND) ip (cidr_mask k (length ip)) = ip"

lemma parse_cidr_form:
  "parse_cidr s = Some net \<Longrightarrow>
    \<exists>ip k. number_and_mask net = Some (ip, cidr_mask k (length ip)) \<and> net_form ip k"
proof -
  assume "parse_cidr s = Some net"
  then obtain b n a m where b: "parse_addr a = Some b" and n: "n \<le> 8 * length b"
    and net: "net = \<lparr>net_ip = mask_ip (as16 b) (cidr_mask n (length b)), net_mask = cidr_mask n (length b)\<rparr>"
    by (auto simp: parse_cidr_def Let_def split: prod.splits if_splits option.splits)
  let ?m = "cidr_mask n (length b)" and ?x = "map2 (AND) b (cidr_mask n (length b))"
  from parse_addr_len [OF b] have l: "length b = 4 \<or> length b = 16" by (simp add: ip_len_def)
  have x: "net_ip net = ?x" "length ?x = length b" "map2 (AND) ?x ?m = ?x"
    using l by (auto simp: net mask_ip_def as16_def v4_prefix_def map2_and_idem)
  show ?thesis
  proof (cases "to4 ?x")
    case None
    then have "length b = 16" using l x(2) by (auto simp: to4_def split: if_splits)
    then have "number_and_mask net = Some (?x, cidr_mask n (length ?x)) \<and> net_form ?x n"
      using None x n by (simp add: number_and_mask_def net net_form_def ip_len_def Let_def)
    then show ?thesis by blast
  next
    case q: (Some q)
    show ?thesis
    proof (cases "length b = 4")
      case True
      then have "number_and_mask net = Some (?x, cidr_mask n (length ?x)) \<and> net_form ?x n"
        using x n by (simp add: number_and_mask_def net net_form_def ip_len_def to4_def Let_def)
      then show ?thesis by blast
    next
      case False
      with l have 16: "length b = 16" by simp
      with q x(2) have d: "q = drop 12 ?x" "length q = 4" by (auto simp: to4_def split: if_splits)
      have m: "drop 12 ?m = cidr_mask (n - 96) 4"
        using drop_cidr_mask [of 12 n 4] 16 by simp
      have "map2 (AND) q (cidr_mask (n - 96) 4) = drop 12 (map2 (AND) ?x ?m)"
        unfolding d(1) m [symmetric] by (simp add: drop_map drop_zip)
      then have "number_and_mask net = Some (q, cidr_mask (n - 96) (length q)) \<and> net_form q (n - 96)"
        using q d n m x 16 by (simp add: number_and_mask_def net net_form_def ip_len_def Let_def)
      then show ?thesis by blast
    qed
  qed
qed

lemma net_form_reparse:
  assumes "net_form ip k"
  shows "parse_cidr (ip_string ip @ ''/'' @ show_nat k)
           = Some \<lparr>net_ip = ip, net_mask = cidr_mask k (length ip)\<rparr>"
    and "number_and_mask \<lparr>net_ip = ip, net_mask = cidr_mask k (length ip)\<rparr>
           = Some (ip, cidr_mask k (length ip))"
proof -
  have ip: "parse_addr (ip_string ip) = Some ip"
    using assms parse_addr_ip_string [of ip] by (auto simp: net_form_def ip_len_def to4_def)
  have k: "parse_prefix_len (show_nat k) = Some k"
    using assms show_nat_digits [of k]
    by (auto simp: parse_prefix_len_def show_nat_value net_form_def ip_len_def)
  show "parse_cidr (ip_string ip @ ''/'' @ show_nat k)
           = Some \<lparr>net_ip = ip, net_mask = cidr_mask k (length ip)\<rparr>"
    using assms cut_append [OF ip_string_no_slash, of ip "show_nat k"]
    by (auto simp: parse_cidr_def ip k net_form_def ip_len_def mask_ip_def as16_def v4_prefix_def Let_def)
  show "number_and_mask \<lparr>net_ip = ip, net_mask = cidr_mask k (length ip)\<rparr>
           = Some (ip, cidr_mask k (length ip))"
    using assms by (auto simp: number_and_mask_def net_form_def ip_len_def to4_def)
qed

text \<open>Reading back a printed network gives a network that prints and matches the same.\<close>

lemma net_string_reparsed:
  assumes "parse_cidr s = Some net"
  shows "\<exists>net'. parse_cidr (net_string net) = Some net' \<and> number_and_mask net' = number_and_mask net"
proof -
  from parse_cidr_form [OF assms] obtain ip k where
    n: "number_and_mask net = Some (ip, cidr_mask k (length ip))" and f: "net_form ip k" by blast
  have "net_string net = ip_string ip @ ''/'' @ show_nat k"
    using f by (simp add: net_string_def n mask_ones_def mask_len_cidr net_form_def)
  then show ?thesis using net_form_reparse [OF f] n by auto
qed

lemma number_and_mask_cong:
  "number_and_mask a = number_and_mask b \<Longrightarrow>
    net_string a = net_string b \<and> net_contains a ip = net_contains b ip"
  by (simp add: net_string_def net_contains_def)

lemma net_string_shape:
  "parse_cidr s = Some net \<Longrightarrow> list_all graphic (net_string net) \<and> CHR ''/'' \<in> set (net_string net)"
proof -
  have "list_all graphic (show_nat k)" for k
    using show_nat_digits [of k] by (auto simp: list_all_iff graphic_def is_digit_def)
  then show "parse_cidr s = Some net \<Longrightarrow> ?thesis"
    using ip_string_graphic
    by (auto simp: net_string_def dest!: parse_cidr_form) (simp add: graphic_def)
qed

end
