(* ===== verification/SrtNetworks.thy ===== *)
theory SrtNetworks
  imports GoNetLaws
begin

unbundle bit_operations_syntax

text \<open>
  Allowed networks of SRT clients (\<open>internal/srtrelay/store.go\<close>: \<open>normalizeCIDR\<close>,
  \<open>unrestrictedCIDR\<close>). A normalized entry is a printed network that normalizes to itself
  and lets in exactly the addresses the operator's entry names.
\<close>

subsection \<open>Networks\<close>

definition normalize_cidr :: "string \<Rightarrow> string option" where
  "normalize_cidr value =
     (let v = trim_space value in
      case parse_ip v of
        Some ip \<Rightarrow> if to4 ip \<noteq> None then Some (ip_string ip @ ''/32'') else Some (ip_string ip @ ''/128'')
      | None \<Rightarrow> map_option net_string (parse_cidr v))"

definition unrestricted_cidr :: "string \<Rightarrow> bool" where
  "unrestricted_cidr value = (case parse_cidr value of
     None \<Rightarrow> False
   | Some network \<Rightarrow> mask_ones (net_mask network) = 0)"

subsection \<open>Lemmas on networks\<close>

text \<open>\<open>covers s\<close> is the set of addresses the printed network \<open>s\<close> lets in.\<close>

definition covers :: "string \<Rightarrow> octets \<Rightarrow> bool" where
  "covers s ip \<longleftrightarrow> (\<exists>n. parse_cidr s = Some n \<and> net_contains n ip)"

definition canonical :: "octets \<Rightarrow> octets" where
  "canonical ip = (case to4 ip of Some q \<Rightarrow> q | None \<Rightarrow> ip)"

text \<open>The addresses an entry names, as the operator wrote it.\<close>

definition entry_covers :: "string \<Rightarrow> octets \<Rightarrow> bool" where
  "entry_covers value ip =
     (let v = trim_space value in
      case parse_ip v of
        Some a \<Rightarrow> canonical a = canonical ip
      | None \<Rightarrow> covers v ip)"

lemma and_full [simp]: "x AND (255 :: 8 word) = x"
proof -
  have "(255 :: 8 word) = - 1" by simp
  then show ?thesis by (simp only: and.right_neutral)
qed

lemma full_mask: "length a \<le> n \<Longrightarrow> map2 (AND) a (cidr_mask (8 * n) n) = a"
proof (induction n arbitrary: a)
  case (Suc n)
  have "8 * Suc n - 8 = 8 * n" by simp
  with Suc show ?case by (cases a) auto
qed simp

lemma parse_ip_len: "parse_ip v = Some ip \<Longrightarrow> length ip = 16"
  by (auto simp: parse_ip_def as16_def v4_prefix_def ip_len_def dest!: parse_addr_len)

lemma canonical_v4: "length ip = 16 \<Longrightarrow> to4 ip = Some q \<Longrightarrow> length q = 4 \<and> to4 q = Some q"
  by (auto simp: to4_def split: if_splits)

lemma full_net_form: "ip_len ip \<Longrightarrow> (length ip = 16 \<longrightarrow> to4 ip = None) \<Longrightarrow> net_form ip (8 * length ip)"
  unfolding net_form_def using full_mask [OF order_refl, of ip] by blast

lemma canonical_form:
  assumes "length ip = 16"
  shows "net_form (canonical ip) (8 * length (canonical ip))"
    and "ip_string (canonical ip) = ip_string ip"
    and "to4 ip \<noteq> None \<longleftrightarrow> length (canonical ip) = 4"
    and "length (canonical ip) = 4 \<or> length (canonical ip) = 16"
proof -
  have "ip_len (canonical ip) \<and> (length (canonical ip) = 16 \<longrightarrow> to4 (canonical ip) = None)
    \<and> ip_string (canonical ip) = ip_string ip \<and> (to4 ip \<noteq> None \<longleftrightarrow> length (canonical ip) = 4)"
  proof (cases "to4 ip")
    case None
    then show ?thesis using assms by (simp add: canonical_def ip_len_def)
  next
    case (Some q)
    have "length q = 4" "to4 q = Some q" using canonical_v4 [OF assms Some] by simp_all
    then show ?thesis using Some by (simp add: canonical_def ip_len_def ip_string_def)
  qed
  then show "net_form (canonical ip) (8 * length (canonical ip))"
    and "ip_string (canonical ip) = ip_string ip"
    and "to4 ip \<noteq> None \<longleftrightarrow> length (canonical ip) = 4"
    and "length (canonical ip) = 4 \<or> length (canonical ip) = 16"
    using full_net_form by (auto simp only: ip_len_def)
qed

lemma show_32: "show_nat 32 = ''32''" and show_128: "show_nat 128 = ''128''"
  by code_simp+

lemma host_network_form:
  "length ip = 16 \<Longrightarrow>
    (if to4 ip \<noteq> None then ip_string ip @ ''/32'' else ip_string ip @ ''/128'')
      = ip_string (canonical ip) @ ''/'' @ show_nat (8 * length (canonical ip))"
  using canonical_form [of ip] by (auto simp: show_32 show_128)

text \<open>Every normalized entry is a printed network with a canonical address.\<close>

lemma normalize_cidr_form:
  assumes "normalize_cidr v = Some s"
  shows "\<exists>ip k. s = ip_string ip @ ''/'' @ show_nat k \<and> net_form ip k"
proof (cases "parse_ip (trim_space v)")
  case None
  with assms obtain n where n: "parse_cidr (trim_space v) = Some n" "s = net_string n"
    by (auto simp: normalize_cidr_def)
  then show ?thesis
    using parse_cidr_form [OF n(1)]
    by (fastforce simp: net_string_def mask_ones_def mask_len_cidr net_form_def)
next
  case (Some ip)
  with parse_ip_len have l: "length ip = 16" by blast
  have "s = (if to4 ip \<noteq> None then ip_string ip @ ''/32'' else ip_string ip @ ''/128'')"
    using assms Some by (simp add: normalize_cidr_def Let_def split: if_splits)
  then show ?thesis
    unfolding host_network_form [OF l] using canonical_form(1) [OF l] by blast
qed

lemma printed_network:
  assumes "net_form ip k"
  defines "s \<equiv> ip_string ip @ ''/'' @ show_nat k"
  shows "trim_space s = s" and "parse_ip s = None" and "normalize_cidr s = Some s"
proof -
  have g: "list_all graphic (show_nat k)"
    using show_nat_digits [of k] by (auto simp: list_all_iff graphic_def is_digit_def)
  have "list_all graphic s"
    using g ip_string_graphic [of ip] by (auto simp: s_def list_all_iff) (auto simp: graphic_def)
  then show t: "trim_space s = s" by (rule trim_space_all_graphic)
  show p: "parse_ip s = None" by (rule parse_ip_no_slash) (simp add: s_def)
  show "normalize_cidr s = Some s"
    using net_form_reparse [OF assms(1)] assms(1)
    by (simp add: normalize_cidr_def t p)
      (simp add: s_def net_string_def mask_ones_def mask_len_cidr net_form_def)
qed

lemma normalize_cidr_fixed: "normalize_cidr v = Some s \<Longrightarrow> normalize_cidr s = Some s"
  using normalize_cidr_form printed_network(3) by blast

lemma canonical_idem: "length ip = 4 \<or> length ip = 16 \<Longrightarrow> length (canonical ip) = 4 \<or> length (canonical ip) = 16"
  by (auto simp: canonical_def to4_def)

text \<open>Which addresses a printed network lets in: equal bits under the mask, same family.\<close>

lemma covers_printed:
  "net_form ip k \<Longrightarrow> covers (ip_string ip @ ''/'' @ show_nat k) x \<longleftrightarrow>
    length (canonical x) = length ip
    \<and> map2 (AND) (canonical x) (cidr_mask k (length ip)) = ip"
  using net_form_reparse [of ip k]
  by (auto simp: covers_def net_contains_def canonical_def net_form_def Let_def)

lemma unrestricted_printed:
  "net_form ip k \<Longrightarrow> unrestricted_cidr (ip_string ip @ ''/'' @ show_nat k) \<longleftrightarrow> k = 0"
  using net_form_reparse [of ip k]
  by (simp add: unrestricted_cidr_def mask_ones_def mask_len_cidr net_form_def)

lemma normalize_cidr_covers:
  assumes "normalize_cidr v = Some s"
  shows "covers s x \<longleftrightarrow> entry_covers v x"
proof (cases "parse_ip (trim_space v)")
  case None
  with assms obtain n where n: "parse_cidr (trim_space v) = Some n" "s = net_string n"
    by (auto simp: normalize_cidr_def)
  obtain n' where "parse_cidr s = Some n'" "number_and_mask n' = number_and_mask n"
    using net_string_reparsed [OF n(1)] n(2) by blast
  then show ?thesis
    using number_and_mask_cong [of n' n x] None n(1) by (simp add: covers_def entry_covers_def)
next
  case (Some ip)
  then have l: "length ip = 16" by (rule parse_ip_len)
  let ?c = "canonical ip"
  have "s = (if to4 ip \<noteq> None then ip_string ip @ ''/32'' else ip_string ip @ ''/128'')"
    using assms Some by (simp add: normalize_cidr_def Let_def split: if_splits)
  then have s: "s = ip_string ?c @ ''/'' @ show_nat (8 * length ?c)"
    using host_network_form [OF l] by simp
  have "map2 (AND) (canonical x) (cidr_mask (8 * length ?c) (length ?c)) = canonical x"
    if "length (canonical x) = length ?c"
    using that by (intro full_mask) simp
  then show ?thesis
    unfolding s covers_printed [OF canonical_form(1) [OF l]]
    using Some by (auto simp: entry_covers_def)
qed

lemma map2_and_zero: "list_all ((=) 0) m \<Longrightarrow> length a = length m \<Longrightarrow> map2 (AND) a m = (m :: octets)"
  by (induction a m rule: list_induct2') auto

lemma mask_first: "0 < k \<Longrightarrow> 0 < n \<Longrightarrow> bit (hd (cidr_mask k n) :: 8 word) 7"
proof -
  assume "0 < k" "0 < n"
  then obtain n' where n: "n = Suc n'" by (cases n) auto
  show ?thesis
  proof (cases "8 \<le> k")
    case True
    have "bit (255 :: 8 word) 7" by simp
    with True n show ?thesis by simp
  next
    case False
    with \<open>0 < k\<close> have "k \<in> {1, 2, 3, 4, 5, 6, 7}" by auto
    with n show ?thesis by (auto simp: bit_not_iff bit_drop_bit_eq)
  qed
qed

lemma zero_neq_byte: "(0 :: 8 word) \<noteq> 255"
  by simp

text \<open>A network is unrestricted iff it lets in every address of its family.\<close>

lemma unrestricted_covers_all:
  assumes "net_form ip k"
  shows "unrestricted_cidr (ip_string ip @ ''/'' @ show_nat k) \<longleftrightarrow>
    (\<forall>x. length (canonical x) = length ip \<longrightarrow> covers (ip_string ip @ ''/'' @ show_nat k) x)"
proof (cases "k = 0")
  case True
  have z: "list_all ((=) 0) (cidr_mask 0 (length ip))" by (rule cidr_mask_0)
  have "map2 (AND) x (cidr_mask 0 (length ip)) = ip" if "length x = length ip" for x
    using map2_and_zero [OF z, of x] map2_and_zero [OF z, of ip] assms True that
    by (simp add: net_form_def)
  then show ?thesis
    unfolding unrestricted_printed [OF assms] covers_printed [OF assms] by (simp add: True)
next
  case False
  obtain b bs where ip: "ip = b # bs"
    using assms by (cases ip) (auto simp: net_form_def ip_len_def)
  let ?m = "cidr_mask k (length ip)"
  let ?h = "if bit b 7 then 0 else 128 :: 8 word"
  let ?x = "?h # replicate (length bs) 0"
  obtain m ms where m: "?m = m # ms" by (cases ?m) (use ip length_cidr_mask [of k "length ip"] in auto)
  have b7: "bit m 7" using mask_first [of k "length ip"] False ip m by simp
  have "bit (?h AND m) 7 \<longleftrightarrow> \<not> bit b 7" using b7 by (simp add: bit_and_iff)
  then have "?h AND m \<noteq> b" by auto
  moreover have c: "canonical ?x = ?x"
  proof (cases "length ip = 4")
    case True
    then show ?thesis using ip by (simp add: canonical_def to4_def)
  next
    case False
    then have "length bs = 15" using assms ip by (auto simp: net_form_def ip_len_def)
    then have "take 12 ?x ! 11 = 0" by simp
    moreover have "v4_prefix ! 11 = 255" by (simp add: v4_prefix_def nth_append)
    ultimately have "take 12 ?x \<noteq> v4_prefix" by (metis zero_neq_byte)
    then show ?thesis using \<open>length bs = 15\<close> by (simp add: canonical_def to4_def)
  qed
  ultimately have "\<not> covers (ip_string ip @ ''/'' @ show_nat k) ?x"
    unfolding covers_printed [OF assms] c m by (simp add: ip)
  moreover have "length (canonical ?x) = length ip" by (simp add: c ip)
  ultimately show ?thesis
    unfolding unrestricted_printed [OF assms] using False by blast
qed

text \<open>
  \<open>normalizeCIDR\<close> refuses exactly the entries that are neither an address nor a network;
  the text it stores lets in exactly the addresses the entry names and is kept as it is
  when it is normalized again.
\<close>

theorem normalize_cidr_exact:
  "case normalize_cidr v of
     None \<Rightarrow> parse_ip (trim_space v) = None \<and> parse_cidr (trim_space v) = None
   | Some s \<Rightarrow> normalize_cidr s = Some s \<and> (\<forall>x. covers s x \<longleftrightarrow> entry_covers v x)"
proof (cases "normalize_cidr v")
  case None
  then show ?thesis by (auto simp: normalize_cidr_def Let_def split: option.splits if_splits)
next
  case (Some s)
  then show ?thesis using normalize_cidr_fixed normalize_cidr_covers by simp
qed

end
