(* ===== verification/SrtNormalize.thy ===== *)
theory SrtNormalize
  imports SrtModels GoUrl SrtNetworks
begin

text \<open>
  Validation and normalization of SRT relays and clients (\<open>internal/srtrelay/store.go\<close>:
  \<open>idPattern\<close>, \<open>hostnamePattern\<close>, \<open>normalizeRelay\<close>, \<open>normalizeClientLocked\<close>,
  \<open>normalizeCIDR\<close>, \<open>unrestrictedCIDR\<close>, \<open>validateRelayDefaultClientLocked\<close>). The two regular
  expressions are matched by predicates on the text.

  The specification of a relay is \<open>fill_relay\<close> (the defaults) and \<open>relay_ok\<close> (what is
  acceptable); the code is shown to accept exactly the relays whose filled form is
  acceptable and to return that form. For a client, \<open>client_ok\<close> is what normalization
  establishes and what it leaves unchanged.
\<close>

subsection \<open>Patterns\<close>

definition id_pattern :: "string \<Rightarrow> bool" where
  "id_pattern s \<longleftrightarrow> 3 \<le> length s \<and> length s \<le> 64 \<and> is_alnum (hd s)
     \<and> list_all (\<lambda>c. is_alnum c \<or> c \<in> set ''_.-'') (tl s)"

definition host_label :: "string \<Rightarrow> bool" where
  "host_label l \<longleftrightarrow> l \<noteq> [] \<and> length l \<le> 63 \<and> is_alnum (hd l) \<and> is_alnum (last l)
     \<and> list_all (\<lambda>c. is_alnum c \<or> c = CHR ''-'') l"

definition hostname_pattern :: "string \<Rightarrow> bool" where
  "hostname_pattern s \<longleftrightarrow> list_all host_label (split_on (CHR ''.'') (trim_suffix s ''.''))"

subsection \<open>Relays\<close>

datatype relay_error =
    RelayIdInvalid | DirectionInvalid | InputNotUdp | InputNotMulticast | InputPortInvalid
  | DestinationAddressInvalid | DestinationPortInvalid | StreamIdUnsafe | RelayEncryptionInvalid
  | DefaultClientInvalid | BindAddressInvalid | PortInvalid
  | LatencyInvalid | PayloadSizeInvalid | MaxClientsInvalid | InputTimeoutInvalid

definition normalize_identity :: "relay \<Rightarrow> (relay_error, relay) result" where
  "normalize_identity r =
     (if \<not> id_pattern (r_id r) then Inl RelayIdInvalid
      else let r = (if trim_space (r_name r) = [] then r\<lparr>r_name := r_id r\<rparr> else r);
               r = (if r_direction r = [] then r\<lparr>r_direction := direction_listener\<rparr> else r)
      in if r_direction r \<noteq> direction_listener \<and> r_direction r \<noteq> direction_publish
         then Inl DirectionInvalid else Inr r)"

definition check_input_url :: "relay \<Rightarrow> (relay_error, relay) result" where
  "check_input_url r = (case parse_url (r_input_url r) of
       None \<Rightarrow> Inl InputNotUdp
     | Some u \<Rightarrow>
         if u_scheme u \<noteq> ''udp'' \<or> u_host u = [] then Inl InputNotUdp
         else (case parse_ip (url_hostname u) of
             None \<Rightarrow> Inl InputNotMulticast
           | Some ip \<Rightarrow>
               if \<not> is_multicast ip then Inl InputNotMulticast
               else if parse_int64 (url_port u) = None then Inl InputPortInvalid
               else Inr r))"

definition bad_destination :: "string \<Rightarrow> bool" where
  "bad_destination a \<longleftrightarrow> parse_ip a = None \<and>
     (length (trim_suffix a ''.'') > 253 \<or> \<not> hostname_pattern a)"

definition normalize_publish :: "relay \<Rightarrow> (relay_error, relay) result" where
  "normalize_publish r =
     (let r = r\<lparr>r_allow_missing_stream_id := False, r_default_client_id := [],
            r_destination_address := trim_space (r_destination_address r)\<rparr>
      in if bad_destination (r_destination_address r) then Inl DestinationAddressInvalid
         else if r_destination_port r < 1 \<or> r_destination_port r > 65535 then Inl DestinationPortInvalid
         else if trim_space (r_stream_id r) = [] \<or> length (r_stream_id r) > 512
              \<or> contains_any (r_stream_id r) [byte 13, byte 10, byte 0] then Inl StreamIdUnsafe
         else let r = (if r_encryption_mode r = [] then r\<lparr>r_encryption_mode := encryption_aes256\<rparr> else r)
         in if r_encryption_mode r \<noteq> encryption_aes256 \<and> r_encryption_mode r \<noteq> encryption_none
            then Inl RelayEncryptionInvalid
            else Inr (if r_key_version r < 1 then r\<lparr>r_key_version := 1\<rparr> else r))"

definition normalize_listener :: "relay \<Rightarrow> (relay_error, relay) result" where
  "normalize_listener r =
     (let r = (if r_bind_address r = [] then r\<lparr>r_bind_address := ''0.0.0.0''\<rparr> else r)
      in and_then
        (if r_allow_missing_stream_id r then
           let r = r\<lparr>r_default_client_id := trim_space (r_default_client_id r)\<rparr>
           in if id_pattern (r_default_client_id r) then Inr r else Inl DefaultClientInvalid
         else Inr (r\<lparr>r_default_client_id := []\<rparr>))
        (\<lambda>r. if parse_ip (r_bind_address r) = None then Inl BindAddressInvalid
             else if r_port r < 1 \<or> r_port r > 65535 then Inl PortInvalid
             else Inr r))"

text \<open>A limit left at zero takes its default; the value must lie in its range.\<close>

definition default_int :: "int \<Rightarrow> int \<Rightarrow> int" where
  "default_int d v = (if v = 0 then d else v)"

definition normalize_limits :: "relay \<Rightarrow> (relay_error, relay) result" where
  "normalize_limits r =
     (let r = r\<lparr>r_latency_ms := default_int 800 (r_latency_ms r)\<rparr> in
      if r_latency_ms r < 20 \<or> r_latency_ms r > 60000 then Inl LatencyInvalid else
      let r = r\<lparr>r_payload_size := default_int 1316 (r_payload_size r)\<rparr> in
      if r_payload_size r < 188 \<or> r_payload_size r > 1456 \<or> r_payload_size r mod 188 \<noteq> 0
      then Inl PayloadSizeInvalid else
      let r = r\<lparr>r_max_clients := default_int 16 (r_max_clients r)\<rparr> in
      if r_max_clients r < 1 \<or> r_max_clients r > 1000 then Inl MaxClientsInvalid else
      let r = r\<lparr>r_input_timeout_seconds := default_int 10 (r_input_timeout_seconds r)\<rparr> in
      if r_input_timeout_seconds r < 3 \<or> r_input_timeout_seconds r > 300 then Inl InputTimeoutInvalid
      else Inr r)"

definition normalize_relay :: "relay \<Rightarrow> (relay_error, relay) result" where
  "normalize_relay r =
     and_then (normalize_identity r) (\<lambda>r.
     and_then (check_input_url r) (\<lambda>r.
     and_then (if r_direction r = direction_publish then normalize_publish r else normalize_listener r)
       normalize_limits))"

subsection \<open>Clients\<close>

datatype client_error =
    ClientIdInvalid | ClientEncryptionInvalid | NoAllowedRelay | RelayUnknown string
  | RelayNotListener string | NoAllowedCidr | CidrInvalid nat | CidrUnrestricted nat
  | MaxSessionsInvalid

fun check_allowed_relays :: "(string, relay) gomap \<Rightarrow> string list \<Rightarrow> (client_error, unit) result" where
  "check_allowed_relays relays [] = Inr ()"
| "check_allowed_relays relays (relay_id # rest) = (case get relays relay_id of
     None \<Rightarrow> Inl (RelayUnknown relay_id)
   | Some relay \<Rightarrow>
       if r_direction relay \<noteq> direction_listener then Inl (RelayNotListener relay_id)
       else check_allowed_relays relays rest)"

fun normalize_cidrs :: "string \<Rightarrow> nat \<Rightarrow> string list \<Rightarrow> (client_error, string list) result" where
  "normalize_cidrs mode index [] = Inr []"
| "normalize_cidrs mode index (value # rest) = (case normalize_cidr value of
     None \<Rightarrow> Inl (CidrInvalid index)
   | Some normalized \<Rightarrow>
       if mode = encryption_none \<and> unrestricted_cidr normalized then Inl (CidrUnrestricted index)
       else and_then (normalize_cidrs mode (Suc index) rest) (\<lambda>ns. Inr (normalized # ns)))"

definition normalize_client :: "(string, relay) gomap \<Rightarrow> client \<Rightarrow> (client_error, client) result" where
  "normalize_client relays c =
     (if \<not> id_pattern (c_id c) then Inl ClientIdInvalid
      else let c = (if trim_space (c_name c) = [] then c\<lparr>c_name := c_id c\<rparr> else c);
               c = (if c_encryption_mode c = [] then c\<lparr>c_encryption_mode := encryption_aes256\<rparr> else c)
      in if c_encryption_mode c \<noteq> encryption_aes256 \<and> c_encryption_mode c \<noteq> encryption_none
         then Inl ClientEncryptionInvalid
         else if c_allowed_relay_ids c = [] then Inl NoAllowedRelay
         else and_then (check_allowed_relays relays (c_allowed_relay_ids c)) (\<lambda>_.
           let c = c\<lparr>c_allowed_relay_ids := sort (remdups (c_allowed_relay_ids c))\<rparr>
           in if c_allowed_cidrs c = [] then Inl NoAllowedCidr
              else and_then (normalize_cidrs (c_encryption_mode c) 0 (c_allowed_cidrs c)) (\<lambda>cidrs.
                let c = c\<lparr>c_allowed_cidrs := sort cidrs,
                      c_max_sessions := default_int 1 (c_max_sessions c)\<rparr>
                in if c_max_sessions c < 1 \<or> c_max_sessions c > 1000 then Inl MaxSessionsInvalid
                   else Inr (if c_key_version c < 1 then c\<lparr>c_key_version := 1\<rparr> else c))))"

text \<open>The compatibility default client of a listener relay.\<close>

datatype default_client_error =
    DefaultClientMissing string | DefaultClientDisabled string | DefaultClientUnassigned string string

definition validate_default_client ::
  "(string, client) gomap \<Rightarrow> relay \<Rightarrow> (default_client_error, unit) result" where
  "validate_default_client clients r =
     (if \<not> r_allow_missing_stream_id r then Inr ()
      else (case get clients (r_default_client_id r) of
          None \<Rightarrow> Inl (DefaultClientMissing (r_default_client_id r))
        | Some c \<Rightarrow>
            if \<not> c_enabled c then Inl (DefaultClientDisabled (r_default_client_id r))
            else if r_id r \<notin> set (c_allowed_relay_ids c)
            then Inl (DefaultClientUnassigned (r_default_client_id r) (r_id r))
            else Inr ()))"

subsection \<open>What a relay must be\<close>

definition input_url_ok :: "string \<Rightarrow> bool" where
  "input_url_ok raw \<longleftrightarrow> (\<exists>u ip. parse_url raw = Some u \<and> u_scheme u = ''udp'' \<and> u_host u \<noteq> []
     \<and> parse_ip (url_hostname u) = Some ip \<and> is_multicast ip \<and> parse_int64 (url_port u) \<noteq> None)"

definition publish_ok :: "relay \<Rightarrow> bool" where
  "publish_ok r \<longleftrightarrow> \<not> r_allow_missing_stream_id r \<and> r_default_client_id r = []
     \<and> trim_space (r_destination_address r) = r_destination_address r
     \<and> \<not> bad_destination (r_destination_address r)
     \<and> 1 \<le> r_destination_port r \<and> r_destination_port r \<le> 65535
     \<and> trim_space (r_stream_id r) \<noteq> [] \<and> length (r_stream_id r) \<le> 512
     \<and> \<not> contains_any (r_stream_id r) [byte 13, byte 10, byte 0]
     \<and> r_encryption_mode r \<in> {encryption_aes256, encryption_none} \<and> 1 \<le> r_key_version r"

definition listener_ok :: "relay \<Rightarrow> bool" where
  "listener_ok r \<longleftrightarrow> parse_ip (r_bind_address r) \<noteq> None \<and> 1 \<le> r_port r \<and> r_port r \<le> 65535
     \<and> (if r_allow_missing_stream_id r
        then trim_space (r_default_client_id r) = r_default_client_id r \<and> id_pattern (r_default_client_id r)
        else r_default_client_id r = [])"

definition limits_ok :: "relay \<Rightarrow> bool" where
  "limits_ok r \<longleftrightarrow> 20 \<le> r_latency_ms r \<and> r_latency_ms r \<le> 60000
     \<and> 188 \<le> r_payload_size r \<and> r_payload_size r \<le> 1456 \<and> r_payload_size r mod 188 = 0
     \<and> 1 \<le> r_max_clients r \<and> r_max_clients r \<le> 1000
     \<and> 3 \<le> r_input_timeout_seconds r \<and> r_input_timeout_seconds r \<le> 300"

definition relay_ok :: "relay \<Rightarrow> bool" where
  "relay_ok r \<longleftrightarrow> id_pattern (r_id r) \<and> trim_space (r_name r) \<noteq> [] \<and> input_url_ok (r_input_url r)
     \<and> (r_direction r = direction_publish \<and> publish_ok r \<or> r_direction r = direction_listener \<and> listener_ok r)
     \<and> limits_ok r"

definition fill_side :: "relay \<Rightarrow> relay" where
  "fill_side r =
     (if r_direction r = direction_publish
      then r\<lparr>r_allow_missing_stream_id := False, r_default_client_id := [],
             r_destination_address := trim_space (r_destination_address r),
             r_encryption_mode := (if r_encryption_mode r = [] then encryption_aes256 else r_encryption_mode r),
             r_key_version := max 1 (r_key_version r)\<rparr>
      else r\<lparr>r_bind_address := (if r_bind_address r = [] then ''0.0.0.0'' else r_bind_address r),
             r_default_client_id := (if r_allow_missing_stream_id r then trim_space (r_default_client_id r) else [])\<rparr>)"

definition fill_relay :: "relay \<Rightarrow> relay" where
  "fill_relay r = (let r = fill_side (r\<lparr>
       r_name := (if trim_space (r_name r) = [] then r_id r else r_name r),
       r_direction := (if r_direction r = [] then direction_listener else r_direction r)\<rparr>)
     in r\<lparr>r_latency_ms := default_int 800 (r_latency_ms r), r_payload_size := default_int 1316 (r_payload_size r),
          r_max_clients := default_int 16 (r_max_clients r),
          r_input_timeout_seconds := default_int 10 (r_input_timeout_seconds r)\<rparr>)"

subsection \<open>Lemmas on relays\<close>

lemma alnum_graphic: "is_alnum c \<Longrightarrow> graphic c"
  by (auto simp: is_alnum_def graphic_def Let_def)

lemma id_pattern_graphic: "id_pattern s \<Longrightarrow> list_all graphic s \<and> s \<noteq> []"
proof -
  assume i: "id_pattern s"
  then obtain c cs where s: "s = c # cs" by (cases s) (auto simp: id_pattern_def)
  have "graphic x" if "x \<in> set ''_.-''" for x using that by (auto simp: graphic_def)
  with i s show ?thesis
    by (auto simp: id_pattern_def list_all_iff dest: alnum_graphic)
qed

lemma id_pattern_trim [simp]: "id_pattern s \<Longrightarrow> trim_space s = s"
  using id_pattern_graphic trim_space_all_graphic by blast

lemma id_pattern_not_Nil [simp]: "\<not> id_pattern []"
  by (simp add: id_pattern_def)

lemma input_url_iff: "check_input_url r = Inr r' \<longleftrightarrow> r' = r \<and> input_url_ok (r_input_url r)"
  by (auto simp: check_input_url_def input_url_ok_def split: option.splits)

lemma identity_iff:
  "normalize_identity r = Inr r' \<longleftrightarrow> id_pattern (r_id r)
     \<and> r' = r\<lparr>r_name := (if trim_space (r_name r) = [] then r_id r else r_name r),
            r_direction := (if r_direction r = [] then direction_listener else r_direction r)\<rparr>
     \<and> r_direction r' \<in> {direction_listener, direction_publish}"
  by (auto simp: normalize_identity_def Let_def mode_defs)

lemma publish_iff:
  "r_direction r = direction_publish \<Longrightarrow>
    normalize_publish r = Inr r' \<longleftrightarrow> r' = fill_side r \<and> publish_ok r'"
  by (auto simp: normalize_publish_def fill_side_def publish_ok_def Let_def max_def mode_defs)

lemma listener_iff:
  "r_direction r = direction_listener \<Longrightarrow>
    normalize_listener r = Inr r' \<longleftrightarrow> r' = fill_side r \<and> listener_ok r'"
  by (auto simp: normalize_listener_def fill_side_def listener_ok_def Let_def mode_defs)

lemma limits_iff:
  "normalize_limits r = Inr r' \<longleftrightarrow>
     r' = r\<lparr>r_latency_ms := default_int 800 (r_latency_ms r), r_payload_size := default_int 1316 (r_payload_size r),
          r_max_clients := default_int 16 (r_max_clients r),
          r_input_timeout_seconds := default_int 10 (r_input_timeout_seconds r)\<rparr> \<and> limits_ok r'"
  by (auto simp: normalize_limits_def limits_ok_def Let_def)

lemma fill_side_keeps:
  "r_id (fill_side r) = r_id r" "r_name (fill_side r) = r_name r"
  "r_direction (fill_side r) = r_direction r" "r_input_url (fill_side r) = r_input_url r"
  by (simp_all add: fill_side_def)

lemma publish_ok_limits: "publish_ok (r\<lparr>r_latency_ms := a, r_payload_size := b, r_max_clients := c,
    r_input_timeout_seconds := d\<rparr>) \<longleftrightarrow> publish_ok r"
  by (simp add: publish_ok_def)

lemma listener_ok_limits: "listener_ok (r\<lparr>r_latency_ms := a, r_payload_size := b, r_max_clients := c,
    r_input_timeout_seconds := d\<rparr>) \<longleftrightarrow> listener_ok r"
  by (simp add: listener_ok_def)

lemma directions_differ [simp]: "direction_publish \<noteq> direction_listener"
  by (simp add: mode_defs)

text \<open>Acceptance and result of \<open>normalize_relay\<close>, stage by stage.\<close>

lemma normalize_relay_iff: "normalize_relay r = Inr r' \<longleftrightarrow> r' = fill_relay r \<and> relay_ok r'"
proof -
  let ?r1 = "r\<lparr>r_name := (if trim_space (r_name r) = [] then r_id r else r_name r),
       r_direction := (if r_direction r = [] then direction_listener else r_direction r)\<rparr>"
  let ?side = "if r_direction ?r1 = direction_publish then normalize_publish ?r1 else normalize_listener ?r1"
  have "normalize_relay r = Inr r' \<longleftrightarrow> id_pattern (r_id r)
      \<and> r_direction ?r1 \<in> {direction_listener, direction_publish} \<and> input_url_ok (r_input_url r)
      \<and> (\<exists>r2. ?side = Inr r2 \<and> normalize_limits r2 = Inr r')"
    unfolding normalize_relay_def and_then_Inr identity_iff input_url_iff by auto
  also have "\<dots> \<longleftrightarrow> r' = fill_relay r \<and> relay_ok r'"
  proof (cases "r_direction ?r1 = direction_publish")
    case True
    show ?thesis
      unfolding if_P [OF True] publish_iff [OF True] limits_iff
      using True
      by (auto simp: fill_relay_def Let_def relay_ok_def fill_side_keeps publish_ok_limits)
  next
    case False
    show ?thesis
    proof (cases "r_direction ?r1 = direction_listener")
      case True
      show ?thesis
        unfolding if_not_P [OF False] listener_iff [OF True] limits_iff
        using True False
        by (auto simp: fill_relay_def Let_def relay_ok_def fill_side_keeps listener_ok_limits)
    next
      case other: False
      then show ?thesis
        using False by (auto simp: fill_relay_def Let_def relay_ok_def fill_side_keeps)
    qed
  qed
  finally show ?thesis .
qed

lemma fill_side_ok:
  "r_direction r = direction_publish \<and> publish_ok r \<or> r_direction r = direction_listener \<and> listener_ok r
    \<Longrightarrow> fill_side r = r"
proof (elim disjE conjE)
  assume "r_direction r = direction_publish" "publish_ok r"
  then show ?thesis
    by (cases r) (auto simp: fill_side_def publish_ok_def mode_defs)
next
  have "parse_ip [] = None" by (simp add: parse_ip_def parse_addr_def)
  moreover assume "r_direction r = direction_listener" "listener_ok r"
  ultimately show ?thesis
    by (cases r) (auto simp: fill_side_def listener_ok_def mode_defs)
qed

lemma default_int_pos: "0 < v \<Longrightarrow> default_int d v = v"
  by (simp add: default_int_def)

lemma fill_relay_ok: "relay_ok r \<Longrightarrow> fill_relay r = r"
proof -
  assume ok: "relay_ok r"
  then have "r\<lparr>r_name := (if trim_space (r_name r) = [] then r_id r else r_name r),
       r_direction := (if r_direction r = [] then direction_listener else r_direction r)\<rparr> = r"
    by (cases r) (auto simp: relay_ok_def mode_defs)
  moreover have "fill_side r = r"
    using ok by (intro fill_side_ok) (auto simp: relay_ok_def)
  moreover have "r\<lparr>r_latency_ms := default_int 800 (r_latency_ms r), r_payload_size := default_int 1316 (r_payload_size r),
      r_max_clients := default_int 16 (r_max_clients r),
      r_input_timeout_seconds := default_int 10 (r_input_timeout_seconds r)\<rparr> = r"
    using ok by (cases r) (auto simp: relay_ok_def limits_ok_def default_int_pos)
  ultimately show ?thesis by (simp add: fill_relay_def)
qed

lemma normalize_relay_fixed: "normalize_relay r = Inr r \<longleftrightarrow> relay_ok r"
  using normalize_relay_iff [of r r] fill_relay_ok [of r] by auto

lemma normalize_relay_id: "normalize_relay r = Inr r' \<Longrightarrow> r_id r' = r_id r"
  by (simp add: normalize_relay_iff fill_relay_def Let_def fill_side_keeps)

lemma relay_ok_key: "relay_ok r \<Longrightarrow> 1 \<le> k \<Longrightarrow> relay_ok (r\<lparr>r_key_version := k\<rparr>)"
  by (auto simp: relay_ok_def publish_ok_def listener_ok_def limits_ok_def)

subsection \<open>What a client must be\<close>

definition network_ok :: "string \<Rightarrow> string \<Rightarrow> bool" where
  "network_ok mode s \<longleftrightarrow> normalize_cidr s = Some s \<and> (mode = encryption_none \<longrightarrow> \<not> unrestricted_cidr s)"

definition assigned_to :: "(string, relay) gomap \<Rightarrow> string \<Rightarrow> bool" where
  "assigned_to relays relay_id \<longleftrightarrow> (\<exists>r. get relays relay_id = Some r \<and> r_direction r = direction_listener)"

definition client_shape :: "client \<Rightarrow> bool" where
  "client_shape c \<longleftrightarrow> id_pattern (c_id c) \<and> trim_space (c_name c) \<noteq> []
     \<and> c_encryption_mode c \<in> {encryption_aes256, encryption_none}
     \<and> c_allowed_relay_ids c \<noteq> [] \<and> sorted (c_allowed_relay_ids c) \<and> distinct (c_allowed_relay_ids c)
     \<and> c_allowed_cidrs c \<noteq> [] \<and> sorted (c_allowed_cidrs c)
     \<and> list_all (network_ok (c_encryption_mode c)) (c_allowed_cidrs c)
     \<and> 1 \<le> c_max_sessions c \<and> c_max_sessions c \<le> 1000 \<and> 1 \<le> c_key_version c"

definition client_ok :: "(string, relay) gomap \<Rightarrow> client \<Rightarrow> bool" where
  "client_ok relays c \<longleftrightarrow> client_shape c \<and> list_all (assigned_to relays) (c_allowed_relay_ids c)"

subsection \<open>Lemmas on clients\<close>

lemma check_allowed_relays_iff:
  "check_allowed_relays relays ids = Inr u \<longleftrightarrow> list_all (assigned_to relays) ids"
  by (induction ids) (auto simp: assigned_to_def split: option.splits)

lemma normalize_cidrs_iff:
  "normalize_cidrs mode i vs = Inr ns \<longleftrightarrow>
    map normalize_cidr vs = map Some ns \<and> list_all (network_ok mode) ns"
proof (induction vs arbitrary: i ns)
  case (Cons v vs)
  show ?case
    by (cases ns)
      (auto simp: and_then_Inr Cons.IH network_ok_def normalize_cidr_fixed split: option.splits if_splits)
qed auto

lemma normalize_cidrs_fixed: "list_all (network_ok mode) ns \<Longrightarrow> normalize_cidrs mode i ns = Inr ns"
  by (auto simp: normalize_cidrs_iff list_all_iff network_ok_def)

text \<open>The result of \<open>normalize_client\<close>, field by field.\<close>

lemma normalize_client_result:
  "normalize_client relays c = Inr c' \<Longrightarrow>
    (\<exists>ns. map normalize_cidr (c_allowed_cidrs c) = map Some ns \<and> list_all (network_ok (c_encryption_mode c')) ns
      \<and> c' = c\<lparr>c_name := (if trim_space (c_name c) = [] then c_id c else c_name c),
          c_encryption_mode := (if c_encryption_mode c = [] then encryption_aes256 else c_encryption_mode c),
          c_allowed_relay_ids := sort (remdups (c_allowed_relay_ids c)),
          c_allowed_cidrs := sort ns, c_max_sessions := default_int 1 (c_max_sessions c),
          c_key_version := max 1 (c_key_version c)\<rparr>)
    \<and> id_pattern (c_id c) \<and> c_encryption_mode c' \<in> {encryption_aes256, encryption_none}
    \<and> c_allowed_relay_ids c \<noteq> [] \<and> list_all (assigned_to relays) (c_allowed_relay_ids c)
    \<and> c_allowed_cidrs c \<noteq> [] \<and> 1 \<le> c_max_sessions c' \<and> c_max_sessions c' \<le> 1000"
  by (auto simp: normalize_client_def Let_def and_then_Inr check_allowed_relays_iff normalize_cidrs_iff
      max_def split: if_splits)

lemma normalize_client_ok: "normalize_client relays c = Inr c' \<Longrightarrow> client_ok relays c'"
proof -
  assume n: "normalize_client relays c = Inr c'"
  from normalize_client_result [OF this] obtain ns where
    ns: "map normalize_cidr (c_allowed_cidrs c) = map Some ns" "list_all (network_ok (c_encryption_mode c')) ns"
    and c': "c' = c\<lparr>c_name := (if trim_space (c_name c) = [] then c_id c else c_name c),
          c_encryption_mode := (if c_encryption_mode c = [] then encryption_aes256 else c_encryption_mode c),
          c_allowed_relay_ids := sort (remdups (c_allowed_relay_ids c)),
          c_allowed_cidrs := sort ns, c_max_sessions := default_int 1 (c_max_sessions c),
          c_key_version := max 1 (c_key_version c)\<rparr>" by blast
  have "ns \<noteq> []" using ns(1) normalize_client_result [OF n] by auto
  then have "sort ns \<noteq> []" by (metis set_empty set_sort)
  moreover have "sort (remdups (c_allowed_relay_ids c)) \<noteq> []"
    using normalize_client_result [OF n] by (metis set_empty set_sort set_remdups)
  ultimately show ?thesis
    using normalize_client_result [OF n] ns(2)
    by (auto simp: client_ok_def client_shape_def c' list_all_iff)
qed

lemma normalize_client_fixed: "client_ok relays c \<Longrightarrow> normalize_client relays c = Inr c"
proof -
  assume ok: "client_ok relays c"
  then have "sort (remdups (c_allowed_relay_ids c)) = c_allowed_relay_ids c"
    "sort (c_allowed_cidrs c) = c_allowed_cidrs c"
    by (auto simp: client_ok_def client_shape_def distinct_remdups_id sorted_sort_id)
  moreover have "check_allowed_relays relays (c_allowed_relay_ids c) = Inr ()"
    using ok by (simp add: check_allowed_relays_iff client_ok_def)
  ultimately show ?thesis using ok
    by (cases c)
      (auto simp: normalize_client_def client_ok_def client_shape_def Let_def normalize_cidrs_fixed default_int_pos mode_defs)
qed

lemma validate_default_iff:
  "validate_default_client clients r = Inr u \<longleftrightarrow>
    (r_allow_missing_stream_id r \<longrightarrow> (\<exists>c. get clients (r_default_client_id r) = Some c
      \<and> c_enabled c \<and> r_id r \<in> set (c_allowed_relay_ids c)))"
  by (auto simp: validate_default_client_def split: option.splits)

text \<open>A relay up to its key version, which updates copy from the relay they replace.\<close>

definition relay_shape :: "relay \<Rightarrow> bool" where
  "relay_shape r \<longleftrightarrow> relay_ok (r\<lparr>r_key_version := 1\<rparr>)"

definition loaded_key :: "relay \<Rightarrow> int" where
  "loaded_key r = (if r_direction r = direction_publish then max 1 (r_key_version r) else r_key_version r)"

lemma relay_ok_publish_key: "relay_ok r \<Longrightarrow> r_direction r = direction_publish \<Longrightarrow> 1 \<le> r_key_version r"
  by (auto simp: relay_ok_def publish_ok_def)

lemma relay_shape_ok:
  "relay_shape r \<Longrightarrow> r_direction r = direction_publish \<longrightarrow> 1 \<le> r_key_version r \<Longrightarrow> relay_ok r"
  by (auto simp: relay_shape_def relay_ok_def publish_ok_def listener_ok_def limits_ok_def)

lemma relay_ok_shape: "relay_ok r \<Longrightarrow> relay_shape (r\<lparr>r_key_version := k\<rparr>)"
  by (auto simp: relay_shape_def relay_ok_def publish_ok_def listener_ok_def limits_ok_def)

lemma relay_shape_key [simp]: "relay_shape (r\<lparr>r_key_version := k\<rparr>) \<longleftrightarrow> relay_shape r"
  by (simp add: relay_shape_def)

lemma relay_ok_imp_shape: "relay_ok r \<Longrightarrow> relay_shape r"
  using relay_ok_shape [of r "r_key_version r"] by simp

text \<open>Reading a relay of that shape back changes at most its key version.\<close>

lemma normalize_shape:
  assumes "relay_shape r"
  shows "normalize_relay r = Inr (r\<lparr>r_key_version := loaded_key r\<rparr>)"
proof -
  let ?r = "r\<lparr>r_key_version := loaded_key r\<rparr>"
  have ok: "relay_ok ?r"
    using assms by (intro relay_shape_ok) (auto simp: loaded_key_def)
  have "fill_relay r = ?r"
  proof (cases "r_direction r = direction_publish")
    case True
    have f: "fill_relay (r\<lparr>r_key_version := k\<rparr>) = (fill_relay r)\<lparr>r_key_version := max 1 k\<rparr>"
      and g: "r_key_version (fill_relay r) = max 1 (r_key_version r)" for k
      using True by (simp_all add: fill_relay_def fill_side_def Let_def mode_defs)
    have "?r = (fill_relay r)\<lparr>r_key_version := max 1 (loaded_key r)\<rparr>"
      using f [of "loaded_key r"] fill_relay_ok [OF ok] by simp
    also have "\<dots> = (fill_relay r)\<lparr>r_key_version := r_key_version (fill_relay r)\<rparr>"
      using g True by (simp add: loaded_key_def)
    finally show ?thesis by simp
  next
    case False
    then have "?r = r" by (simp add: loaded_key_def)
    then show ?thesis using fill_relay_ok [OF ok] by simp
  qed
  then show ?thesis using ok normalize_relay_iff by simp
qed

subsection \<open>Properties\<close>

text \<open>
  C10: \<open>normalizeRelay\<close> accepts exactly the relays whose filled form is acceptable, returns
  that form, and leaves an accepted relay unchanged when it is read back from the state file.
\<close>

theorem normalize_relay_accepts:
  "case normalize_relay r of
     Inr r' \<Rightarrow> r' = fill_relay r \<and> relay_ok r' \<and> normalize_relay r' = Inr r'
   | Inl e \<Rightarrow> \<not> relay_ok (fill_relay r)"
proof (cases "normalize_relay r")
  case (Inl e)
  then show ?thesis using normalize_relay_iff [of r "fill_relay r"] by simp
next
  case (Inr r')
  then have r': "r' = fill_relay r" "relay_ok r'" using normalize_relay_iff by blast+
  then have "normalize_relay r' = Inr r'" by (simp only: normalize_relay_fixed)
  then show ?thesis unfolding Inr using r' by simp
qed

text \<open>
  C11: \<open>normalizeClientLocked\<close> returns only well-formed clients: known listener relays without
  duplicates in order, normalized networks that are never unrestricted without encryption,
  1 to 1000 sessions; and it leaves such a client unchanged when the state is loaded again.
\<close>

theorem normalize_client_establishes:
  "case normalize_client relays c of
     Inr c' \<Rightarrow> client_ok relays c' \<and> c_id c' = c_id c \<and> c_enabled c' = c_enabled c
       \<and> set (c_allowed_relay_ids c') = set (c_allowed_relay_ids c)
       \<and> normalize_client relays c' = Inr c'
   | Inl e \<Rightarrow> \<not> client_ok relays c"
proof (cases "normalize_client relays c")
  case (Inl e)
  then show ?thesis using normalize_client_fixed [of relays c] by auto
next
  case (Inr c')
  then show ?thesis
    using normalize_client_ok [OF Inr] normalize_client_fixed [of relays c'] normalize_client_result [OF Inr]
    by auto
qed

text \<open>
  Every network an accepted client without encryption is allowed from leaves out some
  address of its own family, so that an unencrypted client is never open to the whole
  IPv4 or IPv6 address space.
\<close>

theorem unencrypted_client_restricted:
  assumes "normalize_client relays c = Inr c'" and "c_encryption_mode c' = encryption_none"
    and "s \<in> set (c_allowed_cidrs c')"
  shows "\<exists>n x. parse_cidr s = Some n \<and> \<not> net_contains n x
    \<and> length (canonical x) = length (canonical (net_ip n))"
proof -
  have "network_ok encryption_none s"
    using normalize_client_ok [OF assms(1)] assms(2,3) by (auto simp: client_ok_def client_shape_def list_all_iff)
  then have u: "\<not> unrestricted_cidr s" and "normalize_cidr s = Some s" by (auto simp: network_ok_def)
  then obtain ip k where s: "s = ip_string ip @ ''/'' @ show_nat k" and f: "net_form ip k"
    using normalize_cidr_form by blast
  obtain x where "length (canonical x) = length ip" "\<not> covers s x"
    using u unrestricted_covers_all [OF f] s by auto
  moreover have "canonical ip = ip"
    using f by (auto simp: canonical_def net_form_def ip_len_def to4_def)
  ultimately show ?thesis
    using net_form_reparse(1) [OF f] s by (auto simp: covers_def)
qed

lemma unencrypted_client_restricted_witness:
  "\<exists>n x. parse_cidr ''10.0.0.0/8'' = Some n \<and> \<not> net_contains n x
    \<and> length (canonical x) = length (canonical (net_ip n))"
proof (rule unencrypted_client_restricted)
  let ?c = "zero_client\<lparr>c_id := ''alice'', c_encryption_mode := encryption_none,
      c_allowed_relay_ids := [''live''], c_allowed_cidrs := ['' 10.1.2.3/8'']\<rparr>"
  show "normalize_client [(''live'', zero_relay\<lparr>r_direction := direction_listener\<rparr>)] ?c =
      Inr (?c\<lparr>c_name := ''alice'', c_allowed_cidrs := [''10.0.0.0/8''], c_max_sessions := 1, c_key_version := 1\<rparr>)"
    by code_simp
qed (simp_all add: mode_defs)

end
