(* ===== verification/GoDate.thy ===== *)
theory GoDate
  imports GoStrings
begin

text \<open>
  Civil dates of Go's \<open>time\<close> package in UTC: \<open>Format("2006-01-02")\<close> and \<open>Parse\<close> with the
  same layout. A day is its number since 1 January of year 1, the day of the zero time.
  A formatted day parses back to the same day for the years 1 to 9999
  (\<open>parse_format_day\<close>).
\<close>

definition leap_year :: "int \<Rightarrow> bool" where
  "leap_year y \<longleftrightarrow> y mod 4 = 0 \<and> (y mod 100 \<noteq> 0 \<or> y mod 400 = 0)"

definition year_days :: "int \<Rightarrow> int" where
  "year_days y = (if leap_year y then 366 else 365)"

definition month_days :: "int \<Rightarrow> int list" where
  "month_days y = [31, if leap_year y then 29 else 28, 31, 30, 31, 30, 31, 31, 30, 31, 30, 31]"

definition day_number :: "gotime \<Rightarrow> int" where
  "day_number t = nanos t div (86400 * 1000000000)"

text \<open>From the days left in year \<open>y\<close> on: the year and the day of the year.\<close>

function split_year :: "int \<Rightarrow> int \<Rightarrow> int \<times> int" where
  "split_year y n = (if n < year_days y then (y, n) else split_year (y + 1) (n - year_days y))"
  by pat_completeness auto
termination
  by (relation "measure (\<lambda>(y, n). nat n)") (auto simp: year_days_def split: if_splits)

declare split_year.simps [simp del]

fun split_month :: "int \<Rightarrow> int list \<Rightarrow> int \<Rightarrow> int \<times> int" where
  "split_month m [] n = (m, n)"
| "split_month m (l # ls) n = (if n < l then (m, n) else split_month (m + 1) ls (n - l))"

definition pad_number :: "nat \<Rightarrow> int \<Rightarrow> string" where
  "pad_number w v = (let s = show_nat (nat v) in replicate (w - length s) (CHR ''0'') @ s)"

definition format_day :: "int \<Rightarrow> string" where
  "format_day d = (let (y, n) = split_year 1 d; (m, k) = split_month 1 (month_days y) n in
     pad_number 4 y @ ''-'' @ pad_number 2 m @ ''-'' @ pad_number 2 (k + 1))"

definition days_before_year :: "int \<Rightarrow> int" where
  "days_before_year y = 365 * (y - 1) + (y - 1) div 4 - (y - 1) div 100 + (y - 1) div 400"

definition parse_date :: "string \<Rightarrow> int option" where
  "parse_date s =
     (if length s = 10 \<and> s ! 4 = CHR ''-'' \<and> s ! 7 = CHR ''-''
         \<and> list_all is_digit (take 4 s @ take 2 (drop 5 s) @ drop 8 s) then
        let y = int (digits_value (take 4 s));
            m = digits_value (take 2 (drop 5 s));
            d = digits_value (drop 8 s)
        in if 1 \<le> m \<and> m \<le> 12 \<and> 1 \<le> d \<and> int d \<le> month_days y ! (m - 1)
           then Some (days_before_year y + sum_list (take (m - 1) (month_days y)) + int d - 1)
           else None
      else None)"

lemma div_next:
  fixes x k :: int
  assumes "0 < k"
  shows "(x + 1) div k = x div k + (if (x + 1) mod k = 0 then 1 else 0)"
proof -
  define q r where "q = x div k" and "r = x mod k"
  have x: "x + 1 = (r + 1) + k * q" and r: "0 \<le> r" "r < k"
    using assms by (simp_all add: q_def r_def)
  have d: "(x + 1) div k = (r + 1) div k + q" and m: "(x + 1) mod k = (r + 1) mod k"
    unfolding x using assms by simp_all
  show ?thesis
  proof (cases "r + 1 = k")
    case True
    then show ?thesis using d m assms by (simp add: q_def)
  next
    case False
    then have "0 < r + 1" "r + 1 < k" using r by auto
    then show ?thesis using d m by (simp add: q_def div_pos_pos_trivial mod_pos_pos_trivial)
  qed
qed

lemma div_prev: "0 < k \<Longrightarrow> y div k = (y - 1) div k + (if y mod k = 0 then 1 else 0)" for y k :: int
  using div_next [of k "y - 1"] by (simp only: diff_add_cancel)

lemma days_next_year: "days_before_year (y + 1) = days_before_year y + year_days y"
proof -
  have "y mod 400 mod 100 = y mod 100" "y mod 100 mod 4 = y mod 4"
    by (simp_all add: mod_mod_cancel)
  then have nest: "y mod 400 = 0 \<longrightarrow> y mod 100 = 0" "y mod 100 = 0 \<longrightarrow> y mod 4 = 0"
    by (metis mod_0)+
  define p q r where "p \<longleftrightarrow> y mod 4 = 0" and "q \<longleftrightarrow> y mod 100 = 0" and "r \<longleftrightarrow> y mod 400 = 0"
  define a b c where "a = (y - 1) div 4" and "b = (y - 1) div 100" and "c = (y - 1) div 400"
  have e: "y div 4 = a + (if p then 1 else 0)" "y div 100 = b + (if q then 1 else 0)"
    "y div 400 = c + (if r then 1 else 0)"
    unfolding a_def b_def c_def p_def q_def r_def by (rule div_prev, simp)+
  have "days_before_year (y + 1) = 365 * y + y div 4 - y div 100 + y div 400"
    by (simp add: days_before_year_def)
  moreover have "days_before_year y = 365 * (y - 1) + a - b + c"
    by (simp add: days_before_year_def a_def b_def c_def)
  moreover have "year_days y = (if p \<and> (\<not> q \<or> r) then 366 else 365)"
    by (simp add: year_days_def leap_year_def p_def q_def r_def)
  moreover have "r \<longrightarrow> q" "q \<longrightarrow> p" using nest by (simp_all add: p_def q_def r_def)
  ultimately show ?thesis
    unfolding e by (cases p; cases q; cases r) simp_all
qed

lemma split_year_days:
  "0 \<le> n \<Longrightarrow> split_year y n = (y', k) \<Longrightarrow>
    days_before_year y' + k = days_before_year y + n \<and> 0 \<le> k \<and> k < year_days y' \<and> y \<le> y'"
proof (induction y n rule: split_year.induct)
  case (1 y n)
  show ?case
  proof (cases "n < year_days y")
    case True
    then show ?thesis using 1 by (simp add: split_year.simps [of y n])
  next
    case False
    then show ?thesis
      using 1 days_next_year [of y] by (simp add: split_year.simps [of y n])
  qed
qed

lemma split_month_days:
  "0 \<le> n \<Longrightarrow> n < sum_list ls \<Longrightarrow> split_month m ls n = (m', k) \<Longrightarrow>
    \<exists>i. m' = m + int i \<and> i < length ls \<and> n = sum_list (take i ls) + k \<and> 0 \<le> k \<and> k < ls ! i"
proof (induction ls arbitrary: m n)
  case (Cons l ls)
  show ?case
  proof (cases "n < l")
    case True
    then show ?thesis using Cons.prems by (intro exI [of _ 0]) auto
  next
    case False
    then obtain i where "m' = m + 1 + int i" "i < length ls" "n - l = sum_list (take i ls) + k"
      "0 \<le> k" "k < ls ! i"
      using Cons.IH [of "n - l" "m + 1"] Cons.prems by auto
    then show ?thesis by (intro exI [of _ "Suc i"]) auto
  qed
qed simp

lemma sum_month_days: "sum_list (month_days y) = year_days y"
  by (simp add: month_days_def year_days_def)

lemma length_month_days: "length (month_days y) = 12"
  by (simp add: month_days_def)

lemma month_days_bounds: "i < 12 \<Longrightarrow> month_days y ! i \<le> 31"
  by (auto simp: month_days_def less_Suc_eq numeral_eq_Suc)

lemma length_show_nat: "n < 10 ^ Suc w \<Longrightarrow> length (show_nat n) \<le> Suc w"
proof (induction w arbitrary: n)
  case 0
  then show ?case by (simp add: show_nat.simps [of n])
next
  case (Suc w)
  then have "n div 10 < 10 ^ Suc w" by (simp add: less_mult_imp_div_less)
  then show ?case using Suc.IH [of "n div 10"] by (simp add: show_nat.simps [of n])
qed

lemma digits_value_zeros: "digits_value (replicate k (CHR ''0'') @ s) = digits_value s"
  by (induction k) (auto simp: digits_value_def)

lemma pad_number_facts:
  assumes "0 \<le> v" "v < 10 ^ Suc w"
  shows "length (pad_number (Suc w) v) = Suc w" "list_all is_digit (pad_number (Suc w) v)"
    "digits_value (pad_number (Suc w) v) = nat v"
proof -
  have "nat v < 10 ^ Suc w" using assms by (simp add: nat_less_iff)
  then show "length (pad_number (Suc w) v) = Suc w"
    using length_show_nat [of "nat v" w] by (simp add: pad_number_def Let_def)
  show "list_all is_digit (pad_number (Suc w) v)"
    using show_nat_digits [of "nat v"] by (auto simp: pad_number_def Let_def list_all_iff is_digit_def)
  show "digits_value (pad_number (Suc w) v) = nat v"
    by (simp add: pad_number_def Let_def digits_value_zeros show_nat_value)
qed

lemma parse_date_parts:
  assumes "length a = 4" "length b = 2" "length c = 2"
    "list_all is_digit a" "list_all is_digit b" "list_all is_digit c"
    "1 \<le> digits_value b" "digits_value b \<le> 12" "1 \<le> digits_value c"
    "int (digits_value c) \<le> month_days (int (digits_value a)) ! (digits_value b - 1)"
  shows "parse_date (a @ ''-'' @ b @ ''-'' @ c) = Some (days_before_year (int (digits_value a))
    + sum_list (take (digits_value b - 1) (month_days (int (digits_value a)))) + int (digits_value c) - 1)"
proof -
  let ?s = "a @ ''-'' @ b @ ''-'' @ c"
  have "length ?s = 10" "?s ! 4 = CHR ''-''" "?s ! 7 = CHR ''-''" "take 4 ?s = a"
    "take 2 (drop 5 ?s) = b" "drop 8 ?s = c"
    using assms(1-3) by (simp_all add: nth_append)
  then show ?thesis unfolding parse_date_def using assms(4-) by (simp add: Let_def)
qed

text \<open>The year of a day, and the days whose year has four digits.\<close>

definition year_of_day :: "int \<Rightarrow> int" where
  "year_of_day d = fst (split_year 1 d)"

lemma month_index: "nat (1 + int i) - Suc 0 = i"
  by simp

lemma parse_format_day:
  assumes "0 \<le> d" "year_of_day d \<le> 9999"
  shows "parse_date (format_day d) = Some d"
proof -
  obtain y n where yn: "split_year 1 d = (y, n)" by fastforce
  obtain m k where mk: "split_month 1 (month_days y) n = (m, k)" by fastforce
  have y: "days_before_year y + n = d" "0 \<le> n" "n < year_days y" "1 \<le> y" "y \<le> 9999"
    using split_year_days [OF assms(1) yn] assms(2) yn
    by (simp_all add: year_of_day_def days_before_year_def [of 1])
  obtain i where i: "m = 1 + int i" "i < 12" "n = sum_list (take i (month_days y)) + k"
    "0 \<le> k" "k < month_days y ! i"
    using split_month_days [OF y(2) _ mk] y(3) by (auto simp: sum_month_days length_month_days)
  have k: "k + 1 < 10 ^ Suc 1" using i month_days_bounds [of i y] by simp
  have "format_day d = pad_number (Suc 3) y @ ''-'' @ pad_number (Suc 1) m @ ''-'' @ pad_number (Suc 1) (k + 1)"
    by (simp add: format_day_def yn mk numeral_eq_Suc)
  moreover have "y < 10 ^ Suc 3" "m < 10 ^ Suc 1" "0 \<le> m" using y i by auto
  ultimately show ?thesis
    using pad_number_facts [of y 3] pad_number_facts [of m 1] pad_number_facts [OF _ k] y i
    by (subst \<open>format_day d = _\<close>, subst parse_date_parts) (auto simp: month_index)
qed

end
