(* ===== verification/SrtAudit.thy ===== *)
theory SrtAudit
  imports SrtModels GoDate Base64
begin

text \<open>
  The audit log (\<open>internal/srtrelay/audit.go\<close>): one file of JSON lines per day in a
  directory. The directory is a map from file names to contents, bytes as they are on disk.
  The JSON codec is a parameter (\<open>enc\<close>, \<open>dec\<close>); outcomes of system calls are inputs.
  \<open>audit_list\<close> reads each file through a ring buffer and is shown to return the newest
  matching events (\<open>audit_list_newest\<close>); clearing removes exactly the matching ones.
\<close>

type_synonym audit_dir = "(string, string) gomap"
type_synonym audit_enc = "audit_event \<Rightarrow> string option"
type_synonym audit_dec = "string \<Rightarrow> audit_event option"

record audit_filter =
  f_relay_id :: string
  f_client_id :: string
  f_type :: string
  f_limit :: int

datatype audit_error =
    RandomFailed | MarshalFailed | OpenFailed | WriteFailed | SyncFailed | ReadDirFailed
  | ScanTooLong | RewriteFailed | RemoveFailed | AuditDirRequired | AuditRetentionInvalid

definition new_audit_store :: "string \<Rightarrow> int \<Rightarrow> (audit_error, int) result" where
  "new_audit_store dir retention_days =
     (if dir = [] then Inl AuditDirRequired
      else if retention_days < 1 then Inl AuditRetentionInvalid
      else Inr retention_days)"

definition audit_matches :: "audit_filter \<Rightarrow> audit_event \<Rightarrow> bool" where
  "audit_matches f e \<longleftrightarrow> (f_relay_id f = [] \<or> a_relay_id e = f_relay_id f)
     \<and> (f_client_id f = [] \<or> a_client_id e = f_client_id f)
     \<and> (f_type f = [] \<or> a_type e = f_type f)"

subsection \<open>Appending and pruning\<close>

definition audit_name :: "gotime \<Rightarrow> string" where
  "audit_name t = ''srt-audit-'' @ format_day (day_number t) @ ''.jsonl''"

definition is_audit_name :: "string \<Rightarrow> bool" where
  "is_audit_name name \<longleftrightarrow> has_prefix name ''srt-audit-'' \<and> has_suffix name ''.jsonl''"

definition file_day :: "string \<Rightarrow> int option" where
  "file_day name = parse_date (trim_suffix (trim_prefix name ''srt-audit-'') ''.jsonl'')"

text \<open>What the system did with one event: how far the write got, which removals succeed.\<close>

datatype write_outcome = Written | NotOpened | TornAfter nat | NotSynced

record audit_env =
  ae_now :: gotime
  ae_random :: "octets option"
  ae_write :: write_outcome
  ae_read_dir :: bool
  ae_removable :: "string \<Rightarrow> bool"

definition random_id :: "octets option \<Rightarrow> (audit_error, string) result" where
  "random_id random = (case random of None \<Rightarrow> Inl RandomFailed | Some data \<Rightarrow> Inr (encode64 data))"

definition expired :: "int \<Rightarrow> gotime \<Rightarrow> string \<Rightarrow> bool" where
  "expired retention_days now name \<longleftrightarrow> is_audit_name name
     \<and> (case file_day name of None \<Rightarrow> False | Some d \<Rightarrow> d < day_number now - retention_days)"

definition prune_audit :: "int \<Rightarrow> gotime \<Rightarrow> audit_env \<Rightarrow> audit_dir \<Rightarrow> audit_dir" where
  "prune_audit retention_days now env dir =
     (if \<not> ae_read_dir env then dir
      else foldl (\<lambda>d name. if expired retention_days now name \<and> ae_removable env name then del name d else d)
        dir (keys dir))"

definition complete_event :: "audit_env \<Rightarrow> audit_event \<Rightarrow> (audit_error, audit_event) result" where
  "complete_event env e =
     (let e = (if is_zero (a_time e) then e\<lparr>a_time := ae_now env\<rparr> else e)
      in and_then (if a_id e = [] then and_then (random_id (ae_random env)) (\<lambda>i. Inr (e\<lparr>a_id := i\<rparr>)) else Inr e)
        (\<lambda>e. Inr (if a_level e = [] then e\<lparr>a_level := ''info''\<rparr> else e)))"

definition file_content :: "audit_dir \<Rightarrow> string \<Rightarrow> string" where
  "file_content dir name = (case get dir name of None \<Rightarrow> [] | Some s \<Rightarrow> s)"

definition append_text :: "string \<Rightarrow> string \<Rightarrow> audit_dir \<Rightarrow> audit_dir" where
  "append_text name text dir = put name (file_content dir name @ text) dir"

definition append_audit ::
  "audit_enc \<Rightarrow> int \<Rightarrow> audit_env \<Rightarrow> audit_event \<Rightarrow> audit_dir \<Rightarrow> (audit_error, audit_event) result \<times> audit_dir" where
  "append_audit enc retention_days env event dir =
     (case complete_event env event of
        Inl err \<Rightarrow> (Inl err, dir)
      | Inr e \<Rightarrow> (case enc e of
          None \<Rightarrow> (Inl MarshalFailed, dir)
        | Some data \<Rightarrow>
            let name = audit_name (a_time e); line = data @ [byte 10] in
            (case ae_write env of
               NotOpened \<Rightarrow> (Inl OpenFailed, dir)
             | TornAfter n \<Rightarrow> (Inl WriteFailed, append_text name (take n line) dir)
             | NotSynced \<Rightarrow> (Inl SyncFailed, append_text name line dir)
             | Written \<Rightarrow> (Inr e, prune_audit retention_days (a_time e) env (append_text name line dir)))))"

subsection \<open>Reading\<close>

text \<open>\<open>bufio.ScanLines\<close> with a buffer of 1 MiB: a longer line is an error.\<close>

definition drop_cr :: "string \<Rightarrow> string" where
  "drop_cr l = (if l \<noteq> [] \<and> last l = byte 13 then butlast l else l)"

definition raw_lines :: "string \<Rightarrow> string list" where
  "raw_lines s = (let parts = split_on (byte 10) s in if last parts = [] then butlast parts else parts)"

definition scan_lines :: "string \<Rightarrow> string list option" where
  "scan_lines s = (if list_ex (\<lambda>l. 1048576 \<le> int (length l)) (raw_lines s) then None
     else Some (map drop_cr (raw_lines s)))"

type_synonym ring = "audit_event list \<times> nat \<times> nat"

fun ring_add :: "nat \<Rightarrow> ring \<Rightarrow> audit_event \<Rightarrow> ring" where
  "ring_add limit (ring, count, start) event =
     (if count < limit then (ring[count := event], Suc count, start)
      else (ring[start := event], count, (start + 1) mod limit))"

fun ring_result :: "ring \<Rightarrow> audit_event list" where
  "ring_result (ring, count, start) =
     map (\<lambda>index. ring ! ((start + count - 1 - index) mod count)) [0..<count]"

definition matching :: "audit_dec \<Rightarrow> audit_filter \<Rightarrow> string list \<Rightarrow> audit_event list" where
  "matching dec f ls = filter (audit_matches f) (List.map_filter dec ls)"

definition read_audit_file ::
  "audit_dec \<Rightarrow> audit_filter \<Rightarrow> nat \<Rightarrow> string \<Rightarrow> (audit_error, audit_event list) result" where
  "read_audit_file dec f limit content = (case scan_lines content of
     None \<Rightarrow> Inl ScanTooLong
   | Some ls \<Rightarrow> Inr (ring_result
       (foldl (ring_add limit) (replicate limit zero_audit_event, 0, 0) (matching dec f ls))))"

text \<open>The file names, newest day first.\<close>

definition audit_paths :: "audit_dir \<Rightarrow> string list" where
  "audit_paths dir = rev (sort (filter is_audit_name (keys dir)))"

fun list_paths ::
  "audit_dec \<Rightarrow> audit_filter \<Rightarrow> nat \<Rightarrow> (string \<Rightarrow> bool) \<Rightarrow> audit_dir \<Rightarrow> audit_event list \<Rightarrow> string list
    \<Rightarrow> (audit_error, audit_event list) result" where
  "list_paths dec f limit readable dir result [] = Inr result"
| "list_paths dec f limit readable dir result (path # paths) =
     (case get dir path of
        None \<Rightarrow> Inl OpenFailed
      | Some content \<Rightarrow>
          if \<not> readable path then Inl OpenFailed
          else and_then (read_audit_file dec f (limit - length result) content) (\<lambda>events.
            if length (result @ events) = limit then Inr (result @ events)
            else list_paths dec f limit readable dir (result @ events) paths))"

definition effective_limit :: "audit_filter \<Rightarrow> nat" where
  "effective_limit f = nat (if f_limit f < 1 \<or> f_limit f > 1000 then 200 else f_limit f)"

definition audit_list ::
  "audit_dec \<Rightarrow> bool \<Rightarrow> (string \<Rightarrow> bool) \<Rightarrow> audit_filter \<Rightarrow> audit_dir \<Rightarrow> (audit_error, audit_event list) result" where
  "audit_list dec read_dir readable f dir =
     (if \<not> read_dir then Inl ReadDirFailed
      else list_paths dec f (effective_limit f) readable dir [] (audit_paths dir))"

subsection \<open>Clearing\<close>

definition kept_lines :: "audit_dec \<Rightarrow> audit_filter \<Rightarrow> string list \<Rightarrow> string list" where
  "kept_lines dec f ls = filter (\<lambda>l. case dec l of None \<Rightarrow> True | Some e \<Rightarrow> \<not> audit_matches f e) ls"

text \<open>A file is replaced by a rename as the last step, so a failure leaves it as it was.\<close>

definition clear_audit_file ::
  "audit_dec \<Rightarrow> audit_filter \<Rightarrow> bool \<Rightarrow> string \<Rightarrow> audit_dir \<Rightarrow> (audit_error, nat) result \<times> audit_dir" where
  "clear_audit_file dec f io_ok path dir = (case get dir path of
     None \<Rightarrow> (Inl OpenFailed, dir)
   | Some content \<Rightarrow> (case scan_lines content of
       None \<Rightarrow> (Inl ScanTooLong, dir)
     | Some ls \<Rightarrow>
         let kept = kept_lines dec f ls in
         if \<not> io_ok then (Inl RewriteFailed, dir)
         else (Inr (length ls - length kept),
           if kept = [] then del path dir
           else put path (concat (map (\<lambda>l. l @ [byte 10]) kept)) dir)))"

fun clear_paths ::
  "audit_dec \<Rightarrow> audit_filter \<Rightarrow> (string \<Rightarrow> bool) \<Rightarrow> nat \<Rightarrow> audit_dir \<Rightarrow> string list
    \<Rightarrow> nat \<times> audit_error option \<times> audit_dir" where
  "clear_paths dec f io_ok cleared dir [] = (cleared, None, dir)"
| "clear_paths dec f io_ok cleared dir (path # paths) =
     (case clear_audit_file dec f (io_ok path) path dir of
        (Inl err, dir') \<Rightarrow> (cleared, Some err, dir')
      | (Inr n, dir') \<Rightarrow> clear_paths dec f io_ok (cleared + n) dir' paths)"

text \<open>Removal of whole files stops at the first that cannot be removed.\<close>

fun remove_paths :: "(string \<Rightarrow> bool) \<Rightarrow> audit_dir \<Rightarrow> string list \<Rightarrow> audit_error option \<times> audit_dir" where
  "remove_paths removable dir [] = (None, dir)"
| "remove_paths removable dir (path # paths) =
     (if removable path then remove_paths removable (del path dir) paths else (Some RemoveFailed, dir))"

definition audit_clear ::
  "audit_dec \<Rightarrow> bool \<Rightarrow> (string \<Rightarrow> bool) \<Rightarrow> audit_filter \<Rightarrow> audit_dir \<Rightarrow> nat \<times> audit_error option \<times> audit_dir" where
  "audit_clear dec read_dir io_ok f dir =
     (if \<not> read_dir then (0, Some ReadDirFailed, dir)
      else if f_relay_id f = [] \<and> f_client_id f = [] \<and> f_type f = [] then
        (case remove_paths io_ok dir (audit_paths dir) of
           (None, dir') \<Rightarrow> (length (audit_paths dir), None, dir')
         | (Some err, dir') \<Rightarrow> (0, Some err, dir'))
      else clear_paths dec f io_ok 0 dir (audit_paths dir))"

subsection \<open>The ring keeps the last events\<close>

text \<open>What the ring holds, oldest first.\<close>

definition ring_contents :: "ring \<Rightarrow> audit_event list" where
  "ring_contents r = (case r of (ring, count, start) \<Rightarrow>
     drop start (take count ring) @ take start (take count ring))"

definition ring_ok :: "nat \<Rightarrow> ring \<Rightarrow> bool" where
  "ring_ok limit r \<longleftrightarrow> (case r of (ring, count, start) \<Rightarrow>
     length ring = limit \<and> count \<le> limit \<and> start < limit \<and> (count < limit \<longrightarrow> start = 0))"

lemma ring_add_contents:
  assumes "ring_ok limit r"
  shows "ring_ok limit (ring_add limit r e)
    \<and> ring_contents (ring_add limit r e)
      = (if length (ring_contents r) < limit then ring_contents r else tl (ring_contents r)) @ [e]"
proof -
  obtain ring count start where r: "r = (ring, count, start)" by (cases r)
  show ?thesis
  proof (cases "count < limit")
    case True
    with assms show ?thesis
      by (simp add: r ring_ok_def ring_contents_def take_Suc_conv_app_nth)
  next
    case False
    with assms r have ok: "length ring = limit" "count = limit" "start < limit" by (auto simp: ring_ok_def)
    have d: "drop start ring = ring ! start # drop (Suc start) ring"
      using ok by (simp add: Cons_nth_drop_Suc)
    have old: "ring_contents r = ring ! start # drop (Suc start) ring @ take start ring"
      by (simp add: r ring_contents_def ok d)
    show ?thesis
    proof (cases "Suc start = limit")
      case True
      then have "ring_contents (ring_add limit r e) = take start ring @ [e]"
        using ok by (simp add: r ring_contents_def upd_conv_take_nth_drop flip: True)
      then show ?thesis using ok True old by (simp add: r ring_ok_def)
    next
      case False
      then have "Suc start < limit" using ok by simp
      then have "ring_contents (ring_add limit r e) = drop (Suc start) ring @ take start ring @ [e]"
        using ok by (simp add: r ring_contents_def take_Suc_conv_app_nth)
      then show ?thesis using ok old \<open>Suc start < limit\<close> by (simp add: r ring_ok_def)
    qed
  qed
qed

lemma ring_fold_contents:
  "ring_ok limit r \<Longrightarrow> 0 < limit \<Longrightarrow> length (ring_contents r) \<le> limit \<Longrightarrow>
    ring_ok limit (foldl (ring_add limit) r es) \<and>
    ring_contents (foldl (ring_add limit) r es)
      = drop (length (ring_contents r @ es) - limit) (ring_contents r @ es)"
proof (induction es arbitrary: r)
  case (Cons e es)
  let ?r = "ring_add limit r e"
  have step: "ring_ok limit ?r" "ring_contents ?r =
      (if length (ring_contents r) < limit then ring_contents r else tl (ring_contents r)) @ [e]"
    using ring_add_contents [OF Cons.prems(1), of e] by auto
  have l: "length (ring_contents ?r) \<le> limit" using step(2) Cons.prems by auto
  have "drop (length (ring_contents ?r @ es) - limit) (ring_contents ?r @ es)
      = drop (length (ring_contents r @ e # es) - limit) (ring_contents r @ e # es)"
  proof (cases "length (ring_contents r) < limit")
    case True
    then show ?thesis using step(2) by simp
  next
    case False
    then have n: "length (ring_contents r) = limit" using Cons.prems by simp
    then obtain x xs where x: "ring_contents r = x # xs" using Cons.prems(2) by (cases "ring_contents r") auto
    have c: "ring_contents ?r = xs @ [e]" using step(2) False x by simp
    have l: "limit = Suc (length xs)" using n x by simp
    show ?thesis unfolding c x by (simp add: l)
  qed
  then show ?case using Cons.IH [OF step(1) Cons.prems(2) l] by simp
qed simp

lemma ring_result_contents: "ring_ok limit r \<Longrightarrow> ring_result r = rev (ring_contents r)"
proof -
  assume ok: "ring_ok limit r"
  obtain ring count start where r: "r = (ring, count, start)" by (cases r)
  have b: "count \<le> length ring" "start < count \<or> start = 0"
    using ok by (auto simp: r ring_ok_def)
  have len: "length (ring_contents r) = count" using b by (auto simp: r ring_contents_def)
  show ?thesis
  proof (rule nth_equalityI)
    show "length (ring_result r) = length (rev (ring_contents r))" using len by (simp add: r)
    fix i assume "i < length (ring_result r)"
    then have i: "i < count" by (simp add: r)
    have "ring_contents r ! (count - 1 - i) = ring ! ((start + (count - 1 - i)) mod count)"
    proof (cases "start + (count - 1 - i) < count")
      case True
      then show ?thesis using b i by (simp add: r ring_contents_def nth_append)
    next
      case False
      then have "(start + (count - 1 - i)) mod count = start + (count - 1 - i) - count"
        using b i by (auto simp: le_mod_geq)
      moreover have "start < count" using b(2) False i by auto
      then have "count - Suc (i + (count - start)) = start - Suc i" by simp
      ultimately show ?thesis using b i False by (simp add: r ring_contents_def nth_append)
    qed
    moreover have "start + count - 1 - i = start + (count - 1 - i)" using i by simp
    moreover have "rev (ring_contents r) ! i = ring_contents r ! (count - 1 - i)"
      using i len by (simp add: rev_nth)
    ultimately show "ring_result r ! i = rev (ring_contents r) ! i"
      using i by (simp add: r)
  qed
qed

lemma read_ring:
  assumes "0 < limit"
  shows "ring_result (foldl (ring_add limit) (replicate limit zero_audit_event, 0, 0) es)
    = take limit (rev es)"
proof -
  let ?r = "(replicate limit zero_audit_event, 0, 0) :: ring"
  have ok: "ring_ok limit ?r" and c: "ring_contents ?r = []"
    using assms by (simp_all add: ring_ok_def ring_contents_def)
  have "ring_result (foldl (ring_add limit) ?r es) = rev (drop (length es - limit) es)"
    using ring_fold_contents [OF ok assms, of es] ring_result_contents [OF conjunct1 [OF ring_fold_contents [OF ok assms, of es]]]
    by (simp add: c)
  then show ?thesis by (simp add: take_rev)
qed

subsection \<open>Listing\<close>

definition file_lines :: "audit_dir \<Rightarrow> string \<Rightarrow> string list" where
  "file_lines dir path = (case get dir path of
     None \<Rightarrow> []
   | Some content \<Rightarrow> (case scan_lines content of None \<Rightarrow> [] | Some ls \<Rightarrow> ls))"

text \<open>All matching events of the directory, the newest day first and backwards in each file.\<close>

definition newest_first :: "audit_dec \<Rightarrow> audit_filter \<Rightarrow> audit_dir \<Rightarrow> audit_event list" where
  "newest_first dec f dir = concat (map (\<lambda>p. rev (matching dec f (file_lines dir p))) (audit_paths dir))"

definition scannable :: "audit_dir \<Rightarrow> string \<Rightarrow> bool" where
  "scannable dir path \<longleftrightarrow> (\<exists>content ls. get dir path = Some content \<and> scan_lines content = Some ls)"

lemma read_audit_file_take:
  "0 < limit \<Longrightarrow> get dir path = Some content \<Longrightarrow> scan_lines content = Some ls \<Longrightarrow>
    read_audit_file dec f limit content = Inr (take limit (rev (matching dec f (file_lines dir path))))"
  by (simp add: read_audit_file_def read_ring file_lines_def)

lemma take_append_full:
  "length (r @ take (n - length r) xs) = n \<Longrightarrow> take n (r @ xs @ ys) = r @ take (n - length r) xs"
  by simp

lemma list_paths_take:
  "length result < limit \<Longrightarrow> list_all (\<lambda>p. readable p \<and> scannable dir p) paths \<Longrightarrow>
    list_paths dec f limit readable dir result paths
      = Inr (take limit (result @ concat (map (\<lambda>p. rev (matching dec f (file_lines dir p))) paths)))"
proof (induction paths arbitrary: result)
  case (Cons path paths)
  then obtain content ls where c: "get dir path = Some content" "scan_lines content = Some ls" "readable path"
    by (auto simp: scannable_def)
  let ?es = "rev (matching dec f (file_lines dir path))"
  let ?r = "result @ take (limit - length result) ?es"
  have "0 < limit - length result" using Cons.prems by simp
  note read = read_audit_file_take [OF this c(1,2)]
  show ?case
  proof (cases "length ?r = limit")
    case True
    then show ?thesis
      unfolding list_paths.simps c option.case read and_then.simps by (simp add: c)
  next
    case False
    then have short: "length ?es < limit - length result" using Cons.prems(1) by auto
    then have "?r = result @ ?es" by simp
    moreover have "list_paths dec f limit readable dir (result @ ?es) paths
        = Inr (take limit ((result @ ?es) @ concat (map (\<lambda>p. rev (matching dec f (file_lines dir p))) paths)))"
      using Cons short by (intro Cons.IH) auto
    ultimately show ?thesis
      unfolding list_paths.simps c option.case read and_then.simps using False by (simp add: c)
  qed
qed simp

lemma effective_limit_range: "1 \<le> effective_limit f \<and> effective_limit f \<le> 1000"
  by (auto simp: effective_limit_def)

text \<open>
  C12: When every file of the audit directory can be read, \<open>List\<close> returns the newest matching
  events, up to the limit (200 unless a limit of 1 to 1000 is given): newest day first
  and, within a day, last written first.
\<close>

theorem audit_list_newest:
  assumes "list_all (\<lambda>p. readable p \<and> scannable dir p) (audit_paths dir)"
  shows "audit_list dec True readable f dir = Inr (take (effective_limit f) (newest_first dec f dir))"
  using list_paths_take [of "[]" "effective_limit f" readable dir "audit_paths dir" dec f]
    effective_limit_range [of f] assms
  by (simp add: audit_list_def newest_first_def)

subsection \<open>Clearing\<close>

text \<open>JSON decoders skip white space, so a carriage return at the end of a line is nothing.\<close>

definition ignores_cr :: "audit_dec \<Rightarrow> bool" where
  "ignores_cr dec \<longleftrightarrow> (\<forall>l. dec (l @ [byte 13]) = dec l)"

lemma ignores_drop_cr: "ignores_cr dec \<Longrightarrow> dec (drop_cr l) = dec l"
  unfolding drop_cr_def ignores_cr_def by (metis append_butlast_last_id)

lemma raw_lines_join:
  "\<forall>l \<in> set ls. byte 10 \<notin> set l \<Longrightarrow> raw_lines (concat (map (\<lambda>l. l @ [byte 10]) ls)) = ls"
proof -
  assume "\<forall>l \<in> set ls. byte 10 \<notin> set l"
  then have "split_on (byte 10) (concat (map (\<lambda>l. l @ [byte 10]) ls)) = ls @ [[]]"
    by (induction ls) (auto simp: split_on_append)
  then show ?thesis by (simp add: raw_lines_def)
qed

lemma raw_lines_no_newline: "l \<in> set (raw_lines s) \<Longrightarrow> byte 10 \<notin> set l"
  by (auto simp: raw_lines_def Let_def split: if_splits dest: in_set_butlastD split_on_parts)

lemma drop_cr_subset: "set (drop_cr l) \<subseteq> set l" and drop_cr_length: "length (drop_cr l) \<le> length l"
  by (auto simp: drop_cr_def dest: in_set_butlastD)

lemma scan_lines_facts:
  "scan_lines s = Some ls \<Longrightarrow> l \<in> set ls \<Longrightarrow> byte 10 \<notin> set l \<and> int (length l) < 1048576"
proof -
  assume s: "scan_lines s = Some ls" "l \<in> set ls"
  then obtain r where r: "r \<in> set (raw_lines s)" "l = drop_cr r" "int (length r) < 1048576"
    by (auto simp: scan_lines_def list_ex_iff split: if_splits) (metis not_less)
  then show ?thesis
    using raw_lines_no_newline [OF r(1)] drop_cr_subset [of r] drop_cr_length [of r] by auto
qed

lemma scan_kept:
  assumes "scan_lines s = Some ls" "set kept \<subseteq> set ls"
  shows "scan_lines (concat (map (\<lambda>l. l @ [byte 10]) kept)) = Some (map drop_cr kept)"
proof -
  have "\<forall>l \<in> set kept. byte 10 \<notin> set l" and "\<forall>l \<in> set kept. \<not> 1048576 \<le> int (length l)"
    using assms scan_lines_facts [OF assms(1)] by (auto simp: subset_iff not_le)
  then show ?thesis by (simp add: scan_lines_def raw_lines_join list_ex_iff)
qed

definition file_events :: "audit_dec \<Rightarrow> audit_dir \<Rightarrow> string \<Rightarrow> audit_event list" where
  "file_events dec dir path = List.map_filter dec (file_lines dir path)"

lemma map_filter_kept:
  "List.map_filter dec (kept_lines dec f ls) = filter (\<lambda>e. \<not> audit_matches f e) (List.map_filter dec ls)"
  by (induction ls) (auto simp: kept_lines_def List.map_filter_simps split: option.splits)

lemma map_filter_drop_cr: "ignores_cr dec \<Longrightarrow> List.map_filter dec (map drop_cr ls) = List.map_filter dec ls"
  by (induction ls) (auto simp: List.map_filter_simps ignores_drop_cr split: option.splits)

lemma length_kept: "length (matching dec f ls) + length (kept_lines dec f ls) = length ls"
  by (induction ls) (auto simp: matching_def kept_lines_def List.map_filter_simps split: option.splits)

text \<open>One file: its matching events are gone, the others stay in order.\<close>

lemma clear_audit_file_effect:
  assumes "ignores_cr dec" "scannable dir path"
  obtains dir' where
    "clear_audit_file dec f True path dir = (Inr (length (matching dec f (file_lines dir path))), dir')"
    "file_events dec dir' path = filter (\<lambda>e. \<not> audit_matches f e) (file_events dec dir path)"
    "\<And>q. q \<noteq> path \<Longrightarrow> get dir' q = get dir q"
proof -
  obtain content ls where c: "get dir path = Some content" "scan_lines content = Some ls"
    using assms(2) by (auto simp: scannable_def)
  let ?kept = "kept_lines dec f ls"
  let ?dir = "if ?kept = [] then del path dir else put path (concat (map (\<lambda>l. l @ [byte 10]) ?kept)) dir"
  have fl: "file_lines dir path = ls" using c by (simp add: file_lines_def)
  have n: "length ls - length ?kept = length (matching dec f ls)"
    using length_kept [of dec f ls] by simp
  have sub: "set ?kept \<subseteq> set ls" by (auto simp: kept_lines_def)
  have "file_lines ?dir path = map drop_cr ?kept"
    using scan_kept [OF c(2) sub] by (simp add: file_lines_def)
  then have "file_events dec ?dir path = filter (\<lambda>e. \<not> audit_matches f e) (file_events dec dir path)"
    using assms(1) by (simp add: file_events_def fl map_filter_drop_cr map_filter_kept)
  moreover have "clear_audit_file dec f True path dir = (Inr (length (matching dec f (file_lines dir path))), ?dir)"
    using c by (simp add: clear_audit_file_def fl n Let_def)
  ultimately show ?thesis using that [of ?dir] by simp
qed

lemma file_lines_cong: "get a p = get b p \<Longrightarrow> file_lines a p = file_lines b p"
  by (simp add: file_lines_def)

lemma clear_paths_effect:
  assumes "ignores_cr dec"
  shows "distinct paths \<Longrightarrow> list_all (\<lambda>p. io_ok p \<and> scannable dir p) paths \<Longrightarrow>
    \<exists>dir'. clear_paths dec f io_ok n dir paths
        = (n + length (concat (map (\<lambda>p. matching dec f (file_lines dir p)) paths)), None, dir')
      \<and> (\<forall>p \<in> set paths. file_events dec dir' p = filter (\<lambda>e. \<not> audit_matches f e) (file_events dec dir p))
      \<and> (\<forall>q. q \<notin> set paths \<longrightarrow> get dir' q = get dir q)"
proof (induction paths arbitrary: n dir)
  case (Cons path paths)
  then have ok: "io_ok path" "scannable dir path" by auto
  obtain d where d: "clear_audit_file dec f True path dir = (Inr (length (matching dec f (file_lines dir path))), d)"
    "file_events dec d path = filter (\<lambda>e. \<not> audit_matches f e) (file_events dec dir path)"
    "\<And>q. q \<noteq> path \<Longrightarrow> get d q = get dir q"
    using clear_audit_file_effect [OF assms ok(2)] by blast
  have same: "file_lines d p = file_lines dir p" "scannable d p = scannable dir p" if "p \<in> set paths" for p
  proof -
    have "p \<noteq> path" using that Cons.prems by auto
    then have "get d p = get dir p" by (rule d(3))
    then show "file_lines d p = file_lines dir p" "scannable d p = scannable dir p"
      by (simp_all add: file_lines_def scannable_def)
  qed
  have "list_all (\<lambda>p. io_ok p \<and> scannable d p) paths"
    using Cons.prems(2) same by (simp add: list_all_iff)
  then obtain d' where d': "clear_paths dec f io_ok (n + length (matching dec f (file_lines dir path))) d paths
      = (n + length (matching dec f (file_lines dir path))
          + length (concat (map (\<lambda>p. matching dec f (file_lines d p)) paths)), None, d')"
    "\<forall>p \<in> set paths. file_events dec d' p = filter (\<lambda>e. \<not> audit_matches f e) (file_events dec d p)"
    "\<forall>q. q \<notin> set paths \<longrightarrow> get d' q = get d q"
    using Cons.IH [of d "n + length (matching dec f (file_lines dir path))"] Cons.prems(1)
    unfolding distinct.simps by blast
  have m: "map (\<lambda>p. matching dec f (file_lines d p)) paths = map (\<lambda>p. matching dec f (file_lines dir p)) paths"
    using same by simp
  have "clear_paths dec f io_ok n dir (path # paths)
      = (n + length (concat (map (\<lambda>p. matching dec f (file_lines dir p)) (path # paths))), None, d')"
    using d(1) d'(1) ok unfolding m by simp
  moreover have "file_events dec d' path = file_events dec d path"
    using d'(3) Cons.prems(1) by (simp add: file_events_def file_lines_cong [of d' path d])
  moreover have "\<forall>p \<in> set paths. file_events dec d p = file_events dec dir p"
    using same by (simp add: file_events_def)
  ultimately show ?case
    using d(2,3) d'(2,3) by (intro exI [of _ d'] conjI) auto
qed simp

lemma set_audit_paths: "set (audit_paths dir) = {p. has_key dir p \<and> is_audit_name p}"
  by (auto simp: audit_paths_def set_keys)

lemma distinct_audit_paths: "map_ok dir \<Longrightarrow> distinct (audit_paths dir)"
  by (simp add: audit_paths_def map_ok_def keys_def)

text \<open>
  Clearing with a filter removes exactly the matching events of every audit file, keeps
  the other events of each file in their order, leaves other files alone, and reports the
  number of events removed.
\<close>

theorem audit_clear_exact:
  assumes "ignores_cr dec" and "map_ok dir"
    and "f_relay_id f \<noteq> [] \<or> f_client_id f \<noteq> [] \<or> f_type f \<noteq> []"
    and "list_all (\<lambda>p. io_ok p \<and> scannable dir p) (audit_paths dir)"
  shows "\<exists>dir'. audit_clear dec True io_ok f dir = (length (newest_first dec f dir), None, dir')
    \<and> (\<forall>p. file_events dec dir' p =
          (if is_audit_name p then filter (\<lambda>e. \<not> audit_matches f e) (file_events dec dir p)
           else file_events dec dir p))"
proof -
  obtain dir' where d: "clear_paths dec f io_ok 0 dir (audit_paths dir)
      = (length (concat (map (\<lambda>p. matching dec f (file_lines dir p)) (audit_paths dir))), None, dir')"
    "\<forall>p \<in> set (audit_paths dir). file_events dec dir' p
      = filter (\<lambda>e. \<not> audit_matches f e) (file_events dec dir p)"
    "\<forall>q. q \<notin> set (audit_paths dir) \<longrightarrow> get dir' q = get dir q"
    using clear_paths_effect [OF assms(1) distinct_audit_paths [OF assms(2)] assms(4), of f 0] by auto
  have "length (newest_first dec f dir)
      = length (concat (map (\<lambda>p. matching dec f (file_lines dir p)) (audit_paths dir)))"
    by (simp add: newest_first_def length_concat comp_def)
  moreover have "file_events dec dir' p = filter (\<lambda>e. \<not> audit_matches f e) (file_events dec dir p)"
    if "is_audit_name p" for p
  proof (cases "has_key dir p")
    case True
    then show ?thesis using that d(2) by (simp add: set_audit_paths)
  next
    case False
    then have "get dir p = None" "get dir' p = None" using d(3) by (auto simp: set_audit_paths has_key_def)
    then show ?thesis by (simp add: file_events_def file_lines_def)
  qed
  moreover have "file_events dec dir' p = file_events dec dir p" if "\<not> is_audit_name p" for p
    using that d(3) by (simp add: file_events_def set_audit_paths file_lines_cong [of dir' p dir])
  ultimately show ?thesis
    using assms(3) d(1) by (intro exI [of _ dir'] conjI) (auto simp: audit_clear_def)
qed

subsection \<open>Appending\<close>

lemma prune_fold:
  "get (foldl (\<lambda>d name. if P name then del name d else d) dir names) q
    = (if P q \<and> q \<in> set names then None else get dir q)"
  by (induction names arbitrary: dir) auto

lemma get_prune_audit:
  "get (prune_audit days now env dir) q =
    (if ae_read_dir env \<and> expired days now q \<and> ae_removable env q then None else get dir q)"
proof -
  have "get dir q = None" if "q \<notin> set (keys dir)"
    using that by (simp add: set_keys has_key_def)
  then show ?thesis
    by (auto simp: prune_audit_def prune_fold)
qed

text \<open>A file as \<open>append_audit\<close> leaves it: empty, or ending in a newline.\<close>

definition whole_lines :: "string \<Rightarrow> bool" where
  "whole_lines s \<longleftrightarrow> s = [] \<or> last s = byte 10"

lemma split_on_last: "s \<noteq> [] \<Longrightarrow> last s = c \<Longrightarrow> \<exists>p ps. split_on c s = (p # ps) @ [[]]"
proof (induction s)
  case (Cons x xs)
  show ?case
  proof (cases "xs = []")
    case True
    then show ?thesis using Cons.prems by simp
  next
    case False
    then obtain p ps where "split_on c xs = (p # ps) @ [[]]" using Cons by auto
    then show ?thesis by (cases "x = c") auto
  qed
qed simp

lemma split_on_concat:
  "split_on c (a @ b) = butlast (split_on c a) @ (last (split_on c a) @ hd (split_on c b)) # tl (split_on c b)"
proof (induction a)
  case Nil
  then show ?case by (cases "split_on c b") auto
next
  case (Cons x xs)
  have "split_on c xs \<noteq> []" by simp
  with Cons show ?case by (cases "split_on c xs") (auto simp: Let_def)
qed

lemma raw_lines_append:
  assumes "whole_lines s" "byte 10 \<notin> set line"
  shows "raw_lines (s @ line @ [byte 10]) = raw_lines s @ [line]"
proof -
  have l: "split_on (byte 10) (line @ [byte 10]) = [line, []]"
    using split_on_append [OF assms(2), of "[]"] by simp
  show ?thesis
  proof (cases "s = []")
    case True
    then show ?thesis using l by (simp add: raw_lines_def)
  next
    case False
    then obtain parts where "split_on (byte 10) s = parts @ [[]]"
      using assms(1) split_on_last [of s "byte 10"] by (auto simp: whole_lines_def)
    then show ?thesis
      using split_on_concat [of "byte 10" s "line @ [byte 10]"] l by (simp add: raw_lines_def butlast_append)
  qed
qed

text \<open>What the log relies on from the JSON codec: it inverts itself and prints one line.\<close>

definition codec_ok :: "audit_enc \<Rightarrow> audit_dec \<Rightarrow> bool" where
  "codec_ok enc dec \<longleftrightarrow> (\<forall>e data. enc e = Some data \<longrightarrow>
     dec data = Some e \<and> byte 10 \<notin> set data \<and> byte 13 \<notin> set data)"

lemma map_filter_append: "List.map_filter f (xs @ ys) = List.map_filter f xs @ List.map_filter f ys"
  by (simp add: List.map_filter_def)

lemma file_lines_content:
  "file_lines dir p = (case scan_lines (file_content dir p) of None \<Rightarrow> [] | Some ls \<Rightarrow> ls)"
  by (simp add: file_lines_def file_content_def scan_lines_def raw_lines_def split: option.splits)

lemma file_day_name:
  "0 \<le> day_number t \<Longrightarrow> year_of_day (day_number t) \<le> 9999 \<Longrightarrow>
    file_day (audit_name t) = Some (day_number t)"
proof -
  have "trim_prefix (audit_name t) ''srt-audit-'' = format_day (day_number t) @ ''.jsonl''"
    unfolding audit_name_def by (rule trim_prefix_append)
  then have "file_day (audit_name t) = parse_date (format_day (day_number t))"
    by (simp only: file_day_def trim_suffix_append)
  then show "0 \<le> day_number t \<Longrightarrow> year_of_day (day_number t) \<le> 9999 \<Longrightarrow> ?thesis"
    by (simp add: parse_format_day)
qed

lemma scan_lines_append:
  assumes "whole_lines s" "scan_lines s = Some ls" "byte 10 \<notin> set line" "byte 13 \<notin> set line"
    "int (length line) < 1048576"
  shows "scan_lines (s @ line @ [byte 10]) = Some (ls @ [line])"
proof -
  have "drop_cr line = line"
    using assms(4) by (metis drop_cr_def last_in_set)
  then show ?thesis
    using assms unfolding scan_lines_def raw_lines_append [OF assms(1,3)]
    by (auto simp: list_ex_iff split: if_splits)
qed

text \<open>
  A written event is durable: the day's file holds its earlier events followed by the new
  one, no file inside the retention window changes otherwise, and every audit file older
  than the window that can be removed is gone.
\<close>

theorem append_audit_durable:
  assumes "codec_ok enc dec" and "complete_event env event = Inr e"
    and "enc e = Some data" and "int (length data) < 1048576" and "ae_write env = Written"
    and "0 \<le> day_number (a_time e)" and "year_of_day (day_number (a_time e)) \<le> 9999"
    and "0 \<le> days"
    and "whole_lines (file_content dir (audit_name (a_time e)))"
    and "scan_lines (file_content dir (audit_name (a_time e))) = Some ls"
  shows "\<exists>dir'. append_audit enc days env event dir = (Inr e, dir')
    \<and> file_events dec dir' (audit_name (a_time e)) = file_events dec dir (audit_name (a_time e)) @ [e]
    \<and> (\<forall>q. q \<noteq> audit_name (a_time e) \<longrightarrow> get dir' q =
          (if ae_read_dir env \<and> expired days (a_time e) q \<and> ae_removable env q then None else get dir q))"
proof -
  let ?n = "audit_name (a_time e)"
  let ?dir = "prune_audit days (a_time e) env (append_text ?n (data @ [byte 10]) dir)"
  have c: "dec data = Some e" "byte 10 \<notin> set data" "byte 13 \<notin> set data"
    using assms(1,3) by (auto simp: codec_ok_def)
  have "\<not> expired days (a_time e) ?n"
    using file_day_name [OF assms(6,7)] assms(8) by (simp add: expired_def)
  then have "get ?dir ?n = Some (file_content dir ?n @ data @ [byte 10])"
    by (simp add: get_prune_audit append_text_def)
  then have "file_lines ?dir ?n = ls @ [data]"
    using scan_lines_append [OF assms(9,10) c(2,3) assms(4)] by (simp add: file_lines_def)
  moreover have "file_lines dir ?n = ls" using assms(10) by (simp add: file_lines_content)
  ultimately have "file_events dec ?dir ?n = file_events dec dir ?n @ [e]"
    using c(1) by (simp add: file_events_def map_filter_append List.map_filter_simps)
  moreover have "append_audit enc days env event dir = (Inr e, ?dir)"
    using assms by (simp add: append_audit_def Let_def)
  moreover have "\<forall>q. q \<noteq> ?n \<longrightarrow> get ?dir q =
      (if ae_read_dir env \<and> expired days (a_time e) q \<and> ae_removable env q then None else get dir q)"
    by (simp add: get_prune_audit append_text_def)
  ultimately show ?thesis by blast
qed

subsection \<open>Instances\<close>

text \<open>A codec for one event, to apply the properties to a directory of one file.\<close>

definition sample_event :: audit_event where
  "sample_event = zero_audit_event\<lparr>a_id := ''e1'', a_time := Nanos 1, a_type := ''relay_error'',
     a_level := ''warning''\<rparr>"

definition sample_enc :: audit_enc where
  "sample_enc e = (if e = sample_event then Some ''x'' else None)"

definition sample_dec :: audit_dec where
  "sample_dec l = (if hd (l @ ''z'') = CHR ''x'' then Some sample_event else None)"

definition sample_dir :: audit_dir where
  "sample_dir = [(''srt-audit-0001-01-01.jsonl'', ''x'' @ [byte 10] @ ''?'' @ [byte 10])]"

definition sample_env :: audit_env where
  "sample_env = \<lparr>ae_now = Nanos 5, ae_random = None, ae_write = Written, ae_read_dir = True,
     ae_removable = (\<lambda>_. True)\<rparr>"

lemma byte_10: "byte 10 = CHR 0x0A" and byte_13: "byte 13 = CHR 0x0D"
  by code_simp+

lemma sample_codec: "codec_ok sample_enc sample_dec" and sample_ignores: "ignores_cr sample_dec"
  by (auto simp: codec_ok_def ignores_cr_def sample_enc_def sample_dec_def hd_append byte_10 byte_13)

lemma sample_name: "audit_name (Nanos 1) = ''srt-audit-0001-01-01.jsonl''"
  by code_simp

lemma sample_lines:
  "scan_lines (file_content sample_dir ''srt-audit-0001-01-01.jsonl'') = Some [''x'', ''?'']"
  "audit_paths sample_dir = [''srt-audit-0001-01-01.jsonl'']"
  by code_simp+

lemma sample_scannable: "scannable sample_dir ''srt-audit-0001-01-01.jsonl''"
  using sample_lines(1) by (auto simp: scannable_def file_content_def sample_dir_def get_def)

lemma audit_list_newest_witness:
  "audit_list sample_dec True (\<lambda>_. True) \<lparr>f_relay_id = [], f_client_id = [], f_type = [], f_limit = 1\<rparr> sample_dir
    = Inr [sample_event]"
  by (subst audit_list_newest)
    (simp_all add: sample_lines sample_scannable newest_first_def file_lines_content matching_def
      effective_limit_def audit_matches_def List.map_filter_simps sample_dec_def)

lemma audit_clear_exact_witness:
  "\<exists>dir'. audit_clear sample_dec True (\<lambda>_. True)
      \<lparr>f_relay_id = [], f_client_id = [], f_type = ''relay_error'', f_limit = 0\<rparr> sample_dir = (1, None, dir')
    \<and> file_events sample_dec dir' ''srt-audit-0001-01-01.jsonl'' = []"
proof -
  let ?f = "\<lparr>f_relay_id = [], f_client_id = [], f_type = ''relay_error'', f_limit = 0\<rparr>"
  have n: "length (newest_first sample_dec ?f sample_dir) = 1"
    and e: "file_events sample_dec sample_dir ''srt-audit-0001-01-01.jsonl'' = [sample_event]"
    and m: "audit_matches ?f sample_event" and a: "is_audit_name ''srt-audit-0001-01-01.jsonl''"
    by (simp_all add: newest_first_def sample_lines file_lines_content matching_def audit_matches_def
        List.map_filter_simps sample_dec_def sample_event_def file_events_def is_audit_name_def
        has_prefix_def has_suffix_def)
  have "map_ok sample_dir" by (simp add: sample_dir_def map_ok_def)
  then obtain dir' where "audit_clear sample_dec True (\<lambda>_. True) ?f sample_dir = (1, None, dir')"
    "\<forall>p. file_events sample_dec dir' p =
      (if is_audit_name p then filter (\<lambda>e. \<not> audit_matches ?f e) (file_events sample_dec sample_dir p)
       else file_events sample_dec sample_dir p)"
    using audit_clear_exact [of sample_dec sample_dir ?f "\<lambda>_. True"] sample_ignores n
    by (auto simp: sample_lines sample_scannable)
  then show ?thesis using e m a by (intro exI [of _ dir']) simp
qed

lemma append_audit_durable_witness:
  "\<exists>dir'. append_audit sample_enc 7 sample_env sample_event sample_dir = (Inr sample_event, dir')
    \<and> file_events sample_dec dir' ''srt-audit-0001-01-01.jsonl'' = [sample_event, sample_event]"
proof -
  have d: "day_number (a_time sample_event) = 0" by (simp add: sample_event_def day_number_def)
  have n: "audit_name (a_time sample_event) = ''srt-audit-0001-01-01.jsonl''"
    using sample_name by (simp add: sample_event_def)
  have "complete_event sample_env sample_event = Inr sample_event"
    by (simp add: complete_event_def sample_event_def is_zero_def zero_time_def zero_audit_event_def)
  moreover have "sample_enc sample_event = Some ''x''" by (simp add: sample_enc_def)
  moreover have "year_of_day 0 = 1" by code_simp
  moreover have "whole_lines (file_content sample_dir ''srt-audit-0001-01-01.jsonl'')"
    by (simp add: whole_lines_def sample_dir_def file_content_def get_def)
  moreover have "file_events sample_dec sample_dir ''srt-audit-0001-01-01.jsonl'' = [sample_event]"
    by (simp add: file_events_def file_lines_content sample_lines List.map_filter_simps sample_dec_def)
  ultimately show ?thesis
    using append_audit_durable [OF sample_codec, of sample_env sample_event sample_event "''x''" 7 sample_dir]
      sample_lines(1)
    by (auto simp: d n sample_env_def)
qed

end
