(* ===== verification/Sha256.thy ===== *)
theory Sha256
  imports Base64
begin

unbundle bit_operations_syntax

text \<open>
  SHA-256 and HMAC-SHA-256 as Go's \<open>crypto/sha256\<close> and \<open>crypto/hmac\<close> compute them, on
  byte lists; the sources derive passphrases, session tokens and password hashes with
  them. What the other theories rely on is that a digest has 32 bytes, so that its URL
  base64 text has 43 characters of that alphabet.
\<close>

type_synonym w32 = "32 word"

subsection \<open>Words\<close>

definition rotr :: "nat \<Rightarrow> w32 \<Rightarrow> w32" where
  "rotr n x = drop_bit n x OR push_bit (32 - n) x"

definition word_of_bytes :: "octets \<Rightarrow> w32" where
  "word_of_bytes bs = foldl (\<lambda>acc b. push_bit 8 acc OR ucast b) 0 bs"

definition bytes_of_word :: "w32 \<Rightarrow> octets" where
  "bytes_of_word w = map (\<lambda>n. ucast (drop_bit n w)) [24, 16, 8, 0]"

fun words_of :: "octets \<Rightarrow> w32 list" where
  "words_of (a # b # c # d # rest) = word_of_bytes [a, b, c, d] # words_of rest"
| "words_of _ = []"

definition length_bytes :: "nat \<Rightarrow> octets" where
  "length_bytes n = map (\<lambda>k. of_nat (n div 256 ^ k)) [7, 6, 5, 4, 3, 2, 1, 0]"

definition round_constants :: "w32 list" where
  "round_constants = [1116352408, 1899447441, 3049323471, 3921009573, 961987163, 1508970993, 2453635748, 2870763221,
     3624381080, 310598401, 607225278, 1426881987, 1925078388, 2162078206, 2614888103, 3248222580,
     3835390401, 4022224774, 264347078, 604807628, 770255983, 1249150122, 1555081692, 1996064986,
     2554220882, 2821834349, 2952996808, 3210313671, 3336571891, 3584528711, 113926993, 338241895,
     666307205, 773529912, 1294757372, 1396182291, 1695183700, 1986661051, 2177026350, 2456956037,
     2730485921, 2820302411, 3259730800, 3345764771, 3516065817, 3600352804, 4094571909, 275423344,
     430227734, 506948616, 659060556, 883997877, 958139571, 1322822218, 1537002063, 1747873779,
     1955562222, 2024104815, 2227730452, 2361852424, 2428436474, 2756734187, 3204031479, 3329325298]"

definition initial_hash :: "w32 list" where
  "initial_hash = [1779033703, 3144134277, 1013904242, 2773480762, 1359893119, 2600822924, 528734635, 1541459225]"

subsection \<open>The compression function\<close>

definition small_sigma0 :: "w32 \<Rightarrow> w32" where
  "small_sigma0 x = rotr 7 x XOR rotr 18 x XOR drop_bit 3 x"

definition small_sigma1 :: "w32 \<Rightarrow> w32" where
  "small_sigma1 x = rotr 17 x XOR rotr 19 x XOR drop_bit 10 x"

definition big_sigma0 :: "w32 \<Rightarrow> w32" where
  "big_sigma0 x = rotr 2 x XOR rotr 13 x XOR rotr 22 x"

definition big_sigma1 :: "w32 \<Rightarrow> w32" where
  "big_sigma1 x = rotr 6 x XOR rotr 11 x XOR rotr 25 x"

text \<open>The message schedule: the 16 words of the block and 48 more, oldest first.\<close>

definition extend_schedule :: "w32 list \<Rightarrow> w32 list" where
  "extend_schedule ws = (let t = length ws in
     ws @ [small_sigma1 (ws ! (t - 2)) + ws ! (t - 7) + small_sigma0 (ws ! (t - 15)) + ws ! (t - 16)])"

definition schedule :: "w32 list \<Rightarrow> w32 list" where
  "schedule block = (extend_schedule ^^ 48) block"

fun round_step :: "w32 list \<Rightarrow> w32 \<times> w32 \<Rightarrow> w32 list" where
  "round_step [a, b, c, d, e, f, g, h] (k, w) =
     (let t1 = h + big_sigma1 e + ((e AND f) XOR (NOT e AND g)) + k + w;
          t2 = big_sigma0 a + ((a AND b) XOR (a AND c) XOR (b AND c))
      in [t1 + t2, a, b, c, d + t1, e, f, g])"
| "round_step v _ = v"

definition compress :: "w32 list \<Rightarrow> w32 list \<Rightarrow> w32 list" where
  "compress hash block = map2 (+) hash (foldl round_step hash (zip round_constants (schedule block)))"

subsection \<open>Hash and MAC\<close>

definition pad_message :: "octets \<Rightarrow> octets" where
  "pad_message m = m @ [0x80] @ replicate ((119 - length m mod 64) mod 64) 0 @ length_bytes (8 * length m)"

function blocks_of :: "w32 list \<Rightarrow> w32 list list" where
  "blocks_of ws = (if length ws < 16 then [] else take 16 ws # blocks_of (drop 16 ws))"
  by pat_completeness auto
termination
  by (relation "measure length") auto

declare blocks_of.simps [simp del]

definition sha256 :: "octets \<Rightarrow> octets" where
  "sha256 m = concat (map bytes_of_word (foldl compress initial_hash (blocks_of (words_of (pad_message m)))))"

definition hmac_block_key :: "octets \<Rightarrow> octets" where
  "hmac_block_key key = (let k = (if length key > 64 then sha256 key else key) in k @ replicate (64 - length k) 0)"

definition hmac_sha256 :: "octets \<Rightarrow> octets \<Rightarrow> octets" where
  "hmac_sha256 key msg =
     (let k = hmac_block_key key
      in sha256 (map (\<lambda>b. b XOR 0x5c) k @ sha256 (map (\<lambda>b. b XOR 0x36) k @ msg)))"

definition bytes_of_string :: "string \<Rightarrow> octets" where
  "bytes_of_string s = map of_char s"

subsection \<open>Lengths\<close>

lemma length_round_step [simp]: "length (round_step v kw) = length v"
  by (induction v kw rule: round_step.induct) (auto simp: Let_def)

lemma length_fold_rounds [simp]: "length (foldl round_step v kws) = length v"
  by (induction kws arbitrary: v) auto

lemma length_compress [simp]: "length (compress hash block) = length hash"
  by (simp add: compress_def)

lemma length_fold_compress [simp]: "length (foldl compress hash blocks) = length hash"
  by (induction blocks arbitrary: hash) auto

lemma length_concat_words: "length (concat (map bytes_of_word ws)) = 4 * length ws"
  by (induction ws) (auto simp: bytes_of_word_def)

lemma length_sha256 [simp]: "length (sha256 m) = 32"
  by (simp add: sha256_def length_concat_words initial_hash_def)

lemma length_hmac_sha256 [simp]: "length (hmac_sha256 key msg) = 32"
  by (simp add: hmac_sha256_def Let_def)

text \<open>Padding fills whole blocks of 64 bytes.\<close>

lemma length_pad_message: "length (pad_message m) mod 64 = 0"
proof -
  define r where "r = length m mod 64"
  have r: "r < 64" by (simp add: r_def)
  have "(119 - r) mod 64 = (if r \<le> 55 then 55 - r else 119 - r)"
  proof (cases "r \<le> 55")
    case True
    then have "119 - r = (55 - r) + 64" by simp
    then show ?thesis using True by (simp only: mod_add_self2) simp
  qed (use r in simp)
  then have "r + (9 + (119 - r) mod 64) = (if r \<le> 55 then 64 else 128)"
    using r by (simp only:) (simp split: if_split)
  then have "(r + (9 + (119 - r) mod 64)) mod 64 = 0"
    by (simp only:) (simp split: if_split)
  then have "(length m + (9 + (119 - r) mod 64)) mod 64 = 0"
    by (simp only: r_def mod_add_left_eq)
  moreover have "length (pad_message m) = length m + (9 + (119 - r) mod 64)"
    by (simp only: pad_message_def length_bytes_def r_def length_append length_replicate length_map) simp
  ultimately show ?thesis by (simp only:)
qed

lemma of_char_inject: "(of_char c :: 8 word) = of_char d \<longleftrightarrow> c = d"
proof
  assume e: "(of_char c :: 8 word) = of_char d"
  have "unat (of_char x :: 8 word) = of_char x" for x :: char
  proof -
    have "unat (of_nat (of_char x) :: 8 word) = of_char x"
      using char_nat_less [of x] by (simp add: unsigned_of_nat take_bit_nat_eq_self)
    then show ?thesis by (simp only: of_nat_of_char)
  qed
  then have "(of_char c :: nat) = of_char d" using e by metis
  then show "c = d" by simp
qed simp

lemma inj_bytes_of_string: "bytes_of_string s = bytes_of_string t \<longleftrightarrow> s = t"
  unfolding bytes_of_string_def
  by (rule inj_map_eq_map) (auto simp: inj_def of_char_inject)

end
