(* ===== verification/SrtStore.thy ===== *)
theory SrtStore
  imports SrtNormalize SrtAudit Sha256
begin

text \<open>
  The store of SRT relays, clients and sessions (\<open>internal/srtrelay/store.go\<close>). Every method
  of \<open>Store\<close> is a function from the store to its result and the store afterwards; the lock
  the source holds for a whole method makes it one step. \<open>sto_file\<close> is the state file:
  the relays and clients of the last successful save, in the order they are written.
  \<open>saved\<close> says whether the save of an operation succeeds; as in the source, the maps are
  changed before the save, so a failed save leaves the change in memory.
\<close>

subsection \<open>State\<close>

type_synonym persisted = "relay list \<times> client list"

record store =
  sto_path :: string
  sto_master_key :: octets
  sto_relays :: "(string, relay) gomap"
  sto_states :: "(string, relay_state) gomap"
  sto_clients :: "(string, client) gomap"
  sto_sessions :: "(string, session) gomap"
  sto_audit :: audit_dir
  sto_retention :: int
  sto_subscribers :: "(nat, event list) gomap"
  sto_file :: "persisted option"

datatype store_error =
    RelayInvalid relay_error | ListenerInUse string int string | DefaultInvalid default_client_error
  | SaveFailed | RelayMissing | RelayNotPublish | RelayNotEncrypted | RelayNotStopped
  | RelayAssigned string | ClientExists | ClientInvalid client_error | ClientIsDefault string
  | ClientMissing | ClientNotEncrypted | ClientActive
  | LoadRelayInvalid string relay_error | LoadClientInvalid string client_error
  | LoadDefaultInvalid string default_client_error | StateUnreadable

definition empty_store :: "string \<Rightarrow> octets \<Rightarrow> int \<Rightarrow> audit_dir \<Rightarrow> persisted option \<Rightarrow> store" where
  "empty_store path key retention dir file = \<lparr>sto_path = path, sto_master_key = key, sto_relays = [],
     sto_states = [], sto_clients = [], sto_sessions = [], sto_audit = dir, sto_retention = retention,
     sto_subscribers = [], sto_file = file\<rparr>"

definition state_locked :: "gotime \<Rightarrow> store \<Rightarrow> string \<Rightarrow> relay_state" where
  "state_locked now s i = (case get (sto_states s) i of
     Some state \<Rightarrow> state
   | None \<Rightarrow> zero_relay_state\<lparr>st_status := ''stopped'', st_updated_at := now\<rparr>)"

text \<open>A subscriber is a channel of 64 events; a full one misses the event.\<close>

definition offer :: "event \<Rightarrow> event list \<Rightarrow> event list" where
  "offer e queue = (if length queue < 64 then queue @ [e] else queue)"

definition emit_locked :: "event \<Rightarrow> store \<Rightarrow> store" where
  "emit_locked e s = s\<lparr>sto_subscribers := map (\<lambda>(c, q). (c, offer e q)) (sto_subscribers s)\<rparr>"

definition subscribe :: "nat \<Rightarrow> store \<Rightarrow> store" where
  "subscribe c s = s\<lparr>sto_subscribers := put c [] (sto_subscribers s)\<rparr>"

definition unsubscribe :: "nat \<Rightarrow> store \<Rightarrow> store" where
  "unsubscribe c s = s\<lparr>sto_subscribers := del c (sto_subscribers s)\<rparr>"

definition save_locked :: "bool \<Rightarrow> store \<Rightarrow> (store_error, unit) result \<times> store" where
  "save_locked saved s =
     (if sto_path s = [] then (Inr (), s)
      else if saved then (Inr (), s\<lparr>sto_file := Some (sorted_vals (sto_relays s), sorted_vals (sto_clients s))\<rparr>)
      else (Inl SaveFailed, s))"

text \<open>Save, then announce the change and answer, as every operation that changes the maps ends.\<close>

definition save_and_emit ::
  "bool \<Rightarrow> event \<Rightarrow> 'a \<Rightarrow> store \<Rightarrow> (store_error, 'a) result \<times> store" where
  "save_and_emit saved e answer s = (case save_locked saved s of
     (Inl err, s') \<Rightarrow> (Inl err, s')
   | (Inr _, s') \<Rightarrow> (Inr answer, emit_locked e s'))"

subsection \<open>Passphrases\<close>

definition key_message :: "string \<Rightarrow> string \<Rightarrow> int \<Rightarrow> string" where
  "key_message label i version = label @ i @ '':'' @ itoa version"

definition relay_message :: "relay \<Rightarrow> octets" where
  "relay_message r = bytes_of_string (key_message ''neotranscoder-srt-publish:'' (r_id r) (r_key_version r))"

definition relay_passphrase :: "octets \<Rightarrow> relay \<Rightarrow> string" where
  "relay_passphrase key r = encode64 (hmac_sha256 key (relay_message r))"

definition client_message :: "client \<Rightarrow> octets" where
  "client_message c = bytes_of_string (key_message ''neotranscoder-srt:'' (c_id c) (c_key_version c))"

definition client_passphrase :: "octets \<Rightarrow> client \<Rightarrow> string" where
  "client_passphrase key c = encode64 (hmac_sha256 key (client_message c))"

definition publishes_encrypted :: "relay \<Rightarrow> bool" where
  "publishes_encrypted r \<longleftrightarrow> r_direction r = direction_publish \<and> r_encryption_mode r = encryption_aes256"

definition publish_passphrase :: "store \<Rightarrow> string \<Rightarrow> string" where
  "publish_passphrase s i = (case get (sto_relays s) i of
     None \<Rightarrow> []
   | Some r \<Rightarrow> if publishes_encrypted r then relay_passphrase (sto_master_key s) r else [])"

subsection \<open>Relays\<close>

definition list_relays :: "gotime \<Rightarrow> store \<Rightarrow> relay_view list" where
  "list_relays now s = List.map_filter (\<lambda>i. map_option
     (\<lambda>r. \<lparr>v_config = r, v_state = state_locked now s i, v_passphrase = []\<rparr>) (get (sto_relays s) i))
     (sorted_keys (sto_relays s))"

definition get_relay :: "gotime \<Rightarrow> store \<Rightarrow> string \<Rightarrow> relay_view option" where
  "get_relay now s i = map_option
     (\<lambda>r. \<lparr>v_config = r, v_state = state_locked now s i, v_passphrase = []\<rparr>) (get (sto_relays s) i)"

definition listener_clash :: "relay \<Rightarrow> string \<times> relay \<Rightarrow> bool" where
  "listener_clash r other \<longleftrightarrow> r_direction r = direction_listener \<and> r_direction (snd other) = direction_listener
     \<and> fst other \<noteq> r_id r \<and> r_bind_address (snd other) = r_bind_address r \<and> r_port (snd other) = r_port r"

definition commit_relay :: "gotime \<Rightarrow> relay \<Rightarrow> store \<Rightarrow> store" where
  "commit_relay now r s = s\<lparr>sto_relays := put (r_id r) r (sto_relays s),
     sto_states := (if has_key (sto_states s) (r_id r) then sto_states s
       else put (r_id r) (zero_relay_state\<lparr>st_status := ''stopped'', st_updated_at := now\<rparr>) (sto_states s))\<rparr>"

definition upsert_relay ::
  "gotime \<Rightarrow> bool \<Rightarrow> relay \<Rightarrow> store \<Rightarrow> (store_error, relay_view) result \<times> store" where
  "upsert_relay now saved relay s = (case normalize_relay relay of
     Inl err \<Rightarrow> (Inl (RelayInvalid err), s)
   | Inr normalized \<Rightarrow>
       let existing = get (sto_relays s) (r_id normalized);
           normalized = (case existing of None \<Rightarrow> normalized | Some e \<Rightarrow> normalized\<lparr>r_key_version := r_key_version e\<rparr>)
       in (case find (listener_clash normalized) (sto_relays s) of
         Some (i, _) \<Rightarrow> (Inl (ListenerInUse (r_bind_address normalized) (r_port normalized) i), s)
       | None \<Rightarrow> (case validate_default_client (sto_clients s) normalized of
           Inl err \<Rightarrow> (Inl (DefaultInvalid err), s)
         | Inr _ \<Rightarrow>
             let becomes = publishes_encrypted normalized \<and> existing \<noteq> None
                   \<and> \<not> publishes_encrypted (the existing);
                 issues = (existing = None \<and> publishes_encrypted normalized) \<or> becomes;
                 final = (if becomes then normalized\<lparr>r_key_version := r_key_version normalized + 1\<rparr> else normalized);
                 s' = commit_relay now final s;
                 view = \<lparr>v_config = final, v_state = state_locked now s' (r_id final),
                   v_passphrase = (if issues then relay_passphrase (sto_master_key s) final else [])\<rparr>
             in save_and_emit saved \<lparr>e_type = ''srt_relay_saved'', e_relay_id = r_id final, e_client_id = [],
                  e_time = now, e_payload = RelayPayload view\<rparr> view s')))"

definition rotate_relay_key ::
  "gotime \<Rightarrow> bool \<Rightarrow> string \<Rightarrow> store \<Rightarrow> (store_error, relay_view) result \<times> store" where
  "rotate_relay_key now saved i s = (case get (sto_relays s) i of
     None \<Rightarrow> (Inl RelayMissing, s)
   | Some r \<Rightarrow>
       if r_direction r \<noteq> direction_publish then (Inl RelayNotPublish, s)
       else if r_encryption_mode r = encryption_none then (Inl RelayNotEncrypted, s)
       else let r' = r\<lparr>r_key_version := r_key_version r + 1\<rparr>;
                s' = s\<lparr>sto_relays := put i r' (sto_relays s)\<rparr>;
                view = \<lparr>v_config = r', v_state = state_locked now s' i,
                  v_passphrase = relay_passphrase (sto_master_key s) r'\<rparr>
         in save_and_emit saved \<lparr>e_type = ''srt_relay_key_rotated'', e_relay_id = i, e_client_id = [],
              e_time = now, e_payload = RelayPayload view\<rparr> view s')"

definition delete_relay :: "gotime \<Rightarrow> bool \<Rightarrow> string \<Rightarrow> store \<Rightarrow> (store_error, bool) result \<times> store" where
  "delete_relay now saved i s =
     (if \<not> has_key (sto_relays s) i then (Inr False, s)
      else if st_status (state_locked now s i) \<notin> {''stopped'', ''error'', ''flapping''} then (Inl RelayNotStopped, s)
      else (case find (\<lambda>(_, c). i \<in> set (c_allowed_relay_ids c)) (sto_clients s) of
        Some (_, c) \<Rightarrow> (Inl (RelayAssigned (c_id c)), s)
      | None \<Rightarrow> save_and_emit saved \<lparr>e_type = ''srt_relay_deleted'', e_relay_id = i, e_client_id = [],
            e_time = now, e_payload = NoPayload\<rparr> True
          (s\<lparr>sto_relays := del i (sto_relays s), sto_states := del i (sto_states s)\<rparr>)))"

subsection \<open>Clients\<close>

definition list_clients :: "store \<Rightarrow> client list" where
  "list_clients s = sorted_vals (sto_clients s)"

definition get_client :: "store \<Rightarrow> string \<Rightarrow> client option" where
  "get_client s i = get (sto_clients s) i"

definition default_broken :: "client \<Rightarrow> string \<times> relay \<Rightarrow> bool" where
  "default_broken c e \<longleftrightarrow> r_allow_missing_stream_id (snd e) \<and> r_default_client_id (snd e) = c_id c
     \<and> (\<not> c_enabled c \<or> r_id (snd e) \<notin> set (c_allowed_relay_ids c))"

definition stamp_client :: "gotime \<Rightarrow> client option \<Rightarrow> client \<Rightarrow> client" where
  "stamp_client now existing c = (case existing of
     Some e \<Rightarrow> c\<lparr>c_created_at := c_created_at e, c_key_version := c_key_version e, c_updated_at := now\<rparr>
   | None \<Rightarrow> c\<lparr>c_created_at := now, c_key_version := 1, c_updated_at := now\<rparr>)"

definition upsert_client_with ::
  "bool \<Rightarrow> gotime \<Rightarrow> bool \<Rightarrow> client \<Rightarrow> store \<Rightarrow> (store_error, client_credential) result \<times> store" where
  "upsert_client_with create_only now saved c s =
     (let existing = get (sto_clients s) (c_id c) in
      if create_only \<and> existing \<noteq> None then (Inl ClientExists, s)
      else (case normalize_client (sto_relays s) (stamp_client now existing c) of
        Inl err \<Rightarrow> (Inl (ClientInvalid err), s)
      | Inr normalized \<Rightarrow> (case find (default_broken normalized) (sto_relays s) of
          Some (_, r) \<Rightarrow> (Inl (ClientIsDefault (r_id r)), s)
        | None \<Rightarrow>
            let becomes = existing \<noteq> None \<and> c_encryption_mode (the existing) = encryption_none
                  \<and> c_encryption_mode normalized = encryption_aes256;
                issues = existing = None \<and> c_encryption_mode normalized = encryption_aes256 \<or> becomes;
                final = (if becomes then normalized\<lparr>c_key_version := c_key_version normalized + 1\<rparr> else normalized)
            in save_and_emit saved \<lparr>e_type = ''srt_client_saved'', e_relay_id = [], e_client_id = c_id final,
                 e_time = now, e_payload = ClientPayload final\<rparr>
               \<lparr>cc_client = final, cc_passphrase = (if issues then client_passphrase (sto_master_key s) final else [])\<rparr>
               (s\<lparr>sto_clients := put (c_id final) final (sto_clients s)\<rparr>))))"

definition upsert_client :: "gotime \<Rightarrow> bool \<Rightarrow> client \<Rightarrow> store \<Rightarrow> (store_error, client_credential) result \<times> store" where
  "upsert_client = upsert_client_with False"

definition create_client :: "gotime \<Rightarrow> bool \<Rightarrow> client \<Rightarrow> store \<Rightarrow> (store_error, client_credential) result \<times> store" where
  "create_client = upsert_client_with True"

definition rotate_client_key ::
  "gotime \<Rightarrow> bool \<Rightarrow> string \<Rightarrow> store \<Rightarrow> (store_error, client_credential) result \<times> store" where
  "rotate_client_key now saved i s = (case get (sto_clients s) i of
     None \<Rightarrow> (Inl ClientMissing, s)
   | Some c \<Rightarrow>
       if c_encryption_mode c = encryption_none then (Inl ClientNotEncrypted, s)
       else let c' = c\<lparr>c_key_version := c_key_version c + 1, c_updated_at := now\<rparr>
         in save_and_emit saved \<lparr>e_type = ''srt_client_key_rotated'', e_relay_id = [], e_client_id = i,
              e_time = now, e_payload = ClientPayload c'\<rparr>
            \<lparr>cc_client = c', cc_passphrase = client_passphrase (sto_master_key s) c'\<rparr>
            (s\<lparr>sto_clients := put i c' (sto_clients s)\<rparr>))"

definition delete_client :: "gotime \<Rightarrow> bool \<Rightarrow> string \<Rightarrow> store \<Rightarrow> (store_error, bool) result \<times> store" where
  "delete_client now saved i s =
     (if \<not> has_key (sto_clients s) i then (Inr False, s)
      else (case find (\<lambda>(_, r). r_allow_missing_stream_id r \<and> r_default_client_id r = i) (sto_relays s) of
        Some (_, r) \<Rightarrow> (Inl (ClientIsDefault (r_id r)), s)
      | None \<Rightarrow> (case find (\<lambda>(_, x). s_client_id x = i \<and> active x) (sto_sessions s) of
          Some _ \<Rightarrow> (Inl ClientActive, s)
        | None \<Rightarrow> save_and_emit saved \<lparr>e_type = ''srt_client_deleted'', e_relay_id = [], e_client_id = i,
              e_time = now, e_payload = NoPayload\<rparr> True
            (s\<lparr>sto_clients := del i (sto_clients s)\<rparr>))))"

definition worker_client :: "octets \<Rightarrow> client \<Rightarrow> worker_client" where
  "worker_client key c = \<lparr>wc_id = c_id c, wc_encryption_mode = c_encryption_mode c,
     wc_passphrase = (if c_encryption_mode c = encryption_aes256 then client_passphrase key c else []),
     wc_allowed_cidrs = c_allowed_cidrs c, wc_max_sessions = c_max_sessions c\<rparr>"

definition worker_clients :: "store \<Rightarrow> string \<Rightarrow> worker_client list" where
  "worker_clients s relay_id = map (worker_client (sto_master_key s))
     (filter (\<lambda>c. c_enabled c \<and> relay_id \<in> set (c_allowed_relay_ids c)) (sorted_vals (sto_clients s)))"

subsection \<open>Audit\<close>

definition record_audit ::
  "audit_enc \<Rightarrow> audit_env \<Rightarrow> audit_event \<Rightarrow> store \<Rightarrow> (audit_error, audit_event) result \<times> store" where
  "record_audit enc env event s = (case append_audit enc (sto_retention s) env event (sto_audit s) of
     (Inl err, dir) \<Rightarrow> (Inl err, s\<lparr>sto_audit := dir\<rparr>)
   | (Inr stored, dir) \<Rightarrow> (Inr stored, emit_locked \<lparr>e_type = ''srt_audit'', e_relay_id = a_relay_id stored,
        e_client_id = a_client_id stored, e_time = a_time stored, e_payload = AuditPayload stored\<rparr>
        (s\<lparr>sto_audit := dir\<rparr>)))"

definition disconnect_cause_hint :: "string \<Rightarrow> string" where
  "disconnect_cause_hint reason =
     (if contains_str reason ''Connection was broken'' then
        ''peer closed the SRT connection or the network path broke while sending''
      else if contains_str reason ''send queue remained full'' then
        ''receiver was too slow; worker dropped packets until the send queue stayed full''
      else if contains_str reason ''relay stopped'' then ''local relay worker was stopped or restarted''
      else [])"

definition disconnect_origin_hint :: "string \<Rightarrow> string" where
  "disconnect_origin_hint reason =
     (if contains_str reason ''Connection was broken'' then ''remote_or_network''
      else if contains_str reason ''send queue remained full'' \<or> contains_str reason ''relay stopped''
      then ''local'' else ''unknown'')"

text \<open>
  \<open>int(d.Seconds())\<close> truncates toward zero. The source goes through a float64, which gives
  the same number for sessions shorter than 2^23 seconds.
\<close>

definition whole_seconds :: "int \<Rightarrow> int" where
  "whole_seconds d = sgn d * (\<bar>d\<bar> div 1000000000)"

definition event_session :: "worker_event \<Rightarrow> session" where
  "event_session e = (case we_session e of None \<Rightarrow> zero_session | Some x \<Rightarrow> x)"

definition event_details :: "worker_event \<Rightarrow> (string, detail) gomap" where
  "event_details e = (let x = event_session e in
     [(''peer_version'', DString (s_peer_version x)), (''encrypted'', DBool (s_encrypted x)),
      (''stats'', DStats (s_stats x))] @
     (if is_zero (s_connected_at x) then [] else [(''connected_at'', DTime (s_connected_at x))]) @
     (case s_disconnected_at x of None \<Rightarrow> []
      | Some t \<Rightarrow> (''disconnected_at'', DTime t) #
          (if is_zero (s_connected_at x) then []
           else [(''duration_seconds'', DInt (whole_seconds (time_sub t (s_connected_at x))))])) @
     (if s_disconnect_reason x \<noteq> [] then [(''disconnect_reason'', DString (s_disconnect_reason x))] else []) @
     (if we_type e = ''session_disconnected''
      then [(''cause_hint'', DString (disconnect_cause_hint (we_reason e))),
            (''origin_hint'', DString (disconnect_origin_hint (we_reason e)))] else []))"

definition audited_types :: "string list" where
  "audited_types = [''connection_attempt'', ''connection_rejected'', ''session_connected'',
     ''session_disconnected'', ''relay_error'']"

definition audit_from_worker_event :: "string \<Rightarrow> worker_event \<Rightarrow> gotime \<Rightarrow> audit_event option" where
  "audit_from_worker_event relay_id e now =
     (if we_type e \<notin> set audited_types then None
      else let x = event_session e in
        Some \<lparr>a_id = [], a_time = now, a_type = we_type e,
          a_level = (if we_type e = ''connection_rejected'' \<or> we_type e = ''relay_error'' then ''warning'' else ''info''),
          a_relay_id = relay_id, a_client_id = s_client_id x, a_session_id = s_id x,
          a_remote_ip = s_remote_ip x, a_remote_port = s_remote_port x, a_stream_id = s_stream_id x,
          a_reason = we_reason e, a_actor = [], a_details = event_details e\<rparr>)"

subsection \<open>Sessions and worker events\<close>

text \<open>\<open>sort.Slice\<close> is not stable: equal times come in the order of the map, which is arbitrary.\<close>

definition list_sessions :: "bool \<Rightarrow> store \<Rightarrow> session list" where
  "list_sessions active_only s = sort_key (\<lambda>x. - nanos (s_connected_at x))
     (filter (\<lambda>x. active_only \<longrightarrow> active x) (map snd (sto_sessions s)))"

definition ended_at :: "session \<Rightarrow> int" where
  "ended_at x = (case s_disconnected_at x of None \<Rightarrow> 0 | Some t \<Rightarrow> nanos t)"

definition completed_sessions :: "store \<Rightarrow> session list" where
  "completed_sessions s = filter (\<lambda>x. \<not> active x) (map snd (sto_sessions s))"

definition prune_sessions :: "store \<Rightarrow> store" where
  "prune_sessions s = (let completed = completed_sessions s in
     if length completed \<le> 1000 then s
     else s\<lparr>sto_sessions := foldl (\<lambda>m x. del (s_id x) m) (sto_sessions s)
       (drop 1000 (sort_key (\<lambda>x. - ended_at x) completed))\<rparr>)"

definition close_one :: "string \<Rightarrow> string \<Rightarrow> gotime \<Rightarrow> store \<times> session list \<Rightarrow> string \<times> session \<Rightarrow> store \<times> session list" where
  "close_one relay_id reason at acc entry = (case (acc, entry) of ((s, closed), (i, x)) \<Rightarrow>
     if s_relay_id x \<noteq> relay_id \<or> \<not> active x then (s, closed)
     else let x' = x\<lparr>s_disconnected_at := Some at, s_disconnect_reason := reason\<rparr> in
       (emit_locked \<lparr>e_type = ''srt_session_disconnected'', e_relay_id = relay_id, e_client_id = s_client_id x',
          e_time = at, e_payload = WorkerPayload (zero_worker_event\<lparr>we_type := ''session_disconnected'',
            we_time := at, we_reason := reason, we_session := Some x'\<rparr>)\<rparr>
          (s\<lparr>sto_sessions := put i x' (sto_sessions s)\<rparr>), closed @ [x']))"

definition closed_audit :: "string \<Rightarrow> string \<Rightarrow> gotime \<Rightarrow> session \<Rightarrow> audit_event" where
  "closed_audit relay_id reason at x = zero_audit_event\<lparr>a_time := at, a_type := ''session_disconnected'',
     a_level := ''warning'', a_relay_id := relay_id, a_client_id := s_client_id x, a_session_id := s_id x,
     a_remote_ip := s_remote_ip x, a_remote_port := s_remote_port x, a_stream_id := s_stream_id x,
     a_reason := reason\<rparr>"

definition close_relay_sessions ::
  "audit_enc \<Rightarrow> (string \<Rightarrow> audit_env) \<Rightarrow> gotime \<Rightarrow> string \<Rightarrow> string \<Rightarrow> gotime \<Rightarrow> store \<Rightarrow> session list \<times> store" where
  "close_relay_sessions enc envs now relay_id reason at s =
     (let at = (if is_zero at then now else at);
          (s', closed) = foldl (close_one relay_id reason at) (s, []) (sto_sessions s)
      in (closed, foldl (\<lambda>s x. snd (record_audit enc (envs (s_id x)) (closed_audit relay_id reason at x) s))
           (prune_sessions s') closed))"

text \<open>The switch of \<open>ApplyWorkerEvent\<close> on the relay's state: the new state and the transition.\<close>

definition next_relay_state :: "gotime \<Rightarrow> worker_event \<Rightarrow> relay_state \<Rightarrow> relay_state \<times> string" where
  "next_relay_state now e st =
     (if we_type e = ''relay_ready'' then
        (st\<lparr>st_status := ''running'', st_last_error := [], st_updated_at := now\<rparr>, [])
      else if we_type e = ''relay_metrics'' then
        let st = st\<lparr>st_active_clients := we_active_clients e, st_input_bitrate := we_input_bitrate e,
              st_output_bitrate := we_output_bitrate e, st_input_packets := we_input_packets e,
              st_continuity_errors := we_continuity_errors e, st_updated_at := now\<rparr>
        in if we_reason e \<noteq> [] \<and> st_status st \<noteq> ''degraded'' then
             (st\<lparr>st_status := ''degraded'', st_last_error := we_reason e\<rparr>, ''input_stalled'')
           else if we_reason e = [] \<and> st_status st = ''degraded'' then
             (st\<lparr>st_status := ''running'', st_last_error := []\<rparr>, ''input_restored'')
           else (st, [])
      else (st\<lparr>st_status := ''error'', st_last_error := we_reason e, st_updated_at := now\<rparr>, []))"

definition state_event_types :: "string list" where
  "state_event_types = [''relay_ready'', ''relay_metrics'', ''relay_error'']"

definition apply_event_maps :: "gotime \<Rightarrow> string \<Rightarrow> worker_event \<Rightarrow> store \<Rightarrow> store \<times> string" where
  "apply_event_maps now relay_id e s = (let x = event_session e in
     if we_type e \<in> set state_event_types then
       (let (st, transition) = next_relay_state now e (state_locked now s relay_id)
        in (s\<lparr>sto_states := put relay_id st (sto_states s)\<rparr>, transition))
     else if we_type e = ''session_connected'' then
       (if we_session e = None then s else s\<lparr>sto_sessions := put (s_id x) x (sto_sessions s)\<rparr>, [])
     else if we_type e = ''session_stats'' then
       (case get (sto_sessions s) (s_id x) of None \<Rightarrow> s
        | Some current \<Rightarrow> s\<lparr>sto_sessions := put (s_id x) (current\<lparr>s_stats := s_stats x\<rparr>) (sto_sessions s)\<rparr>, [])
     else if we_type e = ''session_disconnected'' then
       (prune_sessions (if we_session e = None then s else s\<lparr>sto_sessions := put (s_id x) x (sto_sessions s)\<rparr>), [])
     else (s, []))"

definition event_payload :: "string \<Rightarrow> worker_event \<Rightarrow> store \<Rightarrow> event_payload" where
  "event_payload relay_id e s = (case get (sto_states s) relay_id of
     Some st \<Rightarrow> if we_type e \<in> set state_event_types then StatePayload st else WorkerPayload e
   | None \<Rightarrow> WorkerPayload e)"

definition apply_worker_event ::
  "audit_enc \<Rightarrow> audit_env \<Rightarrow> audit_env \<Rightarrow> gotime \<Rightarrow> string \<Rightarrow> worker_event \<Rightarrow> store \<Rightarrow> store" where
  "apply_worker_event enc env1 env2 clock relay_id e s =
     (let now = (if is_zero (we_time e) then clock else we_time e);
          (s1, transition) = apply_event_maps now relay_id e s;
          s2 = emit_locked \<lparr>e_type = ''srt_'' @ we_type e, e_relay_id = relay_id,
            e_client_id = s_client_id (event_session e), e_time = now, e_payload = event_payload relay_id e s1\<rparr> s1;
          s3 = (case audit_from_worker_event relay_id e now of None \<Rightarrow> s2
            | Some a \<Rightarrow> snd (record_audit enc env1 a s2))
      in if transition = [] then s3
         else snd (record_audit enc env2 (zero_audit_event\<lparr>a_time := now, a_type := transition,
           a_level := (if transition = ''input_stalled'' then ''warning'' else ''info''),
           a_relay_id := relay_id, a_reason := we_reason e\<rparr>) s3))"

definition update_state :: "gotime \<Rightarrow> string \<Rightarrow> (relay_state \<Rightarrow> relay_state) \<Rightarrow> store \<Rightarrow> relay_state \<times> store" where
  "update_state now i update s =
     (let next = (update (state_locked now s i))\<lparr>st_updated_at := now\<rparr>
      in (next, emit_locked \<lparr>e_type = ''srt_relay_state'', e_relay_id = i, e_client_id = [], e_time = now,
           e_payload = StatePayload next\<rparr> (s\<lparr>sto_states := put i next (sto_states s)\<rparr>)))"

subsection \<open>Loading\<close>

fun load_relays :: "gotime \<Rightarrow> store \<Rightarrow> relay list \<Rightarrow> (store_error, store) result" where
  "load_relays now s [] = Inr s"
| "load_relays now s (r # rs) = (case normalize_relay r of
     Inl err \<Rightarrow> Inl (LoadRelayInvalid (r_id r) err)
   | Inr n \<Rightarrow> load_relays now (s\<lparr>sto_relays := put (r_id n) n (sto_relays s),
       sto_states := put (r_id n) (zero_relay_state\<lparr>st_status := ''stopped'', st_updated_at := now\<rparr>) (sto_states s)\<rparr>) rs)"

fun load_clients :: "store \<Rightarrow> client list \<Rightarrow> (store_error, store) result" where
  "load_clients s [] = Inr s"
| "load_clients s (c # cs) = (case normalize_client (sto_relays s) c of
     Inl err \<Rightarrow> Inl (LoadClientInvalid (c_id c) err)
   | Inr n \<Rightarrow> load_clients (s\<lparr>sto_clients := put (c_id n) n (sto_clients s)\<rparr>) cs)"

fun check_defaults :: "(string, client) gomap \<Rightarrow> (string \<times> relay) list \<Rightarrow> (store_error, unit) result" where
  "check_defaults clients [] = Inr ()"
| "check_defaults clients ((i, r) # rest) = (case validate_default_client clients r of
     Inl err \<Rightarrow> Inl (LoadDefaultInvalid (r_id r) err)
   | Inr _ \<Rightarrow> check_defaults clients rest)"

definition load_store :: "gotime \<Rightarrow> bool \<Rightarrow> store \<Rightarrow> (store_error, store) result" where
  "load_store now readable s =
     (if sto_path s = [] then Inr s
      else (case sto_file s of
        None \<Rightarrow> Inr s
      | Some (relays, clients) \<Rightarrow>
          if \<not> readable then Inl StateUnreadable
          else and_then (load_relays now s relays) (\<lambda>s.
            and_then (load_clients s clients) (\<lambda>s.
            and_then (check_defaults (sto_clients s) (sto_relays s)) (\<lambda>_. Inr s)))))"

subsection \<open>The master key\<close>

datatype key_error = KeyPathRequired | InvalidMasterKey | KeyReadFailed | KeyRandomFailed | KeyWriteFailed

datatype file_read = FileContent string | FileMissing | FileUnreadable

text \<open>The key, and the content of the key file afterwards when it is written.\<close>

definition load_or_create_master_key ::
  "string \<Rightarrow> file_read \<Rightarrow> octets option \<Rightarrow> bool \<Rightarrow> (key_error, octets) result \<times> string option" where
  "load_or_create_master_key path file random writable =
     (if path = [] then (Inl KeyPathRequired, None)
      else (case file of
        FileContent data \<Rightarrow> (case decode64 (trim_space data) of
            None \<Rightarrow> (Inl InvalidMasterKey, None)
          | Some key \<Rightarrow> if length key \<noteq> 32 then (Inl InvalidMasterKey, None) else (Inr key, None))
      | FileUnreadable \<Rightarrow> (Inl KeyReadFailed, None)
      | FileMissing \<Rightarrow> (case random of
            None \<Rightarrow> (Inl KeyRandomFailed, None)
          | Some key \<Rightarrow> if writable then (Inr key, Some (encode64 key @ [byte 10])) else (Inl KeyWriteFailed, None))))"

definition new_store ::
  "gotime \<Rightarrow> string \<Rightarrow> octets \<Rightarrow> int \<Rightarrow> audit_dir \<Rightarrow> bool \<Rightarrow> persisted option \<Rightarrow> (store_error, store) result" where
  "new_store now path key retention dir readable file =
     load_store now readable (empty_store path key retention dir file)"

end
