(* ===== verification/SrtManager.thy ===== *)
theory SrtManager
  imports SrtStore RestartLimiter
begin

text \<open>
  The manager of SRT workers (\<open>internal/srtrelay/manager.go\<close>). Its lock guards \<open>mgr_jobs\<close> and
  \<open>mgr_restarts\<close> only, and is released before the store is updated, so each handler is
  given as its critical sections, in order, and as their composition. The last three fields
  stand for what the handlers leave in the runtime: the timers they arm, the signals they
  send, and the identity of the next \<open>relayJob\<close>, whose pointer the source compares.
\<close>

subsection \<open>State\<close>

record relay_job =
  job_token :: nat
  job_pid :: int
  job_stopping :: bool

datatype timer = RestartTimer string | FlappingTimer string | KillTimer string nat

datatype signal = Terminate | Kill

record manager =
  mgr_worker_path :: string
  mgr_store :: store
  mgr_jobs :: "(string, relay_job) gomap"
  mgr_restarts :: "(string, restart_tracker) gomap"
  mgr_timers :: "timer list"
  mgr_signals :: "(nat \<times> signal) list"
  mgr_next :: nat

definition restart_window :: int where "restart_window = seconds (5 * 60)"
definition max_restarts :: int where "max_restarts = 5"
definition worker_line_limit :: nat where "worker_line_limit = 1024 * 1024"

datatype manager_error =
  RelayNotFound | RelayDisabled | WorkerPath string | AlreadyRunning | SpawnFailed string | StopTimeout

fun manager_error_text :: "manager_error \<Rightarrow> string" where
  "manager_error_text RelayNotFound = ''SRT relay not found''"
| "manager_error_text RelayDisabled = ''SRT relay is disabled''"
| "manager_error_text (WorkerPath e) = ''SRT worker: '' @ e"
| "manager_error_text AlreadyRunning = ''SRT relay is already running''"
| "manager_error_text (SpawnFailed e) = e"
| "manager_error_text StopTimeout = ''SRT relay did not stop in time''"

definition new_manager :: "string \<Rightarrow> store \<Rightarrow> manager" where
  "new_manager path s = \<lparr>mgr_worker_path = path, mgr_store = s, mgr_jobs = [], mgr_restarts = [],
     mgr_timers = [], mgr_signals = [], mgr_next = 0\<rparr>"

definition set_state :: "gotime \<Rightarrow> string \<Rightarrow> (relay_state \<Rightarrow> relay_state) \<Rightarrow> manager \<Rightarrow> manager" where
  "set_state now i f m = m\<lparr>mgr_store := snd (update_state now i f (mgr_store m))\<rparr>"

definition arm :: "timer \<Rightarrow> manager \<Rightarrow> manager" where
  "arm t m = m\<lparr>mgr_timers := mgr_timers m @ [t]\<rparr>"

definition is_running :: "string \<Rightarrow> manager \<Rightarrow> bool" where
  "is_running i m \<longleftrightarrow> has_key (mgr_jobs m) i"

subsection \<open>Start\<close>

text \<open>
  What the operating system answers: whether the worker's binary is found, and whether its
  pipes and process can be made. The configuration always encodes to JSON, being records
  of strings, numbers and lists.
\<close>

record spawn_env =
  se_path_error :: "string option"
  se_process :: "(string, int) result"

definition worker_input :: "store \<Rightarrow> relay \<Rightarrow> worker_config" where
  "worker_input s r = (if r_direction r = direction_publish
     then \<lparr>wcfg_relay = r, wcfg_publish_passphrase = publish_passphrase s (r_id r), wcfg_clients = []\<rparr>
     else \<lparr>wcfg_relay = r, wcfg_publish_passphrase = [], wcfg_clients = worker_clients s (r_id r)\<rparr>)"

definition start_claim ::
  "gotime \<Rightarrow> spawn_env \<Rightarrow> string \<Rightarrow> bool \<Rightarrow> manager \<Rightarrow> (manager_error, relay_job \<times> worker_config) result \<times> manager" where
  "start_claim now env i restarted m = (case get_relay now (mgr_store m) i of
     None \<Rightarrow> (Inl RelayNotFound, m)
   | Some view \<Rightarrow>
       if \<not> r_enabled (v_config view) then (Inl RelayDisabled, m)
       else (case se_path_error env of
         Some e \<Rightarrow> (Inl (WorkerPath e), m)
       | None \<Rightarrow>
           if has_key (mgr_jobs m) i then (Inl AlreadyRunning, m)
           else (case se_process env of
             Inl e \<Rightarrow> (Inl (SpawnFailed e), m)
           | Inr pid \<Rightarrow>
               let job = \<lparr>job_token = mgr_next m, job_pid = pid, job_stopping = False\<rparr>
               in (Inr (job, worker_input (mgr_store m) (v_config view)),
                   m\<lparr>mgr_jobs := put i job (mgr_jobs m),
                     mgr_restarts := (if restarted then mgr_restarts m else del i (mgr_restarts m)),
                     mgr_next := mgr_next m + 1\<rparr>))))"

definition started :: "bool \<Rightarrow> int \<Rightarrow> relay_state \<Rightarrow> relay_state" where
  "started restarted pid st = st\<lparr>st_status := ''starting'', st_pid := pid, st_last_error := [], st_flapping := False,
     st_restart_count := (if restarted then st_restart_count st + 1 else st_restart_count st)\<rparr>"

definition start_publish :: "gotime \<Rightarrow> string \<Rightarrow> bool \<Rightarrow> int \<Rightarrow> manager \<Rightarrow> manager" where
  "start_publish now i restarted pid = set_state now i (started restarted pid)"

definition start_relay ::
  "gotime \<Rightarrow> spawn_env \<Rightarrow> string \<Rightarrow> bool \<Rightarrow> manager \<Rightarrow> (manager_error, relay_job \<times> worker_config) result \<times> manager" where
  "start_relay now env i restarted m = (case start_claim now env i restarted m of
     (Inl e, m') \<Rightarrow> (Inl e, m')
   | (Inr (job, input), m') \<Rightarrow> (Inr (job, input), start_publish now i restarted (job_pid job) m'))"

definition start_failed :: "string \<Rightarrow> relay_state \<Rightarrow> relay_state" where
  "start_failed reason st = st\<lparr>st_status := ''error'', st_last_error := reason\<rparr>"

definition start_one :: "gotime \<Rightarrow> (string \<Rightarrow> spawn_env) \<Rightarrow> relay_view \<Rightarrow> manager \<Rightarrow> manager" where
  "start_one now envs view m =
     (if \<not> r_enabled (v_config view) then m
      else let i = r_id (v_config view) in (case start_relay now (envs i) i False m of
        (Inl e, m') \<Rightarrow> set_state now i (start_failed (manager_error_text e)) m'
      | (Inr _, m') \<Rightarrow> m'))"

definition start_enabled :: "gotime \<Rightarrow> (string \<Rightarrow> spawn_env) \<Rightarrow> manager \<Rightarrow> manager" where
  "start_enabled now envs m = fold (start_one now envs) (list_relays now (mgr_store m)) m"

subsection \<open>Stop\<close>

definition stop_claim :: "gotime \<Rightarrow> string \<Rightarrow> manager \<Rightarrow> (manager_error, relay_job option) result \<times> manager" where
  "stop_claim now i m = (case get (mgr_jobs m) i of
     None \<Rightarrow> (if get_relay now (mgr_store m) i = None then Inl RelayNotFound else Inr None, m)
   | Some job \<Rightarrow> (Inr (Some job),
       m\<lparr>mgr_jobs := put i (job\<lparr>job_stopping := True\<rparr>) (mgr_jobs m), mgr_restarts := del i (mgr_restarts m)\<rparr>))"

definition stop_publish :: "gotime \<Rightarrow> string \<Rightarrow> manager \<Rightarrow> manager" where
  "stop_publish now i = set_state now i (\<lambda>st. st\<lparr>st_status := ''stopping''\<rparr>)"

definition stop_signal :: "bool \<Rightarrow> string \<Rightarrow> nat \<Rightarrow> manager \<Rightarrow> manager" where
  "stop_signal delivered i token m = arm (KillTimer i token)
     (m\<lparr>mgr_signals := mgr_signals m @ (token, Terminate) # (if delivered then [] else [(token, Kill)])\<rparr>)"

definition stop_relay :: "gotime \<Rightarrow> bool \<Rightarrow> string \<Rightarrow> manager \<Rightarrow> (manager_error, unit) result \<times> manager" where
  "stop_relay now delivered i m = (case stop_claim now i m of
     (Inl e, m') \<Rightarrow> (Inl e, m')
   | (Inr None, m') \<Rightarrow> (Inr (), m')
   | (Inr (Some job), m') \<Rightarrow> (Inr (), stop_signal delivered i (job_token job) (stop_publish now i m')))"

definition has_job :: "string \<Rightarrow> nat \<Rightarrow> manager \<Rightarrow> bool" where
  "has_job i token m \<longleftrightarrow> (case get (mgr_jobs m) i of None \<Rightarrow> False | Some job \<Rightarrow> job_token job = token)"

definition kill_timer :: "string \<Rightarrow> nat \<Rightarrow> manager \<Rightarrow> manager" where
  "kill_timer i token m =
     (if has_job i token m then m\<lparr>mgr_signals := mgr_signals m @ [(token, Kill)]\<rparr> else m)"

definition stop_all :: "gotime \<Rightarrow> (string \<Rightarrow> bool) \<Rightarrow> manager \<Rightarrow> manager" where
  "stop_all now delivered m = fold (\<lambda>i m. snd (stop_relay now (delivered i) i m)) (keys (mgr_jobs m)) m"

text \<open>
  The wait of \<open>Restart\<close>: at each turn the clock is read, and while the relay still runs the
  goroutine sleeps, during which the other goroutines change the manager. \<open>None\<close> means the
  turns given were not enough.
\<close>

fun await_stop ::
  "gotime \<Rightarrow> spawn_env \<Rightarrow> string \<Rightarrow> (gotime \<times> (manager \<Rightarrow> manager)) list \<Rightarrow> manager
    \<Rightarrow> ((manager_error, relay_job \<times> worker_config) result \<times> manager) option" where
  "await_stop deadline env i [] m = None"
| "await_stop deadline env i ((now, others) # turns) m =
     (if deadline \<le> now then Some (Inl StopTimeout, m)
      else if \<not> has_key (mgr_jobs m) i then Some (start_relay now env i False m)
      else await_stop deadline env i turns (others m))"

definition restart_relay ::
  "gotime \<Rightarrow> bool \<Rightarrow> spawn_env \<Rightarrow> string \<Rightarrow> (gotime \<times> (manager \<Rightarrow> manager)) list \<Rightarrow> manager
    \<Rightarrow> ((manager_error, relay_job \<times> worker_config) result \<times> manager) option" where
  "restart_relay now delivered env i turns m = (case stop_relay now delivered i m of
     (Inl e, m') \<Rightarrow> Some (Inl e, m')
   | (Inr _, m') \<Rightarrow> await_stop (time_add now (seconds 6)) env i turns m')"

subsection \<open>Worker output\<close>

text \<open>
  Lines up to the first that does not fit the scanner's buffer, which ends the reading;
  a line that is not an event is skipped. \<open>decode\<close> is the JSON decoding of an event.
\<close>

definition read_events ::
  "audit_enc \<Rightarrow> (nat \<Rightarrow> audit_env \<times> audit_env \<times> gotime) \<Rightarrow> (string \<Rightarrow> worker_event option) \<Rightarrow> string
    \<Rightarrow> string list \<Rightarrow> manager \<Rightarrow> manager" where
  "read_events enc envs decode i lines m =
     fold (\<lambda>(n, line) m. case decode line of
        None \<Rightarrow> m
      | Some e \<Rightarrow> (case envs n of (env1, env2, clock) \<Rightarrow>
          m\<lparr>mgr_store := apply_worker_event enc env1 env2 clock i e (mgr_store m)\<rparr>))
       (enumerate 0 (takeWhile (\<lambda>l. length l < worker_line_limit) lines)) m"

subsection \<open>The end of a worker, and restarts\<close>

definition allow_restart :: "string \<Rightarrow> gotime \<Rightarrow> manager \<Rightarrow> bool \<times> manager" where
  "allow_restart i now m = (let tracker = tracker_of (mgr_restarts m) i;
       opened = (if is_zero (rt_first tracker) \<or> time_sub now (rt_first tracker) > restart_window
         then \<lparr>rt_first = now, rt_attempts = 0\<rparr> else tracker);
       counted = opened\<lparr>rt_attempts := rt_attempts opened + 1\<rparr>
     in (rt_attempts counted \<le> max_restarts, m\<lparr>mgr_restarts := put i counted (mgr_restarts m)\<rparr>))"

definition wait_claim :: "string \<Rightarrow> nat \<Rightarrow> manager \<Rightarrow> bool option \<times> manager" where
  "wait_claim i token m = (case get (mgr_jobs m) i of
     None \<Rightarrow> (None, m)
   | Some job \<Rightarrow> if job_token job \<noteq> token then (None, m)
       else (Some (job_stopping job), m\<lparr>mgr_jobs := del i (mgr_jobs m)\<rparr>))"

definition exited :: "string \<Rightarrow> relay_state \<Rightarrow> relay_state" where
  "exited reason st = st\<lparr>st_status := ''error'', st_pid := 0, st_active_clients := 0, st_last_error := reason\<rparr>"

definition stopped :: "relay_state \<Rightarrow> relay_state" where
  "stopped st = st\<lparr>st_status := ''stopped'', st_pid := 0, st_active_clients := 0\<rparr>"

definition flapping :: "string \<Rightarrow> relay_state \<Rightarrow> relay_state" where
  "flapping reason st = st\<lparr>st_status := ''flapping'', st_flapping := True, st_last_error := reason\<rparr>"

definition close_sessions ::
  "audit_enc \<Rightarrow> (string \<Rightarrow> audit_env) \<Rightarrow> gotime \<Rightarrow> string \<Rightarrow> string \<Rightarrow> manager \<Rightarrow> manager" where
  "close_sessions enc envs now i reason m =
     m\<lparr>mgr_store := snd (close_relay_sessions enc envs now i reason now (mgr_store m))\<rparr>"

definition schedule_restart :: "gotime \<Rightarrow> string \<Rightarrow> manager \<Rightarrow> manager" where
  "schedule_restart now i m = (case get_relay now (mgr_store m) i of
     None \<Rightarrow> m
   | Some view \<Rightarrow>
       if \<not> r_enabled (v_config view) then m
       else (case allow_restart i now m of (ok, m') \<Rightarrow>
         if \<not> ok then arm (FlappingTimer i) (set_state now i (flapping ''SRT worker exceeded restart limit'') m')
         else arm (RestartTimer i) (set_state now i (\<lambda>st. st\<lparr>st_status := ''restarting''\<rparr>) m')))"

definition wait_publish ::
  "audit_enc \<Rightarrow> (string \<Rightarrow> audit_env) \<Rightarrow> audit_env \<Rightarrow> gotime \<Rightarrow> string \<Rightarrow> bool \<Rightarrow> string option \<Rightarrow> manager \<Rightarrow> manager" where
  "wait_publish enc envs env now i stopping err m =
     (if stopping then set_state now i stopped (close_sessions enc envs now i ''SRT worker stopped'' m)
      else let reason = (case err of None \<Rightarrow> ''SRT worker exited'' | Some e \<Rightarrow> e);
               m1 = set_state now i (exited reason) (close_sessions enc envs now i reason m);
               event = zero_audit_event\<lparr>a_type := ''relay_worker_exited'', a_level := ''error'', a_relay_id := i, a_reason := reason\<rparr>
           in schedule_restart now i (m1\<lparr>mgr_store := snd (record_audit enc env event (mgr_store m1))\<rparr>))"

definition wait_relay ::
  "audit_enc \<Rightarrow> (string \<Rightarrow> audit_env) \<Rightarrow> audit_env \<Rightarrow> gotime \<Rightarrow> string \<Rightarrow> nat \<Rightarrow> string option \<Rightarrow> manager \<Rightarrow> manager" where
  "wait_relay enc envs env now i token err m = (case wait_claim i token m of
     (None, m') \<Rightarrow> m'
   | (Some stopping, m') \<Rightarrow> wait_publish enc envs env now i stopping err m')"

definition disarm :: "timer \<Rightarrow> manager \<Rightarrow> manager" where
  "disarm t m = m\<lparr>mgr_timers := remove1 t (mgr_timers m)\<rparr>"

definition restart_timer ::
  "gotime \<Rightarrow> spawn_env \<Rightarrow> string \<Rightarrow> manager \<Rightarrow> (manager_error, relay_job \<times> worker_config) result \<times> manager" where
  "restart_timer now env i m = start_relay now env i True (disarm (RestartTimer i) m)"

definition retry_claim :: "gotime \<Rightarrow> string \<Rightarrow> manager \<Rightarrow> bool \<times> manager" where
  "retry_claim now i m = (case get_relay now (mgr_store m) i of
     None \<Rightarrow> (False, m)
   | Some view \<Rightarrow>
       if \<not> r_enabled (v_config view) \<or> st_status (v_state view) \<noteq> ''flapping'' then (False, m)
       else let m' = m\<lparr>mgr_restarts := del i (mgr_restarts m)\<rparr> in
         if has_key (mgr_jobs m) i then (False, m')
         else (True, set_state now i (\<lambda>st. st\<lparr>st_status := ''restarting'', st_flapping := False\<rparr>) m'))"

definition retry_failed :: "gotime \<Rightarrow> string \<Rightarrow> manager_error \<Rightarrow> manager \<Rightarrow> manager" where
  "retry_failed now i e m = arm (FlappingTimer i) (set_state now i (flapping (manager_error_text e)) m)"

definition retry_flapping :: "gotime \<Rightarrow> spawn_env \<Rightarrow> string \<Rightarrow> manager \<Rightarrow> manager" where
  "retry_flapping now env i m = (case retry_claim now i m of
     (False, m') \<Rightarrow> m'
   | (True, m') \<Rightarrow> (case start_relay now env i True m' of
       (Inl e, m'') \<Rightarrow> retry_failed now i e m''
     | (Inr _, m'') \<Rightarrow> m''))"

subsection \<open>The restart limit\<close>

interpretation srt_limit: restart_limiter "allow_restart i" "\<lambda>m. tracker_of (mgr_restarts m) i"
    restart_window max_restarts "\<lambda>t. \<not> is_zero t"
  for i
  by unfold_locales
    (auto simp: allow_restart_def next_tracker_def window_over_def tracker_of_def Let_def max_restarts_def)

end
