(* ===== verification/SrtStoreLaws.thy ===== *)
theory SrtStoreLaws
  imports SrtStore
begin

text \<open>
  The invariant of the SRT store and the step relation of its operations. The invariant
  holds in every store reached from a fresh one, through restarts included: IDs are the
  keys, every relay and client is well formed, no two listeners share an address and port,
  a client is only assigned to relays that exist, and a relay's compatibility default is an
  enabled client assigned to it.
\<close>

subsection \<open>The invariant\<close>

definition relays_ok :: "(string, relay) gomap \<Rightarrow> bool" where
  "relays_ok relays \<longleftrightarrow> map_ok relays \<and> (\<forall>k r. get relays k = Some r \<longrightarrow> r_id r = k \<and> relay_shape r)"

definition same_listener :: "relay \<Rightarrow> relay \<Rightarrow> bool" where
  "same_listener a b \<longleftrightarrow> r_direction a = direction_listener \<and> r_direction b = direction_listener
     \<and> r_bind_address a = r_bind_address b \<and> r_port a = r_port b"

definition listeners_apart :: "(string, relay) gomap \<Rightarrow> bool" where
  "listeners_apart relays \<longleftrightarrow> (\<forall>i j a b. get relays i = Some a \<and> get relays j = Some b
     \<and> same_listener a b \<longrightarrow> i = j)"

definition clients_ok :: "(string, relay) gomap \<Rightarrow> (string, client) gomap \<Rightarrow> bool" where
  "clients_ok relays clients \<longleftrightarrow> map_ok clients \<and> (\<forall>k c. get clients k = Some c \<longrightarrow>
     c_id c = k \<and> client_shape c \<and> (\<forall>i \<in> set (c_allowed_relay_ids c). has_key relays i))"

definition defaults_ok :: "(string, relay) gomap \<Rightarrow> (string, client) gomap \<Rightarrow> bool" where
  "defaults_ok relays clients \<longleftrightarrow> (\<forall>k r. get relays k = Some r \<and> r_allow_missing_stream_id r \<longrightarrow>
     (\<exists>c. get clients (r_default_client_id r) = Some c \<and> c_enabled c \<and> k \<in> set (c_allowed_relay_ids c)))"

definition sessions_ok :: "(string, session) gomap \<Rightarrow> bool" where
  "sessions_ok sessions \<longleftrightarrow> map_ok sessions \<and> (\<forall>k x. get sessions k = Some x \<longrightarrow> s_id x = k)"

definition config_ok :: "(string, relay) gomap \<Rightarrow> (string, client) gomap \<Rightarrow> bool" where
  "config_ok relays clients \<longleftrightarrow> relays_ok relays \<and> listeners_apart relays \<and> clients_ok relays clients
     \<and> defaults_ok relays clients"

text \<open>The state file holds the values of such maps, written in the order of the keys.\<close>

definition file_ok :: "persisted option \<Rightarrow> bool" where
  "file_ok file \<longleftrightarrow> (case file of None \<Rightarrow> True | Some (rs, cs) \<Rightarrow>
     \<exists>relays clients. config_ok relays clients \<and> rs = sorted_vals relays \<and> cs = sorted_vals clients)"

definition store_ok :: "store \<Rightarrow> bool" where
  "store_ok s \<longleftrightarrow> config_ok (sto_relays s) (sto_clients s) \<and> sessions_ok (sto_sessions s)
     \<and> map_ok (sto_states s) \<and> file_ok (sto_file s)"

lemmas store_invariants = config_ok_def relays_ok_def listeners_apart_def clients_ok_def defaults_ok_def

subsection \<open>Saving and announcing do not touch the maps\<close>

lemma emit_keeps [simp]:
  "sto_relays (emit_locked e s) = sto_relays s" "sto_clients (emit_locked e s) = sto_clients s"
  "sto_sessions (emit_locked e s) = sto_sessions s" "sto_states (emit_locked e s) = sto_states s"
  "sto_file (emit_locked e s) = sto_file s" "sto_path (emit_locked e s) = sto_path s"
  "sto_master_key (emit_locked e s) = sto_master_key s" "sto_audit (emit_locked e s) = sto_audit s"
  "sto_retention (emit_locked e s) = sto_retention s"
  by (simp_all add: emit_locked_def)

lemma store_ok_emit [simp]: "store_ok (emit_locked e s) = store_ok s"
  by (simp add: store_ok_def)

lemma store_ok_save: "store_ok s \<Longrightarrow> store_ok (snd (save_locked saved s))"
  by (auto simp: save_locked_def store_ok_def file_ok_def)

lemma save_keeps [simp]:
  "sto_relays (snd (save_locked saved s)) = sto_relays s" "sto_clients (snd (save_locked saved s)) = sto_clients s"
  "sto_sessions (snd (save_locked saved s)) = sto_sessions s" "sto_states (snd (save_locked saved s)) = sto_states s"
  "sto_path (snd (save_locked saved s)) = sto_path s" "sto_master_key (snd (save_locked saved s)) = sto_master_key s"
  by (simp_all add: save_locked_def)

lemma save_and_emit_keeps [simp]:
  "sto_relays (snd (save_and_emit saved e a s)) = sto_relays s"
  "sto_clients (snd (save_and_emit saved e a s)) = sto_clients s"
  "sto_sessions (snd (save_and_emit saved e a s)) = sto_sessions s"
  "sto_states (snd (save_and_emit saved e a s)) = sto_states s"
  "sto_path (snd (save_and_emit saved e a s)) = sto_path s"
  "sto_master_key (snd (save_and_emit saved e a s)) = sto_master_key s"
  using save_keeps [of saved s]
  by (auto simp: save_and_emit_def simp del: save_keeps split: prod.splits sum.splits)

lemma store_ok_save_emit: "store_ok s \<Longrightarrow> store_ok (snd (save_and_emit saved e a s))"
  using store_ok_save [of s saved] by (auto simp: save_and_emit_def split: prod.splits sum.splits)

lemma save_and_emit_Inr:
  "fst (save_and_emit saved e a s) = Inr b \<Longrightarrow> b = a \<and> (sto_path s = [] \<or> saved)"
  by (auto simp: save_and_emit_def save_locked_def split: prod.splits sum.splits if_splits)

lemma save_and_emit_file:
  "saved \<Longrightarrow> sto_path s \<noteq> [] \<Longrightarrow>
    sto_file (snd (save_and_emit saved e a s)) = Some (sorted_vals (sto_relays s), sorted_vals (sto_clients s))"
  by (simp add: save_and_emit_def save_locked_def)

lemma record_audit_keeps [simp]:
  "sto_relays (snd (record_audit enc env e s)) = sto_relays s"
  "sto_clients (snd (record_audit enc env e s)) = sto_clients s"
  "sto_sessions (snd (record_audit enc env e s)) = sto_sessions s"
  "sto_states (snd (record_audit enc env e s)) = sto_states s"
  "sto_file (snd (record_audit enc env e s)) = sto_file s"
  "sto_path (snd (record_audit enc env e s)) = sto_path s"
  "sto_master_key (snd (record_audit enc env e s)) = sto_master_key s"
  by (auto simp: record_audit_def split: prod.splits sum.splits)

lemma store_ok_audit [simp]: "store_ok (snd (record_audit enc env e s)) = store_ok s"
  by (simp add: store_ok_def)

subsection \<open>Relays\<close>

lemma find_entries_None:
  "map_ok m \<Longrightarrow> find P m = None \<Longrightarrow> get m k = Some v \<Longrightarrow> \<not> P (k, v)"
  using gm.entries_lookup [of m k v] by (auto simp: find_None_set)

lemma find_entries_Some:
  "map_ok m \<Longrightarrow> find P m = Some (k, v) \<Longrightarrow> get m k = Some v \<and> P (k, v)"
  using gm.entries_lookup [of m k v] find_Some_set [of P m "(k, v)"] by auto

lemma has_key_put: "has_key m i \<Longrightarrow> has_key (put k v m) i"
  by (simp add: has_key_def)

text \<open>Replacing or adding a well-formed relay that clashes with no other listener.\<close>

lemma config_put_relay:
  assumes "config_ok relays clients" "relay_shape r"
    and "find (listener_clash r) relays = None"
    and "validate_default_client clients r = Inr u"
  shows "config_ok (put (r_id r) r relays) clients"
proof -
  have m: "map_ok relays" using assms(1) by (simp add: store_invariants)
  have apart: "\<not> same_listener r b" if "get relays j = Some b" "j \<noteq> r_id r" for j b
    using find_entries_None [OF m assms(3) that(1)] that(2)
    by (auto simp: listener_clash_def same_listener_def)
  have "relays_ok (put (r_id r) r relays)"
    using assms(1,2) by (auto simp: store_invariants)
  moreover have "listeners_apart (put (r_id r) r relays)"
    unfolding listeners_apart_def
  proof (intro allI impI, elim conjE)
    fix i j a b
    assume a: "get (put (r_id r) r relays) i = Some a" and b: "get (put (r_id r) r relays) j = Some b"
      and s: "same_listener a b"
    have s': "same_listener b a" using s by (auto simp: same_listener_def)
    have old: "get relays i = Some a \<Longrightarrow> get relays j = Some b \<Longrightarrow> i = j"
      using assms(1) s by (auto simp: store_invariants)
    show "i = j"
      using a b s s' old apart by (cases "i = r_id r"; cases "j = r_id r") auto
  qed
  moreover have "clients_ok (put (r_id r) r relays) clients"
    using assms(1) by (auto simp: store_invariants has_key_put)
  moreover have "defaults_ok (put (r_id r) r relays) clients"
    using assms(1,4) by (auto simp: store_invariants validate_default_iff)
  ultimately show ?thesis by (simp add: config_ok_def)
qed

lemma config_del_relay:
  assumes "config_ok relays clients"
    and "find (\<lambda>(_, c). i \<in> set (c_allowed_relay_ids c)) clients = None"
  shows "config_ok (del i relays) clients"
proof -
  have "i \<notin> set (c_allowed_relay_ids c)" if "get clients k = Some c" for k c
    using find_entries_None [OF _ assms(2) that] assms(1) by (auto simp: store_invariants)
  then show ?thesis
    using assms(1) by (auto simp: store_invariants has_key_def split: if_splits)
qed

lemma clash_key [simp]: "listener_clash (r\<lparr>r_key_version := k\<rparr>) = listener_clash r"
  by (simp add: listener_clash_def fun_eq_iff)

lemma validate_key [simp]: "validate_default_client clients (r\<lparr>r_key_version := k\<rparr>) = validate_default_client clients r"
  by (simp add: validate_default_client_def split: option.split)

lemma store_ok_relays:
  "store_ok s \<Longrightarrow> config_ok relays (sto_clients s) \<Longrightarrow> map_ok states \<Longrightarrow>
    store_ok (s\<lparr>sto_relays := relays, sto_states := states\<rparr>)"
  by (simp add: store_ok_def)

lemma commit_relay_ok:
  assumes "store_ok s" "relay_shape r" "find (listener_clash r) (sto_relays s) = None"
    "validate_default_client (sto_clients s) r = Inr u"
  shows "store_ok (commit_relay now r s)"
  unfolding commit_relay_def
  using assms config_put_relay [OF _ assms(2-4)] by (intro store_ok_relays) (auto simp: store_ok_def)

lemma upsert_relay_ok: "store_ok s \<Longrightarrow> store_ok (snd (upsert_relay now saved r s))"
proof -
  assume ok: "store_ok s"
  show ?thesis
  proof (cases "normalize_relay r")
    case (Inl e)
    then show ?thesis using ok by (simp add: upsert_relay_def)
  next
    case (Inr n)
    then have "relay_shape n" using normalize_relay_iff relay_ok_imp_shape by blast
    then show ?thesis
      unfolding upsert_relay_def Inr sum.case Let_def
      using ok
      by (auto intro!: store_ok_save_emit commit_relay_ok split: option.splits sum.splits prod.splits)
  qed
qed

text \<open>A relay that differs from the stored one only in its key version.\<close>

lemma config_rekey_relay:
  assumes "config_ok relays clients" "get relays i = Some r"
  shows "config_ok (put i (r\<lparr>r_key_version := k\<rparr>) relays) clients"
proof -
  let ?m = "put i (r\<lparr>r_key_version := k\<rparr>) relays"
  have old: "\<exists>b. get relays j = Some b \<and> r_id a = r_id b \<and> r_direction a = r_direction b
      \<and> r_bind_address a = r_bind_address b \<and> r_port a = r_port b
      \<and> r_allow_missing_stream_id a = r_allow_missing_stream_id b
      \<and> r_default_client_id a = r_default_client_id b \<and> relay_shape a = relay_shape b"
    if "get ?m j = Some a" for j a
    using that assms(2) by (cases "j = i") auto
  have "relays_ok ?m" using assms by (auto simp: config_ok_def relays_ok_def)
  moreover have "listeners_apart ?m"
    unfolding listeners_apart_def same_listener_def
  proof (intro allI impI, elim conjE)
    fix x y a b
    assume "get ?m x = Some a" "get ?m y = Some b" and s: "r_direction a = direction_listener"
      "r_direction b = direction_listener" "r_bind_address a = r_bind_address b" "r_port a = r_port b"
    then obtain a' b' where "get relays x = Some a'" "get relays y = Some b'" "same_listener a' b'"
      using old [of x a] old [of y b] by (auto simp: same_listener_def)
    then show "x = y" using assms(1) by (auto simp: config_ok_def listeners_apart_def)
  qed
  moreover have "clients_ok ?m clients" using assms(1) by (auto simp: config_ok_def clients_ok_def has_key_put)
  moreover have "defaults_ok ?m clients"
    unfolding defaults_ok_def
  proof (intro allI impI, elim conjE)
    fix j a assume "get ?m j = Some a" "r_allow_missing_stream_id a"
    with old [of j a] show "\<exists>c. get clients (r_default_client_id a) = Some c \<and> c_enabled c
        \<and> j \<in> set (c_allowed_relay_ids c)"
      using assms(1) by (auto simp: config_ok_def defaults_ok_def)
  qed
  ultimately show ?thesis by (simp add: config_ok_def)
qed

lemma relay_key_ok: "store_ok s \<Longrightarrow> get (sto_relays s) i = Some r \<Longrightarrow>
    store_ok (s\<lparr>sto_relays := put i (r\<lparr>r_key_version := k\<rparr>) (sto_relays s)\<rparr>)"
  by (simp add: store_ok_def config_rekey_relay)

lemma rotate_relay_key_ok: "store_ok s \<Longrightarrow> store_ok (snd (rotate_relay_key now saved i s))"
  by (auto simp: rotate_relay_key_def Let_def intro!: store_ok_save_emit relay_key_ok split: option.splits)

lemma delete_relay_ok: "store_ok s \<Longrightarrow> store_ok (snd (delete_relay now saved i s))"
proof -
  assume ok: "store_ok s"
  have "store_ok (s\<lparr>sto_relays := del i (sto_relays s), sto_states := del i (sto_states s)\<rparr>)"
    if "find (\<lambda>(_, c). i \<in> set (c_allowed_relay_ids c)) (sto_clients s) = None"
    using ok config_del_relay [OF _ that, of "sto_relays s"] by (auto simp: store_ok_def)
  then show ?thesis
    using ok by (auto simp: delete_relay_def intro!: store_ok_save_emit split: option.splits)
qed

subsection \<open>Clients\<close>

lemma config_put_client:
  assumes "config_ok relays clients" "client_shape c"
    "\<forall>i \<in> set (c_allowed_relay_ids c). has_key relays i"
    and "find (default_broken c) relays = None"
  shows "config_ok relays (put (c_id c) c clients)"
proof -
  have "c_enabled c \<and> k \<in> set (c_allowed_relay_ids c)"
    if "get relays k = Some r" "r_allow_missing_stream_id r" "r_default_client_id r = c_id c" for k r
    using find_entries_None [OF _ assms(4) that(1)] assms(1) that
    by (auto simp: default_broken_def store_invariants)
  then show ?thesis
    using assms(1-3) by (auto simp: store_invariants)
qed

lemma client_key_shape: "client_shape c \<Longrightarrow> 1 \<le> k \<Longrightarrow> client_shape (c\<lparr>c_key_version := k\<rparr>)"
  by (auto simp: client_shape_def)

lemma default_broken_key [simp]: "default_broken (c\<lparr>c_key_version := k\<rparr>) = default_broken c"
  by (simp add: default_broken_def fun_eq_iff)

lemma client_ok_parts:
  "client_ok relays c \<Longrightarrow> client_shape c \<and> (\<forall>i \<in> set (c_allowed_relay_ids c). has_key relays i)"
  by (auto simp: client_ok_def assigned_to_def has_key_def list_all_iff)

lemma store_ok_client:
  "store_ok s \<Longrightarrow> config_ok (sto_relays s) clients \<Longrightarrow> store_ok (s\<lparr>sto_clients := clients\<rparr>)"
  by (simp add: store_ok_def)

lemma upsert_client_ok: "store_ok s \<Longrightarrow> store_ok (snd (upsert_client_with create now saved c s))"
proof -
  assume ok: "store_ok s"
  let ?c = "stamp_client now (get (sto_clients s) (c_id c)) c"
  show ?thesis
  proof (cases "normalize_client (sto_relays s) ?c")
    case (Inl e)
    then show ?thesis using ok by (simp add: upsert_client_with_def Let_def)
  next
    case (Inr n)
    have shape: "client_shape n" "\<forall>i \<in> set (c_allowed_relay_ids n). has_key (sto_relays s) i"
      using client_ok_parts [OF normalize_client_ok [OF Inr]] by auto
    have put: "store_ok (s\<lparr>sto_clients := put (c_id n) (n\<lparr>c_key_version := k\<rparr>) (sto_clients s)\<rparr>)"
      if "find (default_broken n) (sto_relays s) = None" "1 \<le> k" for k
      using ok that shape config_put_client [of "sto_relays s" "sto_clients s" "n\<lparr>c_key_version := k\<rparr>"]
      by (intro store_ok_client) (auto simp: store_ok_def client_key_shape)
    have "1 \<le> c_key_version n" using shape by (simp add: client_shape_def)
    then show ?thesis
      using ok put [of "c_key_version n"] put [of "c_key_version n + 1"]
      by (auto simp: upsert_client_with_def Let_def Inr intro!: store_ok_save_emit split: option.splits)
  qed
qed

lemma config_replace_client:
  assumes "config_ok relays clients" "get clients i = Some c" "client_shape c'"
    "c_id c' = c_id c" "c_enabled c' = c_enabled c" "c_allowed_relay_ids c' = c_allowed_relay_ids c"
  shows "config_ok relays (put i c' clients)"
proof -
  have "defaults_ok relays (put i c' clients)"
    unfolding defaults_ok_def
  proof (intro allI impI)
    fix k r assume r: "get relays k = Some r \<and> r_allow_missing_stream_id r"
    then obtain d where d: "get clients (r_default_client_id r) = Some d" "c_enabled d"
      "k \<in> set (c_allowed_relay_ids d)"
      using assms(1) by (auto simp: config_ok_def defaults_ok_def)
    then show "\<exists>d. get (put i c' clients) (r_default_client_id r) = Some d \<and> c_enabled d
        \<and> k \<in> set (c_allowed_relay_ids d)"
      using assms by (cases "r_default_client_id r = i") auto
  qed
  then show ?thesis
    using assms by (auto simp: config_ok_def clients_ok_def)
qed

lemma rotate_client_key_ok: "store_ok s \<Longrightarrow> store_ok (snd (rotate_client_key now saved i s))"
proof -
  assume ok: "store_ok s"
  have "store_ok (s\<lparr>sto_clients := put i (c\<lparr>c_key_version := c_key_version c + 1, c_updated_at := now\<rparr>) (sto_clients s)\<rparr>)"
    if c: "get (sto_clients s) i = Some c" for c
  proof -
    have "client_shape c" using ok c by (auto simp: store_ok_def store_invariants)
    then have "client_shape (c\<lparr>c_key_version := c_key_version c + 1, c_updated_at := now\<rparr>)"
      by (simp add: client_shape_def)
    then show ?thesis
      using ok c by (intro store_ok_client config_replace_client [where c = c]) (auto simp: store_ok_def)
  qed
  then show ?thesis
    using ok by (auto simp: rotate_client_key_def Let_def intro!: store_ok_save_emit split: option.splits)
qed

lemma delete_client_ok: "store_ok s \<Longrightarrow> store_ok (snd (delete_client now saved i s))"
proof -
  assume ok: "store_ok s"
  have "store_ok (s\<lparr>sto_clients := del i (sto_clients s)\<rparr>)"
    if "find (\<lambda>(_, r). r_allow_missing_stream_id r \<and> r_default_client_id r = i) (sto_relays s) = None"
  proof (rule store_ok_client [OF ok])
    have "r_default_client_id r \<noteq> i"
      if "get (sto_relays s) k = Some r" "r_allow_missing_stream_id r" for k r
      using find_entries_None [OF _ \<open>find _ _ = None\<close> that(1)] ok that(2)
      by (auto simp: store_ok_def store_invariants)
    then show "config_ok (sto_relays s) (del i (sto_clients s))"
      using ok by (auto simp: store_ok_def store_invariants split: if_splits)
  qed
  then show ?thesis
    using ok by (auto simp: delete_client_def intro!: store_ok_save_emit split: option.splits)
qed

subsection \<open>Sessions\<close>

text \<open>Operations that change only sessions, subscribers and relay states.\<close>

definition same_config :: "store \<Rightarrow> store \<Rightarrow> bool" where
  "same_config s t \<longleftrightarrow> sto_relays t = sto_relays s \<and> sto_clients t = sto_clients s \<and> sto_file t = sto_file s
     \<and> sto_path t = sto_path s \<and> sto_master_key t = sto_master_key s"

lemma same_config_refl [simp]: "same_config s s"
  by (simp add: same_config_def)

lemma store_ok_sessions:
  "store_ok s \<Longrightarrow> same_config s t \<Longrightarrow> sessions_ok (sto_sessions t) \<Longrightarrow> map_ok (sto_states t) \<Longrightarrow> store_ok t"
  by (simp add: store_ok_def same_config_def)

lemma sessions_put: "sessions_ok m \<Longrightarrow> s_id x = k \<Longrightarrow> sessions_ok (put k x m)"
  by (auto simp: sessions_ok_def)

lemma sessions_del_all: "sessions_ok m \<Longrightarrow> sessions_ok (foldl (\<lambda>m x. del (s_id x) m) m xs)"
proof (induction xs arbitrary: m)
  case (Cons x xs)
  have "sessions_ok (del (s_id x) m)" using Cons.prems by (simp add: sessions_ok_def)
  then show ?case using Cons.IH by simp
qed simp

lemma prune_sessions_ok:
  "same_config s (prune_sessions s) \<and> sto_states (prune_sessions s) = sto_states s
    \<and> (sessions_ok (sto_sessions s) \<longrightarrow> sessions_ok (sto_sessions (prune_sessions s)))"
  by (auto simp: prune_sessions_def Let_def same_config_def sessions_del_all)

lemma close_one_ok:
  assumes "sessions_ok (sto_sessions s)" "s_id x = i"
  shows "same_config s (fst (close_one relay reason at (s, closed) (i, x)))
    \<and> sto_states (fst (close_one relay reason at (s, closed) (i, x))) = sto_states s
    \<and> sessions_ok (sto_sessions (fst (close_one relay reason at (s, closed) (i, x))))"
  using assms by (auto simp: close_one_def Let_def same_config_def intro!: sessions_put)

lemma close_fold_ok:
  "sessions_ok (sto_sessions (fst acc)) \<Longrightarrow> \<forall>(i, x) \<in> set es. s_id x = i \<Longrightarrow>
    same_config (fst acc) (fst (foldl (close_one relay reason at) acc es))
    \<and> sto_states (fst (foldl (close_one relay reason at) acc es)) = sto_states (fst acc)
    \<and> sessions_ok (sto_sessions (fst (foldl (close_one relay reason at) acc es)))"
proof (induction es arbitrary: acc)
  case (Cons e es)
  obtain s closed i x where e: "acc = (s, closed)" "e = (i, x)" by (cases acc, cases e)
  have "same_config s (fst (close_one relay reason at acc e))
      \<and> sto_states (fst (close_one relay reason at acc e)) = sto_states s
      \<and> sessions_ok (sto_sessions (fst (close_one relay reason at acc e)))"
    using close_one_ok [of s x i relay reason at closed] Cons.prems by (auto simp: e)
  then show ?case
    using Cons.IH [of "close_one relay reason at acc e"] Cons.prems(2)
    by (auto simp: e same_config_def)
qed simp

lemma store_ok_audit_fold:
  "store_ok (foldl (\<lambda>s x. snd (record_audit enc (env x) (ev x) s)) s xs) = store_ok s"
  by (induction xs arbitrary: s) auto

lemma store_ok_prune: "store_ok s \<Longrightarrow> store_ok (prune_sessions s)"
  using prune_sessions_ok [of s] by (auto simp: store_ok_def same_config_def)

lemma session_entries: "sessions_ok m \<Longrightarrow> (k, x) \<in> set m \<Longrightarrow> s_id x = k"
  using gm.entries_lookup [of m k x] by (auto simp: sessions_ok_def)

lemma close_relay_sessions_ok:
  "store_ok s \<Longrightarrow> store_ok (snd (close_relay_sessions enc envs now relay reason at s))"
proof -
  assume ok: "store_ok s"
  then have so: "sessions_ok (sto_sessions s)" by (simp add: store_ok_def)
  let ?at = "if is_zero at then now else at"
  obtain s' closed where f: "foldl (close_one relay reason ?at) (s, []) (sto_sessions s) = (s', closed)"
    by fastforce
  have 1: "same_config s s'" "sto_states s' = sto_states s" "sessions_ok (sto_sessions s')"
    using close_fold_ok [of "(s, [])" "sto_sessions s" relay reason ?at] so session_entries [OF so] f by auto
  have "store_ok s'" using store_ok_sessions [OF ok 1(1,3)] ok 1(2) by (simp add: store_ok_def)
  then show ?thesis
    by (simp add: close_relay_sessions_def Let_def f store_ok_audit_fold store_ok_prune)
qed

lemma apply_event_maps_ok:
  assumes "store_ok s"
  shows "store_ok (fst (apply_event_maps now relay e s))"
proof -
  let ?x = "event_session e"
  have so: "sessions_ok (sto_sessions s)" and st: "map_ok (sto_states s)" using assms by (auto simp: store_ok_def)
  have put: "store_ok (s\<lparr>sto_sessions := put (s_id y) y (sto_sessions s)\<rparr>)" for y
    using so st by (intro store_ok_sessions [OF assms]) (auto simp: same_config_def sessions_put)
  have stats: "s_id (y\<lparr>s_stats := z\<rparr>) = k" if "get (sto_sessions s) k = Some y" for y z k
    using so that by (auto simp: sessions_ok_def)
  have states: "store_ok (s\<lparr>sto_states := put relay t (sto_states s)\<rparr>)" for t
    using so st by (intro store_ok_sessions [OF assms]) (auto simp: same_config_def)
  show ?thesis
  proof (cases "we_type e \<in> set state_event_types")
    case True
    then show ?thesis by (simp add: apply_event_maps_def Let_def split_beta states)
  next
    case False
    have stat: "store_ok (case get (sto_sessions s) (s_id ?x) of None \<Rightarrow> s
        | Some current \<Rightarrow> s\<lparr>sto_sessions := put (s_id ?x) (current\<lparr>s_stats := s_stats ?x\<rparr>) (sto_sessions s)\<rparr>)"
    proof (cases "get (sto_sessions s) (s_id ?x)")
      case (Some y)
      then show ?thesis using put [of "y\<lparr>s_stats := s_stats ?x\<rparr>"] stats [OF Some] by simp
    qed (use assms in simp)
    show ?thesis
      unfolding apply_event_maps_def Let_def if_not_P [OF False]
      using assms put stat store_ok_prune by simp
  qed
qed

lemma apply_worker_event_ok:
  "store_ok s \<Longrightarrow> store_ok (apply_worker_event enc env1 env2 clock relay e s)"
  using apply_event_maps_ok [of s "if is_zero (we_time e) then clock else we_time e" relay e]
  by (auto simp: apply_worker_event_def Let_def split: prod.splits option.splits)

lemma update_state_ok: "store_ok s \<Longrightarrow> store_ok (snd (update_state now i f s))"
  by (auto simp: update_state_def Let_def store_ok_def)

subsection \<open>Loading\<close>

definition reload :: "relay \<Rightarrow> relay" where
  "reload r = r\<lparr>r_key_version := loaded_key r\<rparr>"

definition stopped_state :: "gotime \<Rightarrow> relay_state" where
  "stopped_state now = zero_relay_state\<lparr>st_status := ''stopped'', st_updated_at := now\<rparr>"

lemma load_relays_result:
  "\<forall>r \<in> set rs. relay_shape r \<Longrightarrow> load_relays now s rs = Inr (s\<lparr>
      sto_relays := foldl (\<lambda>m r. put (r_id r) (reload r) m) (sto_relays s) rs,
      sto_states := foldl (\<lambda>m r. put (r_id r) (stopped_state now) m) (sto_states s) rs\<rparr>)"
  by (induction rs arbitrary: s) (auto simp: normalize_shape reload_def stopped_state_def)

lemma load_clients_ok:
  "load_clients s cs = Inr t \<Longrightarrow> clients_ok (sto_relays s) (sto_clients s) \<Longrightarrow>
    t = s\<lparr>sto_clients := sto_clients t\<rparr> \<and> clients_ok (sto_relays s) (sto_clients t)"
proof (induction cs arbitrary: s)
  case (Cons c cs)
  from Cons.prems(1) obtain n where n: "normalize_client (sto_relays s) c = Inr n"
    "load_clients (s\<lparr>sto_clients := put (c_id n) n (sto_clients s)\<rparr>) cs = Inr t"
    by (auto split: sum.splits)
  have "clients_ok (sto_relays s) (put (c_id n) n (sto_clients s))"
    using Cons.prems(2) client_ok_parts [OF normalize_client_ok [OF n(1)]] by (auto simp: clients_ok_def)
  then show ?case using Cons.IH [OF n(2)] by simp
qed simp

lemma check_defaults_iff:
  "check_defaults clients es = Inr u \<longleftrightarrow> (\<forall>(k, r) \<in> set es. \<exists>v. validate_default_client clients r = Inr v)"
  by (induction es) (auto split: sum.splits)

lemma rebuilt_relays:
  assumes "config_ok relays clients"
  defines "m \<equiv> foldl (\<lambda>m r. put (r_id r) (reload r) m) [] (sorted_vals relays)"
  shows "get m k = map_option reload (get relays k)" "relays_ok m" "listeners_apart m"
proof -
  have ids: "\<And>k v. get relays k = Some v \<Longrightarrow> r_id v = k"
    using assms(1) by (auto simp: store_invariants)
  have g: "get m k = map_option reload (get relays k)" for k
    unfolding m_def by (rule rebuild_map) (rule ids)
  then show "get m k = map_option reload (get relays k)" by simp
  show "relays_ok m"
    using assms(1) g by (auto simp: relays_ok_def m_def [symmetric] reload_def store_invariants)
      (simp add: m_def map_ok_foldl_put)
  have "same_listener (reload a) (reload b) = same_listener a b" for a b
    by (simp add: same_listener_def reload_def)
  then show "listeners_apart m"
    using assms(1) g by (auto simp: listeners_apart_def store_invariants)
qed

lemma file_relays_shape:
  "config_ok relays clients \<Longrightarrow> r \<in> set (sorted_vals relays) \<Longrightarrow> relay_shape r"
  by (auto simp: set_sorted_vals store_invariants)

lemma new_store_ok:
  assumes "file_ok file" "new_store now path key retention dir readable file = Inr t"
  shows "store_ok t"
proof (cases "path = [] \<or> file = None")
  case True
  then have "t = empty_store path key retention dir file"
    using assms(2) by (auto simp: new_store_def load_store_def empty_store_def split: if_splits)
  then show ?thesis
    using assms(1) by (simp add: store_ok_def empty_store_def store_invariants sessions_ok_def)
next
  case False
  then have p: "path \<noteq> []" and "\<exists>f. file = Some f" by auto
  then obtain rs cs where f: "file = Some (rs, cs)" by force
  obtain relays clients where c: "config_ok relays clients" "rs = sorted_vals relays"
    using assms(1) f by (auto simp: file_ok_def)
  let ?e = "empty_store path key retention dir file"
  define m where "m = foldl (\<lambda>m r. put (r_id r) (reload r) m) [] rs"
  let ?s = "?e\<lparr>sto_relays := m, sto_states := foldl (\<lambda>m r. put (r_id r) (stopped_state now) m) [] rs\<rparr>"
  have l: "load_relays now ?e rs = Inr ?s"
    using load_relays_result [of rs now ?e] file_relays_shape [OF c(1)] c(2)
    by (simp add: m_def empty_store_def)
  have e: "sto_path ?e = path" "sto_file ?e = file" by (simp_all add: empty_store_def)
  have "\<exists>u. load_clients ?s cs = Inr u \<and> check_defaults (sto_clients u) (sto_relays u) = Inr () \<and> t = u"
    using assms(2) p f l e
    by (auto simp: new_store_def load_store_def and_then_Inr split: if_splits)
  then obtain u where u: "load_clients ?s cs = Inr u" "check_defaults (sto_clients u) (sto_relays u) = Inr ()"
    "t = u" by blast
  have "clients_ok (sto_relays ?s) (sto_clients ?s)" by (simp add: clients_ok_def empty_store_def)
  from load_clients_ok [OF u(1) this]
  have t: "t = ?s\<lparr>sto_clients := sto_clients t\<rparr>" "clients_ok m (sto_clients t)" using u(3) by auto
  have r: "sto_relays t = m" "sto_sessions t = []" "sto_file t = file"
    "map_ok (sto_states t)"
    by (subst t(1), simp add: empty_store_def map_ok_foldl_put)+
  have m: "relays_ok m" "listeners_apart m" using rebuilt_relays [OF c(1)] c(2) by (simp_all add: m_def)
  have "defaults_ok m (sto_clients t)"
    unfolding defaults_ok_def
  proof (intro allI impI, elim conjE)
    fix k r0 assume k: "get m k = Some r0" "r_allow_missing_stream_id r0"
    then have "(k, r0) \<in> set m" "r_id r0 = k"
      using m(1) gm.entries_lookup [of m k r0] by (auto simp: relays_ok_def)
    then show "\<exists>c. get (sto_clients t) (r_default_client_id r0) = Some c \<and> c_enabled c
        \<and> k \<in> set (c_allowed_relay_ids c)"
      using u(2,3) r(1) k(2) by (fastforce simp: check_defaults_iff validate_default_iff)
  qed
  then show ?thesis
    using m t(2) r assms(1) by (simp add: store_ok_def config_ok_def sessions_ok_def)
qed

end
