(* ===== verification/SrtStoreProps.thy ===== *)
theory SrtStoreProps
  imports SrtStoreLaws
begin

text \<open>
  Properties of the SRT store: what every reachable store satisfies, saving and loading,
  passphrases and their rotation, sessions and their pruning, worker events.
\<close>

subsection \<open>Reachable stores\<close>

text \<open>One operation of the store, with whatever the clock, the disk and the callers provide.\<close>

inductive store_step :: "audit_enc \<Rightarrow> store \<Rightarrow> store \<Rightarrow> bool" for enc where
  step_upsert_relay: "store_step enc s (snd (upsert_relay now saved r s))"
| step_rotate_relay: "store_step enc s (snd (rotate_relay_key now saved i s))"
| step_delete_relay: "store_step enc s (snd (delete_relay now saved i s))"
| step_upsert_client: "store_step enc s (snd (upsert_client now saved c s))"
| step_create_client: "store_step enc s (snd (create_client now saved c s))"
| step_rotate_client: "store_step enc s (snd (rotate_client_key now saved i s))"
| step_delete_client: "store_step enc s (snd (delete_client now saved i s))"
| step_worker_event: "store_step enc s (apply_worker_event enc env1 env2 clock i e s)"
| step_close_sessions: "store_step enc s (snd (close_relay_sessions enc envs now i reason at s))"
| step_update_state: "store_step enc s (snd (update_state now i update s))"
| step_record_audit: "store_step enc s (snd (record_audit enc env a s))"
| step_subscribe: "store_step enc s (subscribe c s)"
| step_unsubscribe: "store_step enc s (unsubscribe c s)"
| step_take_event: "store_step enc s (s\<lparr>sto_subscribers := put c queue (sto_subscribers s)\<rparr>)"
| step_clear_audit: "store_step enc s (s\<lparr>sto_audit := snd (snd (audit_clear dec ok readable f (sto_audit s)))\<rparr>)"

text \<open>A fresh store, its operations, and restarts from the state file it wrote.\<close>

inductive store_reachable :: "audit_enc \<Rightarrow> store \<Rightarrow> bool" for enc where
  fresh: "store_reachable enc (empty_store path key retention dir None)"
| operation: "store_reachable enc s \<Longrightarrow> store_step enc s t \<Longrightarrow> store_reachable enc t"
| restart: "store_reachable enc s \<Longrightarrow>
    new_store now (sto_path s) key retention dir readable (sto_file s) = Inr t \<Longrightarrow> store_reachable enc t"

lemma store_step_ok: "store_step enc s t \<Longrightarrow> store_ok s \<Longrightarrow> store_ok t"
proof (induction rule: store_step.induct)
  case (step_upsert_relay s now saved r) then show ?case by (rule upsert_relay_ok)
next
  case (step_rotate_relay s now saved i) then show ?case by (rule rotate_relay_key_ok)
next
  case (step_delete_relay s now saved i) then show ?case by (rule delete_relay_ok)
next
  case (step_upsert_client s now saved c) then show ?case by (simp add: upsert_client_def upsert_client_ok)
next
  case (step_create_client s now saved c) then show ?case by (simp add: create_client_def upsert_client_ok)
next
  case (step_rotate_client s now saved i) then show ?case by (rule rotate_client_key_ok)
next
  case (step_delete_client s now saved i) then show ?case by (rule delete_client_ok)
next
  case (step_worker_event s env1 env2 clock i e) then show ?case by (rule apply_worker_event_ok)
next
  case (step_close_sessions s envs now i reason at) then show ?case by (rule close_relay_sessions_ok)
next
  case (step_update_state s now i update) then show ?case by (rule update_state_ok)
qed (simp_all add: store_ok_def subscribe_def unsubscribe_def)

lemma store_reachable_ok: "store_reachable enc s \<Longrightarrow> store_ok s"
proof (induction rule: store_reachable.induct)
  case (fresh path key retention dir)
  have "new_store zero_time path key retention dir True None = Inr (empty_store path key retention dir None)"
    by (simp add: new_store_def load_store_def empty_store_def)
  then show ?case by (rule new_store_ok [rotated]) (simp add: file_ok_def)
next
  case (operation s t)
  then show ?case by (simp add: store_step_ok)
next
  case (restart s now key retention dir readable t)
  then show ?case by (intro new_store_ok [OF _ restart.hyps(2)]) (simp add: store_ok_def)
qed

text \<open>
  C6: In every store reached from a fresh one by the operations and restarts, relays and
  clients are stored under their own IDs and well formed, a client is only assigned to
  existing relays, and a relay that admits callers without a Stream ID names an enabled
  client that is assigned to it.
\<close>

theorem store_references_valid:
  assumes "store_reachable enc s"
  shows "(\<forall>i r. get (sto_relays s) i = Some r \<longrightarrow> r_id r = i \<and> relay_shape r
      \<and> (r_allow_missing_stream_id r \<longrightarrow> (\<exists>c. get (sto_clients s) (r_default_client_id r) = Some c
          \<and> c_enabled c \<and> i \<in> set (c_allowed_relay_ids c))))
    \<and> (\<forall>i c. get (sto_clients s) i = Some c \<longrightarrow> c_id c = i \<and> client_shape c
      \<and> (\<forall>j \<in> set (c_allowed_relay_ids c). \<exists>r. get (sto_relays s) j = Some r))"
  using store_reachable_ok [OF assms]
  by (auto simp: store_ok_def store_invariants has_key_def)


subsection \<open>Saving and loading\<close>

lemma load_clients_fixed:
  "\<forall>c \<in> set cs. client_ok (sto_relays s) c \<Longrightarrow>
    load_clients s cs = Inr (s\<lparr>sto_clients := foldl (\<lambda>m c. put (c_id c) c m) (sto_clients s) cs\<rparr>)"
proof (induction cs arbitrary: s)
  case (Cons c cs)
  have "normalize_client (sto_relays s) c = Inr c"
    using Cons.prems by (intro normalize_client_fixed) simp
  then show ?case
    using Cons.IH [of "s\<lparr>sto_clients := put (c_id c) c (sto_clients s)\<rparr>"] Cons.prems by simp
qed simp

text \<open>What a restart relies on: clients are assigned to listeners only, keys are versioned.\<close>

definition reloadable :: "store \<Rightarrow> bool" where
  "reloadable s \<longleftrightarrow> (\<forall>i c. get (sto_clients s) i = Some c \<longrightarrow> client_ok (sto_relays s) c)
     \<and> (\<forall>i r. get (sto_relays s) i = Some r \<longrightarrow> reload r = r)"


subsection \<open>What a successful update did\<close>

lemma upsert_relay_effect:
  assumes "fst (upsert_relay now saved r s) = Inr view"
  obtains n where "normalize_relay r = Inr n" "\<exists>k. v_config view = n\<lparr>r_key_version := k\<rparr>"
    "sto_relays (snd (upsert_relay now saved r s)) = put (r_id n) (v_config view) (sto_relays s)"
    "sto_clients (snd (upsert_relay now saved r s)) = sto_clients s"
    "sto_path s \<noteq> [] \<longrightarrow> saved \<and> sto_file (snd (upsert_relay now saved r s))
      = Some (sorted_vals (put (r_id n) (v_config view) (sto_relays s)), sorted_vals (sto_clients s))"
proof (cases "normalize_relay r")
  case (Inl e)
  then show ?thesis using assms by (simp add: upsert_relay_def)
next
  case (Inr n)
  define n' where "n' = (case get (sto_relays s) (r_id n) of None \<Rightarrow> n | Some e \<Rightarrow> n\<lparr>r_key_version := r_key_version e\<rparr>)"
  define becomes where "becomes \<longleftrightarrow> publishes_encrypted n' \<and> get (sto_relays s) (r_id n) \<noteq> None
    \<and> \<not> publishes_encrypted (the (get (sto_relays s) (r_id n)))"
  define final where "final = (if becomes then n'\<lparr>r_key_version := r_key_version n' + 1\<rparr> else n')"
  have final: "\<exists>k. final = n\<lparr>r_key_version := k\<rparr>" "r_id final = r_id n"
  proof -
    show "\<exists>k. final = n\<lparr>r_key_version := k\<rparr>" "r_id final = r_id n"
      by (auto simp: final_def n'_def intro: exI [of _ "r_key_version n"] split: option.splits)
  qed
  from assms obtain e view' where u:
    "upsert_relay now saved r s = save_and_emit saved e view' (commit_relay now final s)" "v_config view' = final"
    unfolding upsert_relay_def Inr sum.case Let_def n'_def [symmetric] becomes_def [symmetric] final_def [symmetric]
    by (auto split: option.splits sum.splits prod.splits)
  then have v: "view = view'" "sto_path (commit_relay now final s) = [] \<or> saved"
    using save_and_emit_Inr assms by metis+
  show ?thesis
  proof (rule that [OF Inr])
    show "\<exists>k. v_config view = n\<lparr>r_key_version := k\<rparr>" using final v u by simp
    show "sto_relays (snd (upsert_relay now saved r s)) = put (r_id n) (v_config view) (sto_relays s)"
      using u v final by (simp add: commit_relay_def)
    show "sto_clients (snd (upsert_relay now saved r s)) = sto_clients s"
      using u by (simp add: commit_relay_def)
    show "sto_path s \<noteq> [] \<longrightarrow> saved \<and> sto_file (snd (upsert_relay now saved r s))
        = Some (sorted_vals (put (r_id n) (v_config view) (sto_relays s)), sorted_vals (sto_clients s))"
      using u v final save_and_emit_file [of saved "commit_relay now final s" e view']
      by (auto simp: commit_relay_def)
  qed
qed

lemma load_clients_all:
  "load_clients s cs = Inr t \<Longrightarrow> c \<in> set cs \<Longrightarrow> \<exists>n. normalize_client (sto_relays s) c = Inr n"
proof (induction cs arbitrary: s)
  case (Cons d cs)
  then obtain n where n: "normalize_client (sto_relays s) d = Inr n"
    "load_clients (s\<lparr>sto_clients := put (c_id n) n (sto_clients s)\<rparr>) cs = Inr t"
    by (auto split: sum.splits)
  then show ?case using Cons.IH [OF n(2)] Cons.prems(2) by auto
qed simp

text \<open>
  C9: Turning a listener relay that has assigned clients into a publish relay is accepted
  and saved, but the state file it leaves cannot be loaded: the next start of the agent
  fails on the client that is still assigned to the relay.
\<close>

theorem publish_update_breaks_restart:
  assumes "store_reachable enc s" and "sto_path s \<noteq> []"
    and "get (sto_clients s) k = Some c" and "i \<in> set (c_allowed_relay_ids c)"
    and "fst (upsert_relay now True r s) = Inr view"
    and "r_id (v_config view) = i" and "r_direction (v_config view) = direction_publish"
  shows "new_store later (sto_path s) key retention dir True (sto_file (snd (upsert_relay now True r s))) \<noteq> Inr t"
proof
  let ?s' = "snd (upsert_relay now True r s)"
  assume load: "new_store later (sto_path s) key retention dir True (sto_file ?s') = Inr t"
  obtain n where n: "\<exists>k. v_config view = n\<lparr>r_key_version := k\<rparr>"
    "sto_relays ?s' = put (r_id n) (v_config view) (sto_relays s)" "sto_clients ?s' = sto_clients s"
    "sto_file ?s' = Some (sorted_vals (put (r_id n) (v_config view) (sto_relays s)), sorted_vals (sto_clients s))"
    using upsert_relay_effect [OF assms(5)] assms(2) by metis
  have ok: "config_ok (sto_relays ?s') (sto_clients ?s')"
    using upsert_relay_ok [OF store_reachable_ok [OF assms(1)]] by (simp add: store_ok_def)
  have i: "get (sto_relays ?s') i = Some (v_config view)"
    using n(1,2) assms(6) by auto
  let ?rs = "sorted_vals (sto_relays ?s')"
  let ?e = "empty_store (sto_path s) key retention dir (sto_file ?s')"
  let ?m = "foldl (\<lambda>m r. put (r_id r) (reload r) m) [] ?rs"
  let ?t = "?e\<lparr>sto_relays := ?m, sto_states := foldl (\<lambda>m r. put (r_id r) (stopped_state later) m) [] ?rs\<rparr>"
  have l: "load_relays later ?e ?rs = Inr ?t"
    using load_relays_result [of ?rs later ?e] file_relays_shape [OF ok] by (simp add: empty_store_def)
  have f: "sto_file ?e = Some (?rs, sorted_vals (sto_clients s))" "sto_path ?e = sto_path s"
    using n(2,4) by (simp_all add: empty_store_def)
  then obtain u where "load_clients ?t (sorted_vals (sto_clients s)) = Inr u"
    using load assms(2) l by (auto simp: new_store_def load_store_def and_then_Inr)
  moreover have "c \<in> set (sorted_vals (sto_clients s))"
    using assms(3) by (auto simp: set_sorted_vals)
  ultimately obtain d where "normalize_client ?m c = Inr d"
    using load_clients_all by fastforce
  then have "assigned_to ?m i"
    using normalize_client_result assms(4) by (auto simp: list_all_iff)
  moreover have "get ?m i = Some (reload (v_config view))"
    using rebuilt_relays(1) [OF ok, of i] i by simp
  ultimately show False
    using assms(7) by (simp add: assigned_to_def reload_def)
qed

subsection \<open>Passphrases\<close>

lemma encode64_inject: "encode64 a = encode64 b \<longleftrightarrow> a = b"
  by (metis decode_encode option.inject)

lemma key_message_inject:
  assumes "CHR '':'' \<notin> set i" "CHR '':'' \<notin> set j"
  shows "key_message l i v = key_message l j w \<longleftrightarrow> i = j \<and> v = w"
proof
  assume "key_message l i v = key_message l j w"
  then have "cut (i @ CHR '':'' # itoa v) (CHR '':'') = cut (j @ CHR '':'' # itoa w) (CHR '':'')"
    by (simp add: key_message_def)
  then show "i = j \<and> v = w" using assms by (simp add: itoa_inject)
qed simp

lemma labels_differ:
  "key_message ''neotranscoder-srt:'' i v \<noteq> key_message ''neotranscoder-srt-publish:'' j w"
  by (simp add: key_message_def)

lemma id_no_colon: "id_pattern i \<Longrightarrow> CHR '':'' \<notin> set i"
  by (cases i) (auto simp: id_pattern_def list_all_iff is_alnum_def)

lemma client_message_inject:
  "id_pattern (c_id a) \<Longrightarrow> id_pattern (c_id b) \<Longrightarrow>
    client_message a = client_message b \<longleftrightarrow> c_id a = c_id b \<and> c_key_version a = c_key_version b"
  by (simp add: client_message_def inj_bytes_of_string key_message_inject id_no_colon)

lemma relay_message_inject:
  "id_pattern (r_id a) \<Longrightarrow> id_pattern (r_id b) \<Longrightarrow>
    relay_message a = relay_message b \<longleftrightarrow> r_id a = r_id b \<and> r_key_version a = r_key_version b"
  by (simp add: relay_message_def inj_bytes_of_string key_message_inject id_no_colon)

text \<open>
  Passphrases are 43 characters of the URL alphabet. They are HMAC-SHA-256 tags of
  messages that differ whenever the client or relay, the key version, or the role (client
  or publish relay) differs, and two passphrases agree exactly when those tags do.
\<close>

theorem passphrases_separate:
  assumes "id_pattern (c_id a)" and "id_pattern (c_id b)" and "id_pattern (r_id p)" and "id_pattern (r_id q)"
  shows "length (client_passphrase key a) = 43 \<and> list_all url64_char (client_passphrase key a)
    \<and> (client_passphrase key a = client_passphrase key b \<longleftrightarrow>
        hmac_sha256 key (client_message a) = hmac_sha256 key (client_message b))
    \<and> (client_message a = client_message b \<longleftrightarrow> c_id a = c_id b \<and> c_key_version a = c_key_version b)
    \<and> (relay_message p = relay_message q \<longleftrightarrow> r_id p = r_id q \<and> r_key_version p = r_key_version q)
    \<and> client_message a \<noteq> relay_message p"
proof -
  have "client_message a \<noteq> relay_message p"
    using labels_differ unfolding client_message_def relay_message_def inj_bytes_of_string by blast
  moreover have "length (client_passphrase key a) = 43 \<and> list_all url64_char (client_passphrase key a)"
    using encode64_chars by (auto simp: client_passphrase_def length_encode64 list_all_iff)
  ultimately show ?thesis
    using client_message_inject [OF assms(1,2)] relay_message_inject [OF assms(3,4)]
    by (simp add: client_passphrase_def encode64_inject)
qed

text \<open>What a rotation leaves: the next key version, and the workers get its passphrase.\<close>

lemma rotate_client_effect:
  assumes "fst (rotate_client_key now saved i s) = Inr cred" "get (sto_clients s) i = Some c"
  defines "c' \<equiv> c\<lparr>c_key_version := c_key_version c + 1, c_updated_at := now\<rparr>"
  shows "cred = \<lparr>cc_client = c', cc_passphrase = client_passphrase (sto_master_key s) c'\<rparr>"
    and "sto_clients (snd (rotate_client_key now saved i s)) = put i c' (sto_clients s)"
    and "sto_master_key (snd (rotate_client_key now saved i s)) = sto_master_key s"
    and "c_encryption_mode c \<noteq> encryption_none"
proof -
  have mode: "c_encryption_mode c \<noteq> encryption_none"
    using assms(1,2) by (auto simp: rotate_client_key_def)
  then obtain e where u: "rotate_client_key now saved i s = save_and_emit saved e
      \<lparr>cc_client = c', cc_passphrase = client_passphrase (sto_master_key s) c'\<rparr>
      (s\<lparr>sto_clients := put i c' (sto_clients s)\<rparr>)"
    using assms(2) by (simp add: rotate_client_key_def Let_def c'_def)
  show "cred = \<lparr>cc_client = c', cc_passphrase = client_passphrase (sto_master_key s) c'\<rparr>"
    using assms(1) save_and_emit_Inr unfolding u by metis
  show "sto_clients (snd (rotate_client_key now saved i s)) = put i c' (sto_clients s)"
    and "sto_master_key (snd (rotate_client_key now saved i s)) = sto_master_key s"
    by (simp_all add: u)
  show "c_encryption_mode c \<noteq> encryption_none" by (rule mode)
qed

lemma worker_clients_in:
  "w \<in> set (worker_clients s j) \<longleftrightarrow> (\<exists>k c. get (sto_clients s) k = Some c \<and> c_enabled c
     \<and> j \<in> set (c_allowed_relay_ids c) \<and> w = worker_client (sto_master_key s) c)"
  by (auto simp: worker_clients_def set_sorted_vals)

text \<open>
  Rotating a client's key takes effect: the key version goes up by one, the new
  passphrase is the tag of a different message than the old one, and every relay the client
  may use is configured with the new passphrase and no other for that client.
\<close>

theorem rotation_replaces_the_key:
  assumes "store_reachable enc s" and "fst (rotate_client_key now saved i s) = Inr cred"
    and "get (sto_clients s) i = Some c"
  shows "c_key_version (cc_client cred) = c_key_version c + 1
    \<and> cc_passphrase cred = encode64 (hmac_sha256 (sto_master_key s) (client_message (cc_client cred)))
    \<and> client_message (cc_client cred) \<noteq> client_message c
    \<and> (\<forall>j. \<forall>w \<in> set (worker_clients (snd (rotate_client_key now saved i s)) j).
        wc_id w = i \<longrightarrow> wc_passphrase w = cc_passphrase cred)"
proof -
  note e = rotate_client_effect [OF assms(2,3)]
  have ok: "clients_ok (sto_relays s) (sto_clients s)"
    using store_reachable_ok [OF assms(1)] by (simp add: store_ok_def config_ok_def)
  then have c: "id_pattern (c_id c)" and mode: "c_encryption_mode c = encryption_aes256"
    using assms(3) e(4) by (auto simp: clients_ok_def client_shape_def)
  have "client_message (cc_client cred) \<noteq> client_message c"
    using c by (simp add: e(1) client_message_inject)
  moreover have "wc_passphrase w = cc_passphrase cred"
    if w: "w \<in> set (worker_clients (snd (rotate_client_key now saved i s)) j)" "wc_id w = i" for j w
  proof -
    obtain k d where d: "get (put i (cc_client cred) (sto_clients s)) k = Some d"
      "w = worker_client (sto_master_key s) d"
      using w(1) by (auto simp: worker_clients_in e)
    have "k = i"
      using d w(2) ok by (auto simp: clients_ok_def worker_client_def split: if_splits)
    then show ?thesis using d mode by (auto simp: worker_client_def e(1))
  qed
  ultimately show ?thesis by (simp add: e(1) client_passphrase_def)
qed

text \<open>
  Deleting a client and creating it again brings back the passphrase of its first key:
  whenever a client with a given ID is created, its credential depends only on the ID and
  the master key, so a passphrase that a rotation had revoked is valid again.
\<close>

theorem recreated_client_gets_first_key:
  assumes "fst (create_client now saved a s) = Inr cred" and "fst (create_client later saved' b t) = Inr cred'"
    and "c_id a = c_id b" and "sto_master_key s = sto_master_key t"
    and "c_encryption_mode (cc_client cred) = encryption_aes256"
    and "c_encryption_mode (cc_client cred') = encryption_aes256"
  shows "cc_passphrase cred = cc_passphrase cred' \<and> c_key_version (cc_client cred) = 1"
proof -
  have effect: "c_key_version (cc_client x) = 1 \<and> c_id (cc_client x) = c_id d
      \<and> cc_passphrase x = client_passphrase (sto_master_key u) (cc_client x)"
    if r: "fst (create_client tm sv d u) = Inr x" and m: "c_encryption_mode (cc_client x) = encryption_aes256"
    for tm sv d u x
  proof -
    have new: "get (sto_clients u) (c_id d) = None"
      using r by (auto simp: create_client_def upsert_client_with_def Let_def split: if_splits)
    obtain n where n: "normalize_client (sto_relays u) (stamp_client tm None d) = Inr n"
      using r by (auto simp: create_client_def upsert_client_with_def Let_def new split: sum.splits)
    then have "c_key_version n = 1" "c_id n = c_id d"
      using normalize_client_result [OF n] by (auto simp: stamp_client_def)
    moreover have "x = \<lparr>cc_client = n, cc_passphrase =
        (if c_encryption_mode n = encryption_aes256 then client_passphrase (sto_master_key u) n else [])\<rparr>"
      using r save_and_emit_Inr
      by (fastforce simp: create_client_def upsert_client_with_def Let_def new n split: option.splits)
    ultimately show ?thesis using m by simp
  qed
  show ?thesis
    using effect [OF assms(1,5)] effect [OF assms(2,6)] assms(3,4) by (simp add: client_passphrase_def client_message_def)
qed

subsection \<open>Sessions\<close>

lemma get_del_all:
  "get (foldl (\<lambda>m x. del (s_id x) m) m xs) k = (if k \<in> s_id ` set xs then None else get m k)"
  by (induction xs arbitrary: m) auto

lemma completed_in:
  "sessions_ok (sto_sessions s) \<Longrightarrow>
    x \<in> set (completed_sessions s) \<longleftrightarrow> get (sto_sessions s) (s_id x) = Some x \<and> \<not> active x"
proof -
  assume so: "sessions_ok (sto_sessions s)"
  then have m: "map_ok (sto_sessions s)" by (simp add: sessions_ok_def)
  have "x \<in> snd ` set (sto_sessions s) \<longleftrightarrow> get (sto_sessions s) (s_id x) = Some x"
  proof
    assume "x \<in> snd ` set (sto_sessions s)"
    then obtain k where k: "(k, x) \<in> set (sto_sessions s)" by auto
    then show "get (sto_sessions s) (s_id x) = Some x"
      using session_entries [OF so k] gm.entries_lookup [OF m] by simp
  next
    assume "get (sto_sessions s) (s_id x) = Some x"
    then have "(s_id x, x) \<in> set (sto_sessions s)" using gm.entries_lookup [OF m] by simp
    then show "x \<in> snd ` set (sto_sessions s)" by (rule rev_image_eqI) simp
  qed
  then show ?thesis by (auto simp: completed_sessions_def)
qed

lemma distinct_completed: "sessions_ok (sto_sessions s) \<Longrightarrow> distinct (map s_id (completed_sessions s))"
proof -
  assume so: "sessions_ok (sto_sessions s)"
  have e: "map s_id (map snd (sto_sessions s)) = map fst (sto_sessions s)"
    using session_entries [OF so] by auto
  have "distinct (map fst (sto_sessions s))" using so by (simp add: sessions_ok_def map_ok_def)
  then have "distinct (map s_id (map snd (sto_sessions s)))" by (simp only: e)
  then show ?thesis unfolding completed_sessions_def by (rule distinct_map_filter)
qed

text \<open>Dropping the oldest: those kept end no earlier than those dropped.\<close>

lemma newest_split:
  fixes n :: nat
  defines "sorted_desc \<equiv> \<lambda>xs. sort_key (\<lambda>x. - ended_at x) xs"
  assumes "x \<in> set (take n (sorted_desc xs))" "y \<in> set (drop n (sorted_desc xs))"
  shows "ended_at y \<le> ended_at x"
proof -
  have "sorted (map (\<lambda>x. - ended_at x) (sorted_desc xs))" by (simp add: sorted_desc_def)
  then have "sorted (map (\<lambda>x. - ended_at x) (take n (sorted_desc xs) @ drop n (sorted_desc xs)))" by simp
  then have "- ended_at x \<le> - ended_at y"
    using assms(2,3) unfolding map_append sorted_append by auto
  then show ?thesis by simp
qed

text \<open>When there are too many: the completed sessions by age, of which the first thousand stay.\<close>

definition by_age :: "store \<Rightarrow> session list" where
  "by_age s = sort_key (\<lambda>x. - ended_at x) (completed_sessions s)"

lemma in_by_age: "sessions_ok (sto_sessions s) \<Longrightarrow> x \<in> set (by_age s) \<longleftrightarrow> get (sto_sessions s) (s_id x) = Some x \<and> \<not> active x"
  using completed_in [of s x] by (simp add: by_age_def)

lemma pruned_sessions:
  assumes "\<not> length (completed_sessions s) \<le> 1000"
  shows "get (sto_sessions (prune_sessions s)) i = (if i \<in> s_id ` set (drop 1000 (by_age s)) then None else get (sto_sessions s) i)"
  using assms by (simp add: prune_sessions_def Let_def get_del_all by_age_def)

lemma dropped_session:
  assumes "sessions_ok (sto_sessions s)" "i \<in> s_id ` set (drop 1000 (by_age s))" "get (sto_sessions s) i = Some x"
  shows "x \<in> set (drop 1000 (by_age s))" "\<not> active x"
proof -
  obtain z where z: "z \<in> set (drop 1000 (by_age s))" "s_id z = i" using assms(2) by auto
  then have "get (sto_sessions s) i = Some z" "\<not> active z" using in_by_age [OF assms(1)] in_set_dropD by fastforce+
  then show "x \<in> set (drop 1000 (by_age s))" "\<not> active x" using assms(3) z(1) by simp_all
qed

lemma kept_session:
  assumes "sessions_ok (sto_sessions s)" "\<not> length (completed_sessions s) \<le> 1000"
    and "get (sto_sessions (prune_sessions s)) i = Some x" "\<not> active x"
  shows "x \<in> set (take 1000 (by_age s))"
proof -
  have x: "get (sto_sessions s) i = Some x" "i \<notin> s_id ` set (drop 1000 (by_age s))"
    using assms(3) by (auto simp: pruned_sessions [OF assms(2)] split: if_splits)
  then have "s_id x = i" using assms(1) by (simp add: sessions_ok_def)
  then have "x \<in> set (by_age s)" "x \<notin> set (drop 1000 (by_age s))" using x assms(4) in_by_age [OF assms(1)] by auto
  then show ?thesis by (metis Un_iff append_take_drop_id set_append)
qed

text \<open>
  Pruning keeps every active session and at most 1000 completed ones, and each completed
  session it keeps ended no earlier than each one it removes.
\<close>

theorem prune_keeps_newest:
  assumes "store_reachable enc s"
  shows "length (completed_sessions (prune_sessions s)) \<le> 1000
    \<and> (\<forall>i x. get (sto_sessions s) i = Some x \<and> active x \<longrightarrow> get (sto_sessions (prune_sessions s)) i = Some x)
    \<and> (\<forall>i j x y. get (sto_sessions (prune_sessions s)) i = Some x \<and> \<not> active x
        \<and> get (sto_sessions s) j = Some y \<and> get (sto_sessions (prune_sessions s)) j = None
        \<longrightarrow> ended_at y \<le> ended_at x)"
proof (cases "length (completed_sessions s) \<le> 1000")
  case True
  then show ?thesis by (auto simp: prune_sessions_def Let_def)
next
  case False
  have so: "sessions_ok (sto_sessions s)"
    using store_reachable_ok [OF assms] by (simp add: store_ok_def)
  let ?p = "prune_sessions s" and ?l = "by_age s"
  note g = pruned_sessions [OF False] and kept = kept_session [OF so False]
  have so': "sessions_ok (sto_sessions ?p)" using prune_sessions_ok [of s] so by blast
  have "set (completed_sessions ?p) \<subseteq> set (take 1000 ?l)" using kept completed_in [OF so'] by blast
  moreover have "distinct (completed_sessions ?p)" using distinct_completed [OF so'] by (simp add: distinct_map)
  ultimately have "length (completed_sessions ?p) \<le> card (set (take 1000 ?l))"
    by (metis List.finite_set card_mono distinct_card)
  also have "\<dots> \<le> 1000" using card_length [of "take 1000 ?l"] by simp
  finally have "length (completed_sessions ?p) \<le> 1000" .
  moreover have "get (sto_sessions ?p) i = Some x" if "get (sto_sessions s) i = Some x" "active x" for i x
  proof -
    have "i \<notin> s_id ` set (drop 1000 ?l)" using dropped_session(2) [OF so _ that(1)] that(2) by blast
    then show ?thesis using that(1) by (simp only: g if_False)
  qed
  moreover have "ended_at y \<le> ended_at x"
    if x: "get (sto_sessions ?p) i = Some x" "\<not> active x"
      and y: "get (sto_sessions s) j = Some y" "get (sto_sessions ?p) j = None" for i j x y
  proof -
    have "j \<in> s_id ` set (drop 1000 ?l)" using y unfolding g by (metis option.distinct(1))
    then have "y \<in> set (drop 1000 ?l)" using dropped_session(1) [OF so _ y(1)] by blast
    then show ?thesis using newest_split [of x 1000 "completed_sessions s" y] kept [OF x] by (simp add: by_age_def)
  qed
  ultimately show ?thesis by blast
qed

lemma prune_sub: "get (sto_sessions (prune_sessions s)) i = Some x \<Longrightarrow> get (sto_sessions s) i = Some x"
  by (auto simp: prune_sessions_def Let_def get_del_all split: if_splits)

lemma prune_active:
  assumes "sessions_ok (sto_sessions s)" "get (sto_sessions s) i = Some x" "active x"
  shows "get (sto_sessions (prune_sessions s)) i = Some x"
proof -
  have "i \<notin> s_id ` set (drop 1000 (sort_key (\<lambda>x. - ended_at x) (completed_sessions s)))"
  proof
    assume "i \<in> s_id ` set (drop 1000 (sort_key (\<lambda>x. - ended_at x) (completed_sessions s)))"
    then obtain y where "y \<in> set (completed_sessions s)" "i = s_id y"
      by (auto dest: in_set_dropD)
    then show False using completed_in [OF assms(1), of y] assms(2,3) by simp
  qed
  then show ?thesis using assms(2) by (simp add: prune_sessions_def Let_def get_del_all)
qed

lemma map_values: "map_ok m \<Longrightarrow> snd ` set m = {x. \<exists>i. get m i = Some x}"
proof (intro set_eqI iffI)
  fix x assume m: "map_ok m" "x \<in> snd ` set m"
  then obtain k where "(k, x) \<in> set m" by auto
  then show "x \<in> {x. \<exists>i. get m i = Some x}" using gm.entries_lookup [OF m(1)] by auto
next
  fix x assume m: "map_ok m" "x \<in> {x. \<exists>i. get m i = Some x}"
  then obtain k where "(k, x) \<in> set m" using gm.entries_lookup [OF m(1)] by auto
  then show "x \<in> snd ` set m" by (rule rev_image_eqI) simp
qed

definition close_session :: "string \<Rightarrow> gotime \<Rightarrow> session \<Rightarrow> session" where
  "close_session reason at x = x\<lparr>s_disconnected_at := Some at, s_disconnect_reason := reason\<rparr>"

definition open_on :: "string \<Rightarrow> session \<Rightarrow> bool" where
  "open_on relay x \<longleftrightarrow> s_relay_id x = relay \<and> active x"

lemma close_fold_effect:
  "distinct (map fst es) \<Longrightarrow>
    snd (foldl (close_one relay reason at) (s, closed) es)
      = closed @ map (close_session reason at) (filter (open_on relay) (map snd es))
    \<and> (\<forall>k. get (sto_sessions (fst (foldl (close_one relay reason at) (s, closed) es))) k =
        (case get es k of
           Some x \<Rightarrow> if open_on relay x then Some (close_session reason at x) else get (sto_sessions s) k
         | None \<Rightarrow> get (sto_sessions s) k))"
proof (induction es arbitrary: s closed)
  case (Cons e es)
  obtain i x where e: "e = (i, x)" by (cases e)
  obtain s' c' where one: "close_one relay reason at (s, closed) e = (s', c')" by fastforce
  have c': "c' = closed @ map (close_session reason at) (filter (open_on relay) [x])"
    and s': "get (sto_sessions s') k =
      (if k = i \<and> open_on relay x then Some (close_session reason at x) else get (sto_sessions s) k)" for k
    using one by (auto simp: e close_one_def close_session_def open_on_def Let_def split: if_splits)
  have fresh: "get es i = None"
    using Cons.prems by (auto simp: e get_def map_of_eq_None_iff)
  have d: "distinct (map fst es)" using Cons.prems by simp
  note IH = Cons.IH [OF d, of s' c']
  have g: "get (e # es) k = (if k = i then Some x else get es k)" for k
    by (simp add: e get_def)
  show ?case
    unfolding foldl_Cons one
  proof (intro conjI allI)
    show "snd (foldl (close_one relay reason at) (s', c') es)
        = closed @ map (close_session reason at) (filter (open_on relay) (map snd (e # es)))"
      using IH by (simp add: c' e)
    show "get (sto_sessions (fst (foldl (close_one relay reason at) (s', c') es))) k =
        (case get (e # es) k of
           Some x \<Rightarrow> if open_on relay x then Some (close_session reason at x) else get (sto_sessions s) k
         | None \<Rightarrow> get (sto_sessions s) k)" for k
      using IH fresh by (cases "k = i") (auto simp: g s' split: option.splits)
  qed
qed simp

lemma audit_fold_sessions:
  "sto_sessions (foldl (\<lambda>s x. snd (record_audit enc (env x) (ev x) s)) s xs) = sto_sessions s"
  by (induction xs arbitrary: s) auto

text \<open>
  When a worker has gone, every session of its relay is closed: the operation returns
  exactly the sessions that were active on the relay, marked with the time and reason, no
  active session of the relay remains, and active sessions of other relays are untouched.
\<close>

theorem close_relay_sessions_closes_all:
  assumes "store_reachable enc s"
  shows "let at' = (if is_zero at then now else at);
      (closed, t) = close_relay_sessions enc envs now relay reason at s
    in set closed = {close_session reason at' x | i x. get (sto_sessions s) i = Some x \<and> open_on relay x}
      \<and> (\<forall>i x. get (sto_sessions t) i = Some x \<longrightarrow> \<not> open_on relay x)
      \<and> (\<forall>i x. get (sto_sessions s) i = Some x \<and> active x \<and> s_relay_id x \<noteq> relay
            \<longrightarrow> get (sto_sessions t) i = Some x)"
proof -
  have so: "sessions_ok (sto_sessions s)"
    using store_reachable_ok [OF assms] by (simp add: store_ok_def)
  then have m: "map_ok (sto_sessions s)" "distinct (map fst (sto_sessions s))"
    by (simp_all add: sessions_ok_def map_ok_def)
  define at' where "at' = (if is_zero at then now else at)"
  obtain s' closed where f: "foldl (close_one relay reason at') (s, []) (sto_sessions s) = (s', closed)"
    by fastforce
  define t where "t = foldl (\<lambda>s x. snd (record_audit enc (envs (s_id x)) (closed_audit relay reason at' x) s))
    (prune_sessions s') closed"
  have r: "close_relay_sessions enc envs now relay reason at s = (closed, t)"
    by (simp add: close_relay_sessions_def at'_def [symmetric] f t_def)
  have closed: "closed = map (close_session reason at') (filter (open_on relay) (map snd (sto_sessions s)))"
    and s': "get (sto_sessions s') k = (case get (sto_sessions s) k of
      Some x \<Rightarrow> Some (if open_on relay x then close_session reason at' x else x) | None \<Rightarrow> None)" for k
    using close_fold_effect [OF m(2), of relay reason at' s "[]"] f by (auto split: option.splits)
  have "set closed = close_session reason at' ` {x \<in> snd ` set (sto_sessions s). open_on relay x}"
    by (simp add: closed)
  also have "\<dots> = {close_session reason at' x | i x. get (sto_sessions s) i = Some x \<and> open_on relay x}"
    unfolding map_values [OF m(1)] by auto
  finally have "set closed = {close_session reason at' x | i x. get (sto_sessions s) i = Some x \<and> open_on relay x}" .
  moreover have "\<not> open_on relay x" if "get (sto_sessions t) i = Some x" for i x
  proof -
    have "get (sto_sessions (prune_sessions s')) i = Some x"
      using that by (simp only: t_def audit_fold_sessions)
    then have "get (sto_sessions s') i = Some x" by (rule prune_sub)
    then show ?thesis
      by (auto simp: s' open_on_def active_def close_session_def split: option.splits if_splits)
  qed
  moreover have "get (sto_sessions t) i = Some x"
    if "get (sto_sessions s) i = Some x" "active x" "s_relay_id x \<noteq> relay" for i x
  proof -
    have "sessions_ok (sto_sessions s')"
      using close_fold_ok [of "(s, [])" "sto_sessions s" relay reason at'] so session_entries [OF so] f by auto
    moreover have "get (sto_sessions s') i = Some x" using that by (simp add: s' open_on_def)
    ultimately have "get (sto_sessions (prune_sessions s')) i = Some x" using that(2) by (rule prune_active)
    then show ?thesis by (simp only: t_def audit_fold_sessions)
  qed
  ultimately show ?thesis unfolding Let_def r at'_def [symmetric] by blast
qed

subsection \<open>Worker events\<close>

text \<open>
  A metrics report decides whether the relay counts as degraded: it does exactly when the
  report names a reason, which becomes the last error; a degraded relay whose input is back
  runs again without an error; the counters are those of the report.
\<close>

theorem metrics_track_the_input:
  assumes "we_type e = ''relay_metrics''"
  shows "\<exists>st. get (sto_states (apply_worker_event enc env1 env2 clock i e s)) i = Some st
    \<and> (st_status st = ''degraded'' \<longleftrightarrow> we_reason e \<noteq> [])
    \<and> (st_status (state_locked clock s i) = ''degraded'' \<and> we_reason e = [] \<longrightarrow>
        st_status st = ''running'' \<and> st_last_error st = [])
    \<and> (st_status (state_locked clock s i) \<noteq> ''degraded'' \<and> we_reason e \<noteq> [] \<longrightarrow>
        st_last_error st = we_reason e)
    \<and> st_input_packets st = we_input_packets e \<and> st_continuity_errors st = we_continuity_errors e
    \<and> st_active_clients st = we_active_clients e"
proof -
  define now where "now = (if is_zero (we_time e) then clock else we_time e)"
  obtain st tr where n: "next_relay_state now e (state_locked now s i) = (st, tr)" by fastforce
  have a: "apply_event_maps now i e s = (s\<lparr>sto_states := put i st (sto_states s)\<rparr>, tr)"
    using n assms by (simp add: apply_event_maps_def state_event_types_def)
  have g: "get (sto_states (apply_worker_event enc env1 env2 clock i e s)) i = Some st"
    unfolding apply_worker_event_def Let_def now_def [symmetric] a
    by (simp split: option.split)
  have "st_status (state_locked now s i) = st_status (state_locked clock s i)"
    by (simp add: state_locked_def split: option.split)
  then show ?thesis
    using n assms unfolding g next_relay_state_def by (auto simp: Let_def split: if_splits)
qed

subsection \<open>Deleting a relay\<close>

text \<open>
  A relay is deleted only when it exists, is stopped, failed or flapping, and is assigned
  to no client; then neither the relay nor its state remains, and nothing else changes in
  the maps of relays.
\<close>

theorem delete_relay_guarded:
  assumes "store_reachable enc s" and "fst (delete_relay now saved i s) = Inr True"
  shows "has_key (sto_relays s) i
    \<and> st_status (state_locked now s i) \<in> {''stopped'', ''error'', ''flapping''}
    \<and> (\<forall>k c. get (sto_clients s) k = Some c \<longrightarrow> i \<notin> set (c_allowed_relay_ids c))
    \<and> (\<forall>j. get (sto_relays (snd (delete_relay now saved i s))) j = (if j = i then None else get (sto_relays s) j))
    \<and> get (sto_states (snd (delete_relay now saved i s))) i = None"
proof -
  have m: "map_ok (sto_clients s)"
    using store_reachable_ok [OF assms(1)] by (simp add: store_ok_def config_ok_def clients_ok_def)
  have k: "has_key (sto_relays s) i" "st_status (state_locked now s i) \<in> {''stopped'', ''error'', ''flapping''}"
    and f: "find (\<lambda>(_, c). i \<in> set (c_allowed_relay_ids c)) (sto_clients s) = None"
    using assms(2) by (auto simp: delete_relay_def split: if_splits option.splits)
  have "\<forall>k c. get (sto_clients s) k = Some c \<longrightarrow> i \<notin> set (c_allowed_relay_ids c)"
    using find_entries_None [OF m f] by auto
  then show ?thesis using k f by (simp add: delete_relay_def)
qed

subsection \<open>The master key\<close>

lemma newline_space: "[byte 10] \<in> set space_seqs"
  by (simp add: space_seqs_def)

lemma trim_newline:
  assumes "s \<noteq> []" "list_all graphic s"
  shows "trim_space (s @ [byte 10]) = s"
proof -
  have g: "graphic (hd s)" "graphic (last s)" using assms by (cases s; auto simp: list_all_iff)+
  have l: "trim_with space_seqs (s @ [byte 10]) = s @ [byte 10]"
    using g(1) assms(1) by (intro trim_with_none graphic_hd_no_prefix) auto
  have "\<not> has_prefix (rev s) p" if "p \<in> set (map rev space_seqs)" "p \<noteq> []" for p
    using that g(2) assms(1) space_seqs_heads
    by (auto simp: has_prefix_iff) (metis hd_append2 hd_rev rev_rev_ident rev_is_Nil_conv)
  then have r: "trim_with (map rev space_seqs) (rev s) = rev s" by (rule trim_with_none)
  have p: "p = [byte 10]" if "p \<in> set (map rev space_seqs)" "has_prefix (byte 10 # rev s) p" "p \<noteq> []" for p
  proof -
    have "hd p = byte 10" using that(2,3) by (cases p) (auto simp: has_prefix_iff)
    then show ?thesis using that(1) by (auto simp: space_seqs_def byte_def)
  qed
  have "find (\<lambda>p. p \<noteq> [] \<and> has_prefix (byte 10 # rev s) p) (map rev space_seqs) = Some [byte 10]"
  proof (rule find_unique)
    show "\<exists>x \<in> set (map rev space_seqs). x \<noteq> [] \<and> has_prefix (byte 10 # rev s) x"
      using newline_space by (intro bexI [of _ "[byte 10]"]) (auto simp: has_prefix_iff intro: rev_image_eqI)
    show "\<forall>x \<in> set (map rev space_seqs). x \<noteq> [] \<and> has_prefix (byte 10 # rev s) x \<longrightarrow> x = [byte 10]"
      using p by blast
  qed
  then have "trim_with (map rev space_seqs) (byte 10 # rev s) = rev s"
    using r by (subst trim_with.simps) simp
  then show ?thesis using l by (simp add: trim_space_def)
qed

text \<open>
  The master key the agent generates on its first start is the key it reads back from
  the key file on every later start.
\<close>

theorem master_key_survives_restart:
  assumes "path \<noteq> []" and "length key = 32"
  shows "\<exists>content. load_or_create_master_key path FileMissing (Some key) True = (Inr key, Some content)
    \<and> load_or_create_master_key path (FileContent content) random writable = (Inr key, None)"
proof -
  have "length (encode64 key) = 43" using assms(2) by (simp add: length_encode64)
  then have "encode64 key \<noteq> []" by auto
  moreover have "graphic c" if "url64_char c" for c
    using that alnum_graphic by (auto simp: url64_char_def graphic_def)
  then have "list_all graphic (encode64 key)"
    using encode64_chars [of _ key] by (auto simp: list_all_iff)
  ultimately have "trim_space (encode64 key @ [byte 10]) = encode64 key" by (rule trim_newline)
  then show ?thesis
    using assms by (simp add: load_or_create_master_key_def decode_encode)
qed

end
