(* ===== verification/JobTable.thy ===== *)
theory JobTable
  imports Prelude
begin

text \<open>
  A table of running processes, at most one per name, as the SRT manager and the stream manager
  keep one: a start claims a free name with a fresh token, the goroutine that waits for the
  process releases it, and everything else leaves the table alone. The locale says what the
  two managers promise of their critical sections; its lemmas follow the processes through any
  interleaving of them. Both managers interpret it.
\<close>

locale job_table =
  fixes token_of :: "'m \<Rightarrow> string \<Rightarrow> nat option"
    and next_token :: "'m \<Rightarrow> nat"
    and claim :: "string \<Rightarrow> nat \<Rightarrow> 'm \<Rightarrow> 'm \<Rightarrow> bool"
    and release :: "string \<Rightarrow> nat \<Rightarrow> 'm \<Rightarrow> 'm \<Rightarrow> bool"
  assumes claim_fresh: "claim i t m m' \<Longrightarrow> token_of m i = None \<and> t = next_token m \<and> next_token m' = Suc t"
    and claim_token: "claim i t m m' \<Longrightarrow> token_of m' j = (if j = i then Some t else token_of m j)"
    and release_token: "release i t m m' \<Longrightarrow> token_of m i = Some t \<and> next_token m' = next_token m
        \<and> (\<forall>j. token_of m' j = (if j = i then None else token_of m j))"
begin

text \<open>The processes that run, as pairs of name and token, are those of the table.\<close>

definition matches :: "'m \<Rightarrow> (string \<times> nat) list \<Rightarrow> bool" where
  "matches m ps \<longleftrightarrow> distinct ps \<and> (\<forall>i t. (i, t) \<in> set ps \<longleftrightarrow> token_of m i = Some t)
     \<and> (\<forall>i t. token_of m i = Some t \<longrightarrow> t < next_token m)
     \<and> (\<forall>i j t. token_of m i = Some t \<and> token_of m j = Some t \<longrightarrow> i = j)"

lemma matches_same:
  "matches m ps \<Longrightarrow> token_of m' = token_of m \<Longrightarrow> next_token m' = next_token m \<Longrightarrow> set ps' = set ps \<Longrightarrow> distinct ps'
    \<Longrightarrow> matches m' ps'"
  by (simp add: matches_def)

lemma matches_claim:
  assumes "matches m ps" "claim i t m m'"
  shows "matches m' ((i, t) # ps)"
proof -
  note f = claim_fresh [OF assms(2)] and tok = claim_token [OF assms(2)]
  have new: "token_of m j \<noteq> Some t" for j using assms(1) f by (auto simp: matches_def)
  then show ?thesis
    using assms(1) f by (auto simp: matches_def tok less_Suc_eq split: if_splits)
qed

lemma matches_release: "matches m ps \<Longrightarrow> release i t m m' \<Longrightarrow> matches m' (remove1 (i, t) ps)"
  using release_token [of i t m m'] by (auto simp: matches_def split: if_splits)

text \<open>A released token is never claimed again.\<close>

definition retired :: "'m \<Rightarrow> nat \<Rightarrow> bool" where
  "retired m t \<longleftrightarrow> t < next_token m \<and> (\<forall>i. token_of m i \<noteq> Some t)"

lemma retired_same: "token_of m' = token_of m \<Longrightarrow> next_token m' = next_token m \<Longrightarrow> retired m' t = retired m t"
  by (simp add: retired_def)

lemma retired_claim: "claim i t m m' \<Longrightarrow> retired m u \<Longrightarrow> retired m' u"
  using claim_fresh [of i t m m'] claim_token [of i t m m'] by (auto simp: retired_def split: if_splits)

lemma retired_release:
  assumes "matches m ps" "release i t m m'"
  shows "retired m' u \<longleftrightarrow> u = t \<or> retired m u"
proof -
  have r: "token_of m i = Some t" "next_token m' = next_token m" "\<And>j. token_of m' j = (if j = i then None else token_of m j)"
    using release_token [OF assms(2)] by blast+
  have t: "t < next_token m" "\<And>j. j \<noteq> i \<Longrightarrow> token_of m j \<noteq> Some t"
    using assms(1) r(1) by (auto simp: matches_def)
  have "retired m' u \<longleftrightarrow> u < next_token m \<and> (\<forall>j. j \<noteq> i \<longrightarrow> token_of m j \<noteq> Some u)" by (auto simp: retired_def r)
  also have "\<dots> \<longleftrightarrow> u = t \<or> retired m u" using t r(1) unfolding retired_def by (metis option.inject)
  finally show ?thesis .
qed

lemma one_per_name: "matches m ps \<Longrightarrow> distinct (map fst ps)"
  by (auto simp: matches_def distinct_map inj_on_def)

lemma running_iff: "matches m ps \<Longrightarrow> token_of m i \<noteq> None \<longleftrightarrow> i \<in> fst ` set ps"
  by (force simp: matches_def)

lemma own_token: "matches m ps \<Longrightarrow> (i, t) \<in> set ps \<Longrightarrow> token_of m i = Some t"
  by (simp add: matches_def)

end

end
