(* ===== verification/SrtManagerProps.thy ===== *)
theory SrtManagerProps
  imports SrtManager SrtStoreProps JobTable "HOL-Library.Multiset"
begin

text \<open>
  The manager as a transition system. A goroutine that has left a critical section and has
  not finished is an entry of one of the lists below, so that the sections of different
  goroutines interleave freely; the store may also be changed by anyone between two steps.
\<close>

subsection \<open>Steps\<close>

record mgr_system =
  y_mgr :: manager
  y_starting :: "(string \<times> nat \<times> bool \<times> int) list"  \<comment> \<open>process made, state not yet updated\<close>
  y_waiting :: "(string \<times> nat) list"                \<comment> \<open>goroutines in \<open>wait\<close>\<close>
  y_stopping :: "(string \<times> nat) list"               \<comment> \<open>marked as stopping, state not yet updated\<close>
  y_exited :: "(string \<times> bool \<times> string option) list" \<comment> \<open>job removed, state not yet updated\<close>
  y_retrying :: "string list"                       \<comment> \<open>flapping retry before its start\<close>

definition begin_start :: "string \<Rightarrow> bool \<Rightarrow> relay_job \<Rightarrow> manager \<Rightarrow> mgr_system \<Rightarrow> mgr_system" where
  "begin_start i restarted job m y =
     y\<lparr>y_mgr := m, y_starting := (i, job_token job, restarted, job_pid job) # y_starting y\<rparr>"

inductive mgr_step :: "audit_enc \<Rightarrow> mgr_system \<Rightarrow> mgr_system \<Rightarrow> bool" for enc where
  start_begins: "start_claim now env i False (y_mgr y) = (Inr (job, input), m)
    \<Longrightarrow> mgr_step enc y (begin_start i False job m y)"
| start_ends: "(i, token, restarted, pid) \<in> set (y_starting y)
    \<Longrightarrow> mgr_step enc y (y\<lparr>y_mgr := start_publish now i restarted pid (y_mgr y),
          y_starting := remove1 (i, token, restarted, pid) (y_starting y), y_waiting := (i, token) # y_waiting y\<rparr>)"
| stop_begins: "stop_claim now i (y_mgr y) = (Inr (Some job), m)
    \<Longrightarrow> mgr_step enc y (y\<lparr>y_mgr := m, y_stopping := (i, job_token job) # y_stopping y\<rparr>)"
| stop_ends: "(i, token) \<in> set (y_stopping y)
    \<Longrightarrow> mgr_step enc y (y\<lparr>y_mgr := stop_signal delivered i token (stop_publish now i (y_mgr y)),
          y_stopping := remove1 (i, token) (y_stopping y)\<rparr>)"
| worker_exits: "(i, token) \<in> set (y_waiting y) \<Longrightarrow> wait_claim i token (y_mgr y) = (Some stopping, m)
    \<Longrightarrow> mgr_step enc y (y\<lparr>y_mgr := m, y_waiting := remove1 (i, token) (y_waiting y),
          y_exited := (i, stopping, err) # y_exited y\<rparr>)"
| exit_ignored: "(i, token) \<in> set (y_waiting y) \<Longrightarrow> wait_claim i token (y_mgr y) = (None, m)
    \<Longrightarrow> mgr_step enc y (y\<lparr>y_mgr := m, y_waiting := remove1 (i, token) (y_waiting y)\<rparr>)"
| exit_ends: "(i, stopping, err) \<in> set (y_exited y)
    \<Longrightarrow> mgr_step enc y (y\<lparr>y_mgr := wait_publish enc envs env now i stopping err (y_mgr y),
          y_exited := remove1 (i, stopping, err) (y_exited y)\<rparr>)"
| restart_fires: "RestartTimer i \<in> set (mgr_timers (y_mgr y))
    \<Longrightarrow> start_claim now env i True (disarm (RestartTimer i) (y_mgr y)) = (Inr (job, input), m)
    \<Longrightarrow> mgr_step enc y (begin_start i True job m y)"
| restart_fails: "RestartTimer i \<in> set (mgr_timers (y_mgr y))
    \<Longrightarrow> start_claim now env i True (disarm (RestartTimer i) (y_mgr y)) = (Inl e, m)
    \<Longrightarrow> mgr_step enc y (y\<lparr>y_mgr := m\<rparr>)"
| retry_begins: "FlappingTimer i \<in> set (mgr_timers (y_mgr y))
    \<Longrightarrow> retry_claim now i (disarm (FlappingTimer i) (y_mgr y)) = (go, m)
    \<Longrightarrow> mgr_step enc y (y\<lparr>y_mgr := m, y_retrying := (if go then i # y_retrying y else y_retrying y)\<rparr>)"
| retry_starts: "i \<in> set (y_retrying y) \<Longrightarrow> start_claim now env i True (y_mgr y) = (Inr (job, input), m)
    \<Longrightarrow> mgr_step enc y (begin_start i True job m (y\<lparr>y_retrying := remove1 i (y_retrying y)\<rparr>))"
| retry_fails: "i \<in> set (y_retrying y) \<Longrightarrow> start_claim now env i True (y_mgr y) = (Inl e, m)
    \<Longrightarrow> mgr_step enc y (y\<lparr>y_mgr := retry_failed now i e m, y_retrying := remove1 i (y_retrying y)\<rparr>)"
| kill_fires: "KillTimer i token \<in> set (mgr_timers (y_mgr y))
    \<Longrightarrow> mgr_step enc y (y\<lparr>y_mgr := kill_timer i token (disarm (KillTimer i token) (y_mgr y))\<rparr>)"
| store_changes: "store_step enc (mgr_store (y_mgr y)) s
    \<Longrightarrow> mgr_step enc y (y\<lparr>y_mgr := (y_mgr y)\<lparr>mgr_store := s\<rparr>\<rparr>)"

definition initial_system :: "string \<Rightarrow> store \<Rightarrow> mgr_system" where
  "initial_system path s = \<lparr>y_mgr = new_manager path s, y_starting = [], y_waiting = [], y_stopping = [],
     y_exited = [], y_retrying = []\<rparr>"

inductive mgr_reachable :: "audit_enc \<Rightarrow> mgr_system \<Rightarrow> bool" for enc where
  initial: "store_reachable enc s \<Longrightarrow> mgr_reachable enc (initial_system path s)"
| next_step: "mgr_reachable enc y \<Longrightarrow> mgr_step enc y z \<Longrightarrow> mgr_reachable enc z"

subsection \<open>What the sections leave alone\<close>

lemma set_state_keeps [simp]:
  "mgr_jobs (set_state now i f m) = mgr_jobs m" "mgr_next (set_state now i f m) = mgr_next m"
  "mgr_restarts (set_state now i f m) = mgr_restarts m" "mgr_timers (set_state now i f m) = mgr_timers m"
  "mgr_signals (set_state now i f m) = mgr_signals m"
  by (simp_all add: set_state_def)

lemma arm_keeps [simp]:
  "mgr_jobs (arm t m) = mgr_jobs m" "mgr_next (arm t m) = mgr_next m" "mgr_store (arm t m) = mgr_store m"
  "mgr_restarts (arm t m) = mgr_restarts m"
  by (simp_all add: arm_def)

lemma disarm_keeps [simp]:
  "mgr_jobs (disarm t m) = mgr_jobs m" "mgr_next (disarm t m) = mgr_next m" "mgr_store (disarm t m) = mgr_store m"
  "mgr_restarts (disarm t m) = mgr_restarts m"
  by (simp_all add: disarm_def)

lemma close_sessions_keeps [simp]:
  "mgr_jobs (close_sessions enc envs now i reason m) = mgr_jobs m"
  "mgr_next (close_sessions enc envs now i reason m) = mgr_next m"
  "mgr_restarts (close_sessions enc envs now i reason m) = mgr_restarts m"
  "mgr_timers (close_sessions enc envs now i reason m) = mgr_timers m"
  by (simp_all add: close_sessions_def)

lemma allow_restart_keeps [simp]:
  "mgr_jobs (snd (allow_restart i now m)) = mgr_jobs m" "mgr_next (snd (allow_restart i now m)) = mgr_next m"
  "mgr_store (snd (allow_restart i now m)) = mgr_store m" "mgr_timers (snd (allow_restart i now m)) = mgr_timers m"
  by (simp_all add: allow_restart_def Let_def)

lemma schedule_restart_keeps [simp]:
  "mgr_jobs (schedule_restart now i m) = mgr_jobs m" "mgr_next (schedule_restart now i m) = mgr_next m"
  by (auto simp: schedule_restart_def allow_restart_def Let_def split: option.splits)

lemma wait_publish_keeps [simp]:
  "mgr_jobs (wait_publish enc envs env now i stopping err m) = mgr_jobs m"
  "mgr_next (wait_publish enc envs env now i stopping err m) = mgr_next m"
  by (simp_all add: wait_publish_def Let_def)

lemma stop_ends_keeps [simp]:
  "mgr_jobs (stop_signal delivered i token m) = mgr_jobs m" "mgr_next (stop_signal delivered i token m) = mgr_next m"
  "mgr_jobs (stop_publish now i m) = mgr_jobs m" "mgr_next (stop_publish now i m) = mgr_next m"
  "mgr_jobs (start_publish now i r pid m) = mgr_jobs m" "mgr_next (start_publish now i r pid m) = mgr_next m"
  "mgr_jobs (kill_timer i token m) = mgr_jobs m" "mgr_next (kill_timer i token m) = mgr_next m"
  "mgr_jobs (retry_failed now i e m) = mgr_jobs m" "mgr_next (retry_failed now i e m) = mgr_next m"
  by (simp_all add: stop_signal_def stop_publish_def start_publish_def kill_timer_def retry_failed_def)

lemma retry_claim_keeps:
  "retry_claim now i m = (go, m') \<Longrightarrow> mgr_jobs m' = mgr_jobs m \<and> mgr_next m' = mgr_next m"
  by (auto simp: retry_claim_def Let_def split: option.splits if_splits)

lemma start_claim_Inl: "start_claim now env i r m = (Inl e, m') \<Longrightarrow> m' = m"
  by (auto simp: start_claim_def Let_def split: option.splits if_splits sum.splits)

lemma start_claim_Inr:
  assumes "start_claim now env i r m = (Inr (job, input), m')"
  shows "\<not> has_key (mgr_jobs m) i \<and> job_token job = mgr_next m \<and> \<not> job_stopping job
    \<and> mgr_jobs m' = put i job (mgr_jobs m) \<and> mgr_next m' = mgr_next m + 1 \<and> mgr_store m' = mgr_store m
    \<and> mgr_timers m' = mgr_timers m \<and> (\<exists>view. get_relay now (mgr_store m) i = Some view
        \<and> r_enabled (v_config view) \<and> input = worker_input (mgr_store m) (v_config view))"
  using assms by (auto simp: start_claim_def Let_def split: option.splits if_splits sum.splits)

subsection \<open>One worker per relay\<close>

text \<open>The processes that run: made by a start, and not yet removed by their \<open>wait\<close>.\<close>

definition processes :: "mgr_system \<Rightarrow> (string \<times> nat) list" where
  "processes y = map (\<lambda>(i, token, _). (i, token)) (y_starting y) @ y_waiting y"

definition relay_token_of :: "manager \<Rightarrow> string \<Rightarrow> nat option" where
  "relay_token_of m i = map_option job_token (get (mgr_jobs m) i)"

definition relay_claimed :: "string \<Rightarrow> nat \<Rightarrow> manager \<Rightarrow> manager \<Rightarrow> bool" where
  "relay_claimed i t m m' \<longleftrightarrow> (\<exists>now env r job input. start_claim now env i r m = (Inr (job, input), m') \<and> job_token job = t)"

definition relay_released :: "string \<Rightarrow> nat \<Rightarrow> manager \<Rightarrow> manager \<Rightarrow> bool" where
  "relay_released i t m m' \<longleftrightarrow> (\<exists>stopping. wait_claim i t m = (Some stopping, m'))"

interpretation relay_table: job_table relay_token_of mgr_next relay_claimed relay_released
proof unfold_locales
  show "relay_claimed i t m m' \<Longrightarrow> relay_token_of m i = None \<and> t = mgr_next m \<and> mgr_next m' = Suc t" for i t m m'
    using start_claim_Inr by (fastforce simp: relay_claimed_def relay_token_of_def has_key_def)
  show "relay_claimed i t m m' \<Longrightarrow> relay_token_of m' j = (if j = i then Some t else relay_token_of m j)" for i t m m' j
    using start_claim_Inr by (fastforce simp: relay_claimed_def relay_token_of_def)
  show "relay_released i t m m' \<Longrightarrow> relay_token_of m i = Some t \<and> mgr_next m' = mgr_next m
      \<and> (\<forall>j. relay_token_of m' j = (if j = i then None else relay_token_of m j))" for i t m m'
    by (auto simp: relay_released_def relay_token_of_def wait_claim_def split: option.splits if_splits)
qed

definition jobs_match :: "mgr_system \<Rightarrow> bool" where
  "jobs_match y \<longleftrightarrow> relay_table.matches (y_mgr y) (processes y)"

lemma relay_token_has: "relay_token_of m i = Some t \<longleftrightarrow> has_job i t m"
  by (auto simp: relay_token_of_def has_job_def split: option.splits)

lemma waiting_process: "jobs_match y \<Longrightarrow> (i, token) \<in> set (y_waiting y) \<Longrightarrow> has_job i token (y_mgr y)"
  using relay_table.own_token [of "y_mgr y" "processes y" i token]
  by (simp add: jobs_match_def processes_def relay_token_has)

lemma wait_claim_own: "has_job i token m \<Longrightarrow> fst (wait_claim i token m) \<noteq> None"
  by (auto simp: has_job_def wait_claim_def split: option.splits)

lemma jobs_match_same:
  assumes "jobs_match y" "relay_token_of (y_mgr z) = relay_token_of (y_mgr y)" "mgr_next (y_mgr z) = mgr_next (y_mgr y)"
    and "mset (processes z) = mset (processes y)"
  shows "jobs_match z"
proof -
  have "set (processes z) = set (processes y)" "distinct (processes z) = distinct (processes y)"
    using assms(4) by (auto dest: mset_eq_setD mset_eq_imp_distinct_iff)
  then show ?thesis
    using assms(1-3) relay_table.matches_same by (simp add: jobs_match_def relay_table.matches_def)
qed

lemma jobs_match_cong:
  assumes "jobs_match y" "mgr_jobs (y_mgr z) = mgr_jobs (y_mgr y)" "mgr_next (y_mgr z) = mgr_next (y_mgr y)"
    and "mset (processes z) = mset (processes y)"
  shows "jobs_match z"
  using assms by (intro jobs_match_same [OF assms(1)]) (simp_all add: relay_token_of_def fun_eq_iff)

lemma jobs_match_start:
  assumes "jobs_match y" "start_claim now env i r m = (Inr (job, input), m')"
    and "mgr_jobs m = mgr_jobs (y_mgr y)" "mgr_next m = mgr_next (y_mgr y)"
    and "y_starting z = y_starting y" "y_waiting z = y_waiting y"
  shows "jobs_match (begin_start i r job m' z)"
proof -
  have "relay_token_of m = relay_token_of (y_mgr y)" using assms(3) by (simp add: relay_token_of_def fun_eq_iff)
  then have "relay_table.matches m (processes y)"
    using assms(1,4) by (simp add: jobs_match_def relay_table.matches_def)
  moreover have "relay_claimed i (job_token job) m m'" using assms(2) unfolding relay_claimed_def by blast
  ultimately have "relay_table.matches m' ((i, job_token job) # processes y)" by (rule relay_table.matches_claim)
  then show ?thesis using assms(5,6) by (simp add: jobs_match_def begin_start_def processes_def)
qed

lemma jobs_match_exit:
  assumes "jobs_match y" "(i, token) \<in> set (y_waiting y)" "wait_claim i token (y_mgr y) = (Some stopping, m)"
    and "y_mgr z = m" "y_starting z = y_starting y" "y_waiting z = remove1 (i, token) (y_waiting y)"
  shows "jobs_match z"
proof -
  have d: "distinct (processes y)" using assms(1) by (simp add: jobs_match_def relay_table.matches_def)
  have "relay_released i token (y_mgr y) m" using assms(3) by (auto simp: relay_released_def)
  with assms(1) have "relay_table.matches m (remove1 (i, token) (processes y))"
    unfolding jobs_match_def by (rule relay_table.matches_release)
  moreover have "(i, token) \<notin> set (map (\<lambda>(i, token, _). (i, token)) (y_starting y))"
    using d assms(2) by (auto simp: processes_def)
  ultimately show ?thesis
    using assms(4-6) by (simp add: jobs_match_def processes_def remove1_append)
qed

lemma jobs_match_step: "mgr_step enc y z \<Longrightarrow> jobs_match y \<Longrightarrow> jobs_match z"
proof (induction rule: mgr_step.induct)
  case (start_ends i token restarted pid y now)
  have "mset (y_starting y) = add_mset (i, token, restarted, pid) (mset (y_starting y) - {#(i, token, restarted, pid)#})"
    using start_ends.hyps by simp
  then have "image_mset (\<lambda>(i, token, _). (i, token)) (mset (y_starting y))
      = add_mset (i, token) (image_mset (\<lambda>(i, token, _). (i, token)) (mset (y_starting y) - {#(i, token, restarted, pid)#}))"
    by (metis (no_types, lifting) case_prod_conv image_mset_add_mset)
  then show ?case
    using start_ends.prems by (elim jobs_match_cong) (simp_all add: processes_def)
next
  case (stop_begins now i y job m)
  then have m: "mgr_jobs m = put i (job\<lparr>job_stopping := True\<rparr>) (mgr_jobs (y_mgr y))" "mgr_next m = mgr_next (y_mgr y)"
    and g: "get (mgr_jobs (y_mgr y)) i = Some job"
    by (auto simp: stop_claim_def split: option.splits if_splits)
  have "relay_token_of m = relay_token_of (y_mgr y)"
    by (simp add: relay_token_of_def m g fun_eq_iff)
  then show ?case
    using stop_begins.prems by (elim jobs_match_same) (simp_all add: processes_def m)
next
  case (exit_ignored i token y m)
  have "has_job i token (y_mgr y)"
    using exit_ignored by (intro waiting_process)
  then show ?case
    using exit_ignored.hyps(2) wait_claim_own by fastforce
next
  case (worker_exits i token y stopping m err)
  show ?case by (rule jobs_match_exit [OF worker_exits.prems worker_exits.hyps]) simp_all
next
  case (start_begins now env i y job input m)
  show ?case by (rule jobs_match_start [OF start_begins.prems start_begins.hyps]) simp_all
next
  case (restart_fires i y now env job input m)
  show ?case by (rule jobs_match_start [OF restart_fires.prems restart_fires.hyps(2)]) simp_all
next
  case (retry_starts i y now env job input m)
  show ?case by (rule jobs_match_start [OF retry_starts.prems retry_starts.hyps(2)]) simp_all
next
  case (restart_fails i y now env e m)
  then show ?case using start_claim_Inl [OF restart_fails.hyps(2)]
    by (intro jobs_match_cong [OF restart_fails.prems]) (simp_all add: processes_def)
next
  case (retry_fails i y now env e m)
  then show ?case using start_claim_Inl [OF retry_fails.hyps(2)]
    by (intro jobs_match_cong [OF retry_fails.prems]) (simp_all add: processes_def)
next
  case (retry_begins i y now go m)
  then show ?case using retry_claim_keeps [OF retry_begins.hyps(2)]
    by (intro jobs_match_cong [OF retry_begins.prems]) (simp_all add: processes_def)
qed (auto elim!: jobs_match_cong simp: processes_def)

lemma mgr_reachable_match: "mgr_reachable enc y \<Longrightarrow> jobs_match y"
proof (induction rule: mgr_reachable.induct)
  case (initial s path)
  then show ?case
    by (simp add: jobs_match_def relay_table.matches_def initial_system_def new_manager_def processes_def relay_token_of_def)
next
  case (next_step y z) then show ?case using jobs_match_step by blast
qed

text \<open>
  C14: However the sections of the goroutines interleave, a relay has at most one worker
  process, the manager reports it as running exactly while that process is there, and the
  goroutine waiting for a process always finds its own job, so no exit goes unnoticed.
\<close>

theorem one_worker_per_relay:
  assumes "mgr_reachable enc y"
  shows "distinct (map fst (processes y))
    \<and> (\<forall>i. is_running i (y_mgr y) \<longleftrightarrow> i \<in> fst ` set (processes y))
    \<and> (\<forall>(i, token) \<in> set (y_waiting y). fst (wait_claim i token (y_mgr y)) \<noteq> None)"
proof -
  have ok: "jobs_match y" using assms by (rule mgr_reachable_match)
  then have m: "relay_table.matches (y_mgr y) (processes y)" by (simp add: jobs_match_def)
  have "is_running i (y_mgr y) \<longleftrightarrow> i \<in> fst ` set (processes y)" for i
    using relay_table.running_iff [OF m, of i] by (auto simp: is_running_def has_key_def relay_token_of_def)
  moreover have "fst (wait_claim i t (y_mgr y)) \<noteq> None" if "(i, t) \<in> set (y_waiting y)" for i t
    using waiting_process [OF ok that] by (rule wait_claim_own)
  ultimately show ?thesis using relay_table.one_per_name [OF m] by auto
qed

subsection \<open>The store of the manager\<close>

lemma close_relay_sessions_effect:
  assumes "sessions_ok (sto_sessions s)"
  shows "sto_relays (snd (close_relay_sessions enc envs now relay reason at s)) = sto_relays s"
    and "sto_states (snd (close_relay_sessions enc envs now relay reason at s)) = sto_states s"
    and "get (sto_sessions (snd (close_relay_sessions enc envs now relay reason at s))) i = Some x \<Longrightarrow> \<not> open_on relay x"
proof -
  let ?at = "if is_zero at then now else at"
  obtain s' closed where f: "foldl (close_one relay reason ?at) (s, []) (sto_sessions s) = (s', closed)"
    by fastforce
  have d: "distinct (map fst (sto_sessions s))"
    using assms by (simp add: sessions_ok_def map_ok_def)
  have s': "sto_relays s' = sto_relays s" "sto_states s' = sto_states s"
    using close_fold_ok [of "(s, [])" "sto_sessions s" relay reason ?at] assms session_entries [OF assms] f
    by (auto simp: same_config_def)
  have fold: "sto_relays (foldl (\<lambda>s x. snd (record_audit enc (env x) (ev x) s)) t xs) = sto_relays t"
    "sto_states (foldl (\<lambda>s x. snd (record_audit enc (env x) (ev x) s)) t xs) = sto_states t" for env ev t xs
    by (induction xs arbitrary: t) simp_all
  show "sto_relays (snd (close_relay_sessions enc envs now relay reason at s)) = sto_relays s"
    "sto_states (snd (close_relay_sessions enc envs now relay reason at s)) = sto_states s"
    using prune_sessions_ok [of s'] s'
    by (simp_all add: close_relay_sessions_def Let_def f fold same_config_def)
  have t: "sto_sessions (snd (close_relay_sessions enc envs now relay reason at s)) = sto_sessions (prune_sessions s')"
    by (simp only: close_relay_sessions_def Let_def f prod.case snd_conv audit_fold_sessions)
  assume "get (sto_sessions (snd (close_relay_sessions enc envs now relay reason at s))) i = Some x"
  then have "get (sto_sessions s') i = Some x"
    unfolding t by (rule prune_sub)
  moreover have "get (sto_sessions s') i = (case get (sto_sessions s) i of
      Some x \<Rightarrow> Some (if open_on relay x then close_session reason ?at x else x) | None \<Rightarrow> None)"
    using close_fold_effect [OF d, of relay reason ?at s "[]"] f by (auto split: option.splits)
  ultimately show "\<not> open_on relay x"
    by (auto simp: open_on_def active_def close_session_def split: option.splits if_splits)
qed

lemma store_ok_set_state: "store_ok (mgr_store m) \<Longrightarrow> store_ok (mgr_store (set_state now i f m))"
  by (simp add: set_state_def update_state_ok)

lemma store_ok_close: "store_ok (mgr_store m) \<Longrightarrow> store_ok (mgr_store (close_sessions enc envs now i reason m))"
  by (simp add: close_sessions_def close_relay_sessions_ok)

lemma store_ok_schedule: "store_ok (mgr_store m) \<Longrightarrow> store_ok (mgr_store (schedule_restart now i m))"
  by (auto simp: schedule_restart_def allow_restart_def Let_def set_state_def update_state_ok split: option.splits)

lemma store_ok_wait: "store_ok (mgr_store m) \<Longrightarrow> store_ok (mgr_store (wait_publish enc envs env now i stopping err m))"
  by (auto simp: wait_publish_def Let_def store_ok_set_state store_ok_close intro!: store_ok_schedule)

lemma mgr_step_store: "mgr_step enc y z \<Longrightarrow> store_ok (mgr_store (y_mgr y)) \<Longrightarrow> store_ok (mgr_store (y_mgr z))"
proof (induction rule: mgr_step.induct)
  case (start_begins now env i y job input m)
  then show ?case using start_claim_Inr [OF start_begins.hyps] by (simp add: begin_start_def)
next
  case (restart_fires i y now env job input m)
  then show ?case using start_claim_Inr [OF restart_fires.hyps(2)] by (simp add: begin_start_def)
next
  case (retry_starts i y now env job input m)
  then show ?case using start_claim_Inr [OF retry_starts.hyps(2)] by (simp add: begin_start_def)
next
  case (restart_fails i y now env e m)
  then show ?case using start_claim_Inl [OF restart_fails.hyps(2)] by simp
next
  case (retry_fails i y now env e m)
  then show ?case using start_claim_Inl [OF retry_fails.hyps(2)]
    by (simp add: retry_failed_def store_ok_set_state)
next
  case (retry_begins i y now go m)
  then show ?case by (auto simp: retry_claim_def Let_def intro: store_ok_set_state split: option.splits if_splits)
next
  case (exit_ends i stopping err y envs env now)
  then show ?case by (simp add: store_ok_wait)
next
  case (store_changes y s)
  then show ?case using store_step_ok by simp
qed (auto simp: start_publish_def stop_signal_def stop_publish_def kill_timer_def stop_claim_def wait_claim_def
      intro!: store_ok_set_state split: option.splits if_splits)

lemma mgr_reachable_store: "mgr_reachable enc y \<Longrightarrow> store_ok (mgr_store (y_mgr y))"
proof (induction rule: mgr_reachable.induct)
  case (initial s path) then show ?case by (simp add: initial_system_def new_manager_def store_reachable_ok)
next
  case (next_step y z) then show ?case using mgr_step_store by blast
qed

subsection \<open>Stopping while the worker exits\<close>

lemma status_set_state [simp]:
  "get (sto_states (mgr_store (set_state now i f m))) j =
     (if j = i then Some ((f (state_locked now (mgr_store m) i))\<lparr>st_updated_at := now\<rparr>)
      else get (sto_states (mgr_store m)) j)"
  "sto_relays (mgr_store (set_state now i f m)) = sto_relays (mgr_store m)"
  "sto_sessions (mgr_store (set_state now i f m)) = sto_sessions (mgr_store m)"
  by (simp_all add: set_state_def update_state_def Let_def)

lemma state_after [simp]:
  "state_locked later (mgr_store (set_state now i f m)) i
     = (f (state_locked now (mgr_store m) i))\<lparr>st_updated_at := now\<rparr>"
  by (simp add: state_locked_def)

text \<open>
  A stop that meets the exit of its worker can leave the relay in the state
  ''stopping'' for good: the goroutine in \<open>wait\<close> sees the mark, reports the relay as stopped,
  and only then does \<open>Stop\<close> report it as stopping. No goroutine, job or restart is left that
  would change the state, and the relay cannot be deleted.
\<close>

theorem stop_race_sticks:
  assumes "mgr_reachable enc y" and "(i, token) \<in> set (y_waiting y)"
    and "get (sto_relays (mgr_store (y_mgr y))) i = Some r"
    and "y_stopping y = []" and "y_exited y = []"
  shows "\<exists>z. (mgr_step enc)\<^sup>*\<^sup>* y z \<and> \<not> is_running i (y_mgr z) \<and> y_stopping z = [] \<and> y_exited z = []
    \<and> mgr_timers (y_mgr z) = mgr_timers (y_mgr y) @ [KillTimer i token]
    \<and> fst (delete_relay now saved i (mgr_store (y_mgr z))) = Inl RelayNotStopped"
proof -
  obtain job where job: "get (mgr_jobs (y_mgr y)) i = Some job" "job_token job = token"
    using waiting_process [OF mgr_reachable_match [OF assms(1)] assms(2)] by (auto simp: has_job_def split: option.splits)
  have so: "sessions_ok (sto_sessions (mgr_store (y_mgr y)))"
    using mgr_reachable_store [OF assms(1)] by (simp add: store_ok_def)
  let ?m1 = "(y_mgr y)\<lparr>mgr_jobs := put i (job\<lparr>job_stopping := True\<rparr>) (mgr_jobs (y_mgr y)),
    mgr_restarts := del i (mgr_restarts (y_mgr y))\<rparr>"
  let ?y1 = "y\<lparr>y_mgr := ?m1, y_stopping := (i, token) # y_stopping y\<rparr>"
  let ?m2 = "?m1\<lparr>mgr_jobs := del i (mgr_jobs ?m1)\<rparr>"
  let ?y2 = "?y1\<lparr>y_mgr := ?m2, y_waiting := remove1 (i, token) (y_waiting ?y1),
    y_exited := (i, True, None) # y_exited ?y1\<rparr>"
  let ?m3 = "wait_publish enc (\<lambda>_. undefined) undefined now i True None ?m2"
  let ?y3 = "?y2\<lparr>y_mgr := ?m3, y_exited := remove1 (i, True, None) (y_exited ?y2)\<rparr>"
  let ?m4 = "stop_signal True i token (stop_publish now i ?m3)"
  let ?y4 = "?y3\<lparr>y_mgr := ?m4, y_stopping := remove1 (i, token) (y_stopping ?y3)\<rparr>"
  have "mgr_step enc y ?y1"
    using stop_begins [of now i y job ?m1 enc] job by (simp add: stop_claim_def)
  moreover have "mgr_step enc ?y1 ?y2"
    using worker_exits [of i token ?y1 True ?m2 enc None] assms(2) job by (simp add: wait_claim_def)
  moreover have "mgr_step enc ?y2 ?y3"
    using exit_ends [of i True None ?y2 enc] by simp
  moreover have "mgr_step enc ?y3 ?y4"
    using stop_ends [of i token ?y3 enc True now] by simp
  ultimately have "(mgr_step enc)\<^sup>*\<^sup>* y ?y4"
    by (meson converse_rtranclp_into_rtranclp rtranclp.rtrancl_refl)
  moreover have "has_key (sto_relays (mgr_store ?m4)) i"
    using assms(3) by (simp add: stop_signal_def arm_def stop_publish_def wait_publish_def close_sessions_def
        close_relay_sessions_effect [OF so] has_key_def)
  moreover have "st_status (state_locked now (mgr_store ?m4) i) = ''stopping''"
    by (simp add: stop_signal_def arm_def stop_publish_def)
  ultimately show ?thesis
    using assms(4,5) by (intro exI [of _ ?y4])
      (simp add: delete_relay_def is_running_def has_key_def stop_signal_def arm_def stop_publish_def wait_publish_def)
qed

subsection \<open>Crashes and restarts\<close>

lemma crash_store:
  assumes "store_ok (mgr_store m)" "get (sto_relays (mgr_store m)) i = Some r" "r_enabled r"
  fixes reason :: string and now enc envs env event
  defines "m1 \<equiv> set_state now i (exited reason) (close_sessions enc envs now i reason m)"
  defines "m2 \<equiv> m1\<lparr>mgr_store := snd (record_audit enc env event (mgr_store m1))\<rparr>"
  shows "get (sto_relays (mgr_store m2)) i = Some r"
    and "get (sto_sessions (mgr_store m2)) k = Some x \<Longrightarrow> \<not> open_on i x"
    and "mgr_restarts m2 = mgr_restarts m" "mgr_timers m2 = mgr_timers m" "mgr_jobs m2 = mgr_jobs m"
    and "st_pid (state_locked now (mgr_store m2) i) = 0"
proof -
  have so: "sessions_ok (sto_sessions (mgr_store m))" using assms(1) by (simp add: store_ok_def)
  note c = close_relay_sessions_effect [OF so]
  show "get (sto_relays (mgr_store m2)) i = Some r"
    using assms(2) by (simp add: m2_def m1_def close_sessions_def c)
  show "get (sto_sessions (mgr_store m2)) k = Some x \<Longrightarrow> \<not> open_on i x"
    by (simp add: m2_def m1_def close_sessions_def c)
  show "mgr_restarts m2 = mgr_restarts m" "mgr_timers m2 = mgr_timers m" "mgr_jobs m2 = mgr_jobs m"
    by (simp_all add: m2_def m1_def)
  show "st_pid (state_locked now (mgr_store m2) i) = 0"
    by (simp add: m2_def m1_def state_locked_def exited_def)
qed



subsection \<open>Restart on request\<close>

lemma await_stop_returns:
  "(\<exists>k < length turns. deadline \<le> fst (turns ! k)) \<Longrightarrow> \<exists>r. await_stop deadline env i turns m = Some r"
proof (induction turns arbitrary: m)
  case (Cons turn turns)
  obtain now others where t: "turn = (now, others)" by (cases turn)
  obtain k where k: "k < length (turn # turns)" "deadline \<le> fst ((turn # turns) ! k)" using Cons.prems by blast
  show ?case
  proof (cases "deadline \<le> now")
    case False
    then obtain l where "k = Suc l" using k t by (cases k) auto
    then have "\<exists>k < length turns. deadline \<le> fst (turns ! k)" using k by auto
    then show ?thesis using Cons.IH by (simp add: t False)
  qed (simp add: t)
qed simp

text \<open>
  C17: \<open>Restart\<close> always answers: with sleeps of at least 50 ms between two looks at the clock,
  121 looks are enough, whatever the other goroutines do in between.
\<close>

theorem restart_returns:
  assumes "121 \<le> length turns" and "\<forall>k < length turns. time_add now (int k * 50000000) \<le> fst (turns ! k)"
  shows "\<exists>r. restart_relay now delivered env i turns m = Some r"
proof -
  have "time_add now (int 120 * 50000000) \<le> fst (turns ! 120)"
    using assms by (metis less_le_trans lessI numeral_plus_one Suc_eq_plus1 semiring_norm(5) eval_nat_numeral(3))
  then have "\<exists>k < length turns. time_add now (seconds 6) \<le> fst (turns ! k)"
    using assms(1) by (intro exI [of _ 120]) (simp add: seconds_def)
  then show ?thesis
    using await_stop_returns by (auto simp: restart_relay_def split: prod.split sum.split)
qed

text \<open>
  C18: Stopping a relay that waits for its restart is answered with success and does nothing:
  the restart timer stays armed, and when it fires the worker is started again.
\<close>

theorem stop_during_backoff_ignored:
  assumes "\<not> is_running i m" and "get (sto_relays (mgr_store m)) i = Some r" and "r_enabled r"
    and "RestartTimer i \<in> set (mgr_timers m)"
    and "se_path_error env = None" and "se_process env = Inr pid"
  shows "stop_relay now delivered i m = (Inr (), m)
    \<and> (\<exists>job input m'. restart_timer later env i (snd (stop_relay now delivered i m)) = (Inr (job, input), m')
        \<and> is_running i m' \<and> st_status (state_locked later (mgr_store m') i) = ''starting'')"
proof -
  have none: "get (mgr_jobs m) i = None"
    using assms(1) by (simp add: is_running_def has_key_def)
  then have stop: "stop_relay now delivered i m = (Inr (), m)"
    using assms(2) by (simp add: stop_relay_def stop_claim_def get_relay_def)
  have "is_running i (start_publish later i True pid (m'\<lparr>mgr_jobs := put i job (mgr_jobs m)\<rparr>))" for m' job
    by (simp add: is_running_def has_key_def)
  then show ?thesis
    using none assms(2,3,5,6) unfolding stop
    by (simp add: restart_timer_def start_relay_def start_claim_def get_relay_def has_key_def Let_def
        is_running_def start_publish_def started_def)
qed

text \<open>A restart that fails is only logged: the relay stays ''restarting'' with nothing left to start it.\<close>

theorem failed_restart_is_final:
  assumes "RestartTimer i \<in> set (mgr_timers m)" and "get (sto_relays (mgr_store m)) i = Some r"
    and "st_status (state_locked now (mgr_store m) i) = ''restarting''"
    and "fst (restart_timer now env i m) = Inl e"
  shows "mgr_timers (snd (restart_timer now env i m)) = remove1 (RestartTimer i) (mgr_timers m)
    \<and> fst (delete_relay now saved i (mgr_store (snd (restart_timer now env i m)))) = Inl RelayNotStopped"
proof -
  obtain m' where c: "start_claim now env i True (disarm (RestartTimer i) m) = (Inl e, m')"
    using assms(4) by (auto simp: restart_timer_def start_relay_def split: prod.splits sum.splits)
  have "m' = disarm (RestartTimer i) m" by (rule start_claim_Inl [OF c])
  then show ?thesis
    using assms(2,3) by (simp add: restart_timer_def start_relay_def c delete_relay_def has_key_def)
      (simp add: disarm_def)
qed

end
