(* ===== verification/SrtWorkerLaws.thy ===== *)
theory SrtWorkerLaws
  imports SrtWorker
begin

text \<open>
  The worker as a transition system and the invariant of its admission: reservations count
  the pending handshakes of each client, no limit is ever exceeded, and every pending
  handshake and session belongs to a client that the caller's Stream ID and address entitle
  it to.
\<close>

subsection \<open>Counting the entries of a map\<close>

lemma filter_put_new:
  "get m k = None \<Longrightarrow> length (filter P (put k v m)) = length (filter P m) + of_bool (P (k, v))"
  by (induction m) (auto simp: put_def get_def split: if_splits)

lemma filter_put_le: "length (filter P (put k v m)) \<le> length (filter P m) + of_bool (P (k, v))"
  by (induction m) (auto simp: put_def)

lemma filter_del:
  "map_ok m \<Longrightarrow> get m k = Some v \<Longrightarrow> length (filter P m) = length (filter P (del k m)) + of_bool (P (k, v))"
proof (induction m)
  case (Cons e m)
  show ?case
  proof (cases "fst e = k")
    case True
    then have "k \<notin> fst ` set m" using Cons.prems by (auto simp: map_ok_def)
    then have "AList.delete k m = m" by (simp add: delete_id)
    then show ?thesis using True Cons.prems by (cases e) (auto simp: get_def del_def)
  next
    case False
    then show ?thesis using Cons by (cases e) (auto simp: get_def del_def map_ok_def)
  qed
qed simp

lemma filter_put_old:
  "get m k = Some u \<Longrightarrow> length (filter P (put k v m)) + of_bool (P (k, u)) = length (filter P m) + of_bool (P (k, v))"
  by (induction m) (auto simp: put_def get_def split: if_splits)

lemma filter_del_le: "length (filter P (del k m)) \<le> length (filter P m)"
  by (induction m) (auto simp: del_def)

lemma length_del_le: "length (del k m) \<le> length m"
  using filter_del_le [of "\<lambda>_. True" k m] by simp

lemma get_map_values: "get (map (\<lambda>(i, s). (i, f s)) m) k = map_option f (get m k)"
  by (induction m) (auto simp: get_def)

lemma map_ok_map_values [simp]: "map_ok (map (\<lambda>(i, s). (i, f s)) m) = map_ok m"
  by (simp add: map_ok_def comp_def case_prod_unfold)

subsection \<open>Attempt keys\<close>

lemma itoa_plain: "CHR '':'' \<notin> set (itoa n)" "CHR 0x00 \<notin> set (itoa n)"
  using itoa_graphic [of _ n] by (auto simp: is_digit_def dest!: itoa_graphic)

lemma split_first: "a @ x # b = a' @ x # b' \<Longrightarrow> x \<notin> set a \<Longrightarrow> x \<notin> set a' \<Longrightarrow> a = a' \<and> b = b'"
proof (induction a arbitrary: a')
  case Nil then show ?case by (cases a') auto
next
  case (Cons y a) then show ?case by (cases a') auto
qed

lemma split_last: "u @ x # p = v @ x # q \<Longrightarrow> x \<notin> set p \<Longrightarrow> x \<notin> set q \<Longrightarrow> u = v \<and> p = q"
proof -
  assume e: "u @ x # p = v @ x # q" and n: "x \<notin> set p" "x \<notin> set q"
  have "rev (u @ x # p) = rev (v @ x # q)" using e by (rule arg_cong)
  then have "rev p @ x # rev u = rev q @ x # rev v" by simp
  from split_first [OF this] n show "u = v \<and> p = q" by simp
qed

definition plain_ip :: "string \<Rightarrow> bool" where
  "plain_ip ip \<longleftrightarrow> CHR 0x00 \<notin> set ip"

lemma join_inject:
  assumes "join_host_port a (itoa p) = join_host_port b (itoa q)"
  shows "a = b \<and> p = q"
proof -
  note c = itoa_plain [of p] itoa_plain [of q]
  define bracketed where "bracketed s \<longleftrightarrow> CHR '':'' \<in> set s \<or> CHR ''%'' \<in> set s" for s :: string
  have tail: "u @ CHR '':'' # itoa p = v @ CHR '':'' # itoa q \<Longrightarrow> u = v \<and> itoa p = itoa q" for u v
    by (drule split_last) (simp_all add: c)
  have j: "join_host_port s t = (if bracketed s then ''['' @ s @ '']'' else s) @ CHR '':'' # t" for s t
    by (simp add: join_host_port_def bracketed_def)
  have e: "(if bracketed a then ''['' @ a @ '']'' else a) = (if bracketed b then ''['' @ b @ '']'' else b) \<and> itoa p = itoa q"
    using assms unfolding j by (rule tail)
  have br: "bracketed (''['' @ s @ '']'') = bracketed s" for s
    by (simp add: bracketed_def)
  have "a = b" using e br [of a] br [of b] by (auto split: if_splits)
  then show ?thesis using e itoa_inject by blast
qed

lemma attempt_key_inject:
  assumes "attempt_key a p s = attempt_key b q t" "plain_ip a" "plain_ip b"
  shows "a = b \<and> p = q \<and> s = t"
proof -
  have n: "CHR 0x00 \<notin> set (join_host_port x (itoa n))" if "plain_ip x" for x n
    using that itoa_plain(2) by (auto simp: join_host_port_def plain_ip_def)
  have "join_host_port a (itoa p) = join_host_port b (itoa q) \<and> s = t"
    using split_first [OF assms(1) [unfolded attempt_key_def] n [OF assms(2)] n [OF assms(3)]] .
  then show ?thesis using join_inject by blast
qed

subsection \<open>The invariant\<close>

definition pending_of :: "worker \<Rightarrow> string \<Rightarrow> nat" where
  "pending_of w c = length (filter (\<lambda>(_, p). pa_client p = c) (w_pending w))"

text \<open>What entitles a caller: the client it stands for is known, and its address is allowed.\<close>

definition entitled :: "worker \<Rightarrow> string \<Rightarrow> string \<Rightarrow> string \<Rightarrow> bool" where
  "entitled w c ip stream \<longleftrightarrow> resolve_client w stream = Inr c
     \<and> (\<exists>acl addr. get (w_clients w) c = Some acl \<and> parse_ip ip = Some addr \<and> ip_allowed addr (acl_networks acl))"

definition max_sessions_of :: "worker \<Rightarrow> string \<Rightarrow> int" where
  "max_sessions_of w c = (case get (w_clients w) c of None \<Rightarrow> 0 | Some acl \<Rightarrow> max 0 (wc_max_sessions (acl_config acl)))"

definition counts_ok :: "worker \<Rightarrow> bool" where
  "counts_ok w \<longleftrightarrow> map_ok (w_pending w) \<and> map_ok (w_sessions w)
     \<and> (\<forall>c. reserved w c = int (pending_of w c))
     \<and> int (length (w_sessions w) + length (w_pending w)) \<le> max 0 (r_max_clients (wcfg_relay (w_config w)))
     \<and> (\<forall>c. int (pending_of w c + sessions_of w c) \<le> max_sessions_of w c)"

definition pending_ok :: "worker \<Rightarrow> bool" where
  "pending_ok w \<longleftrightarrow> (\<forall>key p. get (w_pending w) key = Some p \<longrightarrow>
     key = attempt_key (pa_ip p) (pa_port p) (pa_stream p) \<and> plain_ip (pa_ip p)
     \<and> entitled w (pa_client p) (pa_ip p) (pa_stream p))"

definition sessions_entitled :: "worker \<Rightarrow> bool" where
  "sessions_entitled w \<longleftrightarrow> (\<forall>i s. get (w_sessions w) i = Some s \<longrightarrow> s_id (cs_data s) = i
     \<and> entitled w (s_client_id (cs_data s)) (s_remote_ip (cs_data s)) (s_stream_id (cs_data s)))"

definition queues_ok :: "worker \<Rightarrow> bool" where
  "queues_ok w \<longleftrightarrow> (\<forall>i s. get (w_sessions w) i = Some s \<longrightarrow> length (cs_queue s) \<le> session_queue_size)"

definition worker_ok :: "worker \<Rightarrow> bool" where
  "worker_ok w \<longleftrightarrow> counts_ok w \<and> pending_ok w \<and> sessions_entitled w \<and> queues_ok w"

lemmas worker_invariants = counts_ok_def pending_ok_def sessions_entitled_def queues_ok_def

text \<open>The invariant looks at the admission state only.\<close>

definition same_admission :: "worker \<Rightarrow> worker \<Rightarrow> bool" where
  "same_admission w w' \<longleftrightarrow> w_config w' = w_config w \<and> w_clients w' = w_clients w \<and> w_sessions w' = w_sessions w
     \<and> w_pending w' = w_pending w \<and> w_reservations w' = w_reservations w"

lemma resolve_client_cong: "w_config w' = w_config w \<Longrightarrow> resolve_client w' = resolve_client w"
  unfolding resolve_client_def by (erule subst) (rule refl)

lemma entitled_cong: "w_config w' = w_config w \<Longrightarrow> w_clients w' = w_clients w \<Longrightarrow> entitled w' = entitled w"
  by (intro ext) (simp add: entitled_def resolve_client_cong [of w' w])

lemma same_admission_ok: "same_admission w w' \<Longrightarrow> worker_ok w \<Longrightarrow> worker_ok w'"
  using entitled_cong [of w' w]
  by (simp add: same_admission_def worker_ok_def worker_invariants reserved_def pending_of_def sessions_of_def max_sessions_of_def)

lemma same_admission_trans [trans]: "same_admission a b \<Longrightarrow> same_admission b c \<Longrightarrow> same_admission a c"
  by (simp add: same_admission_def)

lemma same_admission_simps [simp]:
  "same_admission w (snd (emit e w))" "same_admission w (native_close socket w)" "same_admission w (fail_run reason w)"
  "same_admission w w"
  by (simp_all add: same_admission_def emit_def native_close_def fail_run_def)

lemma same_admission_rejected [simp]: "same_admission w (emit_rejected now x reason w)"
  by (simp add: emit_rejected_def)

lemma same_admission_attempt [simp]: "same_admission w (snd (allow_connection_attempt ip now w))"
  by (simp add: allow_connection_attempt_def same_admission_def split: prod.split)

subsection \<open>The operations keep it\<close>

lemma reserved_put:
  "reserved (w\<lparr>w_reservations := put c n (w_reservations w), w_pending := m, w_timers := t\<rparr>) d
    = (if d = c then n else reserved w d)"
  by (simp add: reserved_def)

lemma reserve_ok:
  assumes "worker_ok w" "reserve key p acl w = (r, w')" "get (w_clients w) (pa_client p) = Some acl"
    and "key = attempt_key (pa_ip p) (pa_port p) (pa_stream p)" "plain_ip (pa_ip p)"
    and "entitled w (pa_client p) (pa_ip p) (pa_stream p)"
  shows "worker_ok w'"
proof (cases "\<exists>s. r = Reserved s")
  case False
  then have "w' = w" using assms(2) by (auto simp: reserve_def split: option.splits if_splits)
  then show ?thesis using assms(1) by simp
next
  case True
  let ?c = "pa_client p"
  have new: "get (w_pending w) key = None"
    and room: "reserved w ?c + int (sessions_of w ?c) < wc_max_sessions (acl_config acl)"
      "int (length (w_sessions w) + length (w_pending w)) < r_max_clients (wcfg_relay (w_config w))"
    and w': "w' = w\<lparr>w_pending := put key p (w_pending w),
      w_reservations := put ?c (reserved w ?c + 1) (w_reservations w), w_timers := w_timers w @ [key]\<rparr>"
    using assms(2) True by (auto simp: reserve_def split: option.splits if_splits)
  have ok: "counts_ok w" using assms(1) by (simp add: worker_ok_def)
  have pend: "pending_of w' c = pending_of w c + of_bool (?c = c)" for c
    using filter_put_new [OF new, of "\<lambda>(_, p). pa_client p = c" p] by (simp add: pending_of_def w')
  have len: "length (w_pending w') = length (w_pending w) + 1"
    using new by (simp add: w' length_put has_key_def)
  have res: "reserved w' c = reserved w c + of_bool (?c = c)" for c
    by (simp add: w' reserved_def)
  have sess: "sessions_of w' = sessions_of w" "max_sessions_of w' = max_sessions_of w"
    by (simp_all add: w' sessions_of_def max_sessions_of_def fun_eq_iff)
  have "int (pending_of w' c + sessions_of w' c) \<le> max_sessions_of w' c" for c
  proof (cases "c = ?c")
    case True
    then show ?thesis using ok room(1) by (simp add: counts_ok_def pend sess max_sessions_of_def assms(3))
  next
    case False
    then show ?thesis using ok by (simp add: counts_ok_def pend sess)
  qed
  moreover have "map_ok (w_pending w')" "map_ok (w_sessions w')" "w_config w' = w_config w" "w_sessions w' = w_sessions w"
    using ok by (simp_all add: counts_ok_def w')
  moreover have "reserved w' c = int (pending_of w' c)" for c
    using ok by (simp add: counts_ok_def res pend)
  ultimately have "counts_ok w'"
    using room(2) by (simp add: counts_ok_def len)
  moreover have "entitled w' = entitled w" by (rule entitled_cong) (simp_all add: w')
  then have "pending_ok w'" "sessions_entitled w'" "queues_ok w'"
    using assms(1,4,5,6) by (auto simp: worker_ok_def worker_invariants w')
  ultimately show ?thesis by (simp add: worker_ok_def)
qed

lemma release_counts:
  assumes "counts_ok w" "get (w_pending w) key = Some p"
  shows "reserved (release key p w) c = int (pending_of (release key p w) c)"
    and "pending_of w c = pending_of (release key p w) c + of_bool (pa_client p = c)"
    and "length (w_pending w) = length (w_pending (release key p w)) + 1"
proof -
  have m: "map_ok (w_pending w)" using assms(1) by (simp add: counts_ok_def)
  show p: "pending_of w c = pending_of (release key p w) c + of_bool (pa_client p = c)" for c
    using filter_del [OF m assms(2), of "\<lambda>(_, p). pa_client p = c"] by (simp add: pending_of_def release_def)
  show "length (w_pending w) = length (w_pending (release key p w)) + 1"
    using filter_del [OF m assms(2), of "\<lambda>_. True"] by (simp add: release_def)
  show "reserved (release key p w) c = int (pending_of (release key p w) c)"
    using assms(1) p [of c] by (auto simp: counts_ok_def release_def reserved_def split: if_splits)
qed

lemma release_keeps [simp]:
  "w_config (release key p w) = w_config w" "w_clients (release key p w) = w_clients w"
  "w_sessions (release key p w) = w_sessions w" "sessions_of (release key p w) = sessions_of w"
  "max_sessions_of (release key p w) = max_sessions_of w"
  by (simp_all add: release_def sessions_of_def max_sessions_of_def fun_eq_iff)

lemma release_entitled [simp]: "entitled (release key p w) = entitled w"
  by (rule entitled_cong) simp_all

lemma release_ok: "worker_ok w \<Longrightarrow> get (w_pending w) key = Some p \<Longrightarrow> worker_ok (release key p w)"
proof -
  assume ok: "worker_ok w" and g: "get (w_pending w) key = Some p"
  note c = release_counts [OF _ g]
  have k: "counts_ok w" using ok by (simp add: worker_ok_def)
  have "int (pending_of (release key p w) d + sessions_of w d) \<le> max_sessions_of w d" for d
  proof -
    have "int (pending_of w d + sessions_of w d) \<le> max_sessions_of w d"
      using k unfolding counts_ok_def by blast
    moreover have "pending_of (release key p w) d \<le> pending_of w d"
      using c(2) [OF k, of d] by simp
    ultimately show ?thesis by linarith
  qed
  moreover have "map_ok (w_pending (release key p w))" using k by (simp add: counts_ok_def release_def)
  ultimately have "counts_ok (release key p w)"
    using k c(1,3) [OF k] by (simp add: counts_ok_def)
  moreover have "pending_ok (release key p w)"
    using ok by (auto simp: worker_ok_def pending_ok_def) (auto simp: release_def split: if_splits)
  ultimately show ?thesis using ok by (simp add: worker_ok_def sessions_entitled_def queues_ok_def)
qed

lemma expire_ok: "worker_ok w \<Longrightarrow> worker_ok (expire_attempt now key w)"
  by (auto simp: expire_attempt_def intro: same_admission_ok [OF same_admission_rejected] release_ok split: option.split)

text \<open>
  Changing the sessions only: none may be added, their data may not change, and the queues
  stay within their size.
\<close>

lemma sessions_changed_ok:
  assumes "worker_ok w" "w_config w' = w_config w" "w_clients w' = w_clients w" "w_pending w' = w_pending w"
    "w_reservations w' = w_reservations w" "map_ok (w_sessions w')"
    "length (w_sessions w') \<le> length (w_sessions w)" "\<And>c. sessions_of w' c \<le> sessions_of w c"
    "\<And>i s'. get (w_sessions w') i = Some s' \<Longrightarrow> \<exists>s. get (w_sessions w) i = Some s
        \<and> s_id (cs_data s') = s_id (cs_data s) \<and> s_client_id (cs_data s') = s_client_id (cs_data s)
        \<and> s_remote_ip (cs_data s') = s_remote_ip (cs_data s) \<and> s_stream_id (cs_data s') = s_stream_id (cs_data s)
        \<and> (length (cs_queue s) \<le> session_queue_size \<longrightarrow> length (cs_queue s') \<le> session_queue_size)"
  shows "worker_ok w'"
proof -
  note e = entitled_cong [OF assms(2,3)]
  have k: "counts_ok w" using assms(1) by (simp add: worker_ok_def)
  have "int (pending_of w' c + sessions_of w' c) \<le> max_sessions_of w' c" for c
  proof -
    have "int (pending_of w c + sessions_of w c) \<le> max_sessions_of w c" using k unfolding counts_ok_def by blast
    then show ?thesis using assms(8) [of c] by (simp add: pending_of_def max_sessions_of_def assms(3,4))
  qed
  moreover have "reserved w' c = int (pending_of w' c)" for c
    using k by (simp add: counts_ok_def reserved_def pending_of_def assms(4,5))
  ultimately have "counts_ok w'"
    using k assms(2,4,6,7) by (simp add: counts_ok_def)
  moreover have "pending_ok w'"
    using assms(1) by (simp add: worker_ok_def pending_ok_def assms(4) e)
  moreover have "sessions_entitled w'"
    unfolding sessions_entitled_def e
  proof (intro allI impI)
    fix i s' assume "get (w_sessions w') i = Some s'"
    then obtain s where "get (w_sessions w) i = Some s" "s_id (cs_data s') = s_id (cs_data s)"
      "s_client_id (cs_data s') = s_client_id (cs_data s)" "s_remote_ip (cs_data s') = s_remote_ip (cs_data s)"
      "s_stream_id (cs_data s') = s_stream_id (cs_data s)"
      using assms(9) by blast
    then show "s_id (cs_data s') = i \<and> entitled w (s_client_id (cs_data s')) (s_remote_ip (cs_data s')) (s_stream_id (cs_data s'))"
      using assms(1) by (simp add: worker_ok_def sessions_entitled_def)
  qed
  moreover have "queues_ok w'"
    using assms(1,9) unfolding worker_ok_def queues_ok_def by blast
  ultimately show ?thesis by (simp add: worker_ok_def)
qed

lemma enqueue_data [simp]: "cs_data (enqueue packet s) = cs_data s"
  by (simp add: enqueue_def)

lemma enqueue_length: "length (cs_queue s) \<le> session_queue_size \<Longrightarrow> length (cs_queue (enqueue packet s)) \<le> session_queue_size"
  by (simp add: enqueue_def)

lemma broadcast_ok:
  assumes "worker_ok w" shows "worker_ok (broadcast packet w)"
proof (rule sessions_changed_ok [OF assms])
  show "map_ok (w_sessions (broadcast packet w))"
    using assms by (simp add: broadcast_def worker_ok_def counts_ok_def)
qed (auto simp: broadcast_def sessions_of_def comp_def case_prod_unfold
    get_map_values [unfolded case_prod_unfold] enqueue_length)

text \<open>Replacing one session by one with the same identity.\<close>

lemma put_session_ok:
  assumes "worker_ok w" "get (w_sessions w) i = Some s"
    "s_id (cs_data s') = s_id (cs_data s)" "s_client_id (cs_data s') = s_client_id (cs_data s)"
    "s_remote_ip (cs_data s') = s_remote_ip (cs_data s)" "s_stream_id (cs_data s') = s_stream_id (cs_data s)"
    "length (cs_queue s') \<le> length (cs_queue s)"
  shows "worker_ok (w\<lparr>w_sessions := put i s' (w_sessions w)\<rparr>)"
proof (rule sessions_changed_ok [OF assms(1)])
  have m: "map_ok (w_sessions w)" using assms(1) by (simp add: worker_ok_def counts_ok_def)
  then show "map_ok (w_sessions (w\<lparr>w_sessions := put i s' (w_sessions w)\<rparr>))" by simp
  show "length (w_sessions (w\<lparr>w_sessions := put i s' (w_sessions w)\<rparr>)) \<le> length (w_sessions w)"
    using assms(2) by (simp add: length_put has_key_def)
  show "sessions_of (w\<lparr>w_sessions := put i s' (w_sessions w)\<rparr>) c \<le> sessions_of w c" for c
    using filter_put_old [OF assms(2), of "\<lambda>(_, s). s_client_id (cs_data s) = c" s'] assms(4)
    by (simp add: sessions_of_def)
qed (use assms in \<open>auto split: if_splits\<close>)

lemma del_session_ok:
  assumes "worker_ok w" shows "worker_ok (w\<lparr>w_sessions := del i (w_sessions w)\<rparr>)"
proof (rule sessions_changed_ok [OF assms])
  show "map_ok (w_sessions (w\<lparr>w_sessions := del i (w_sessions w)\<rparr>))"
    using assms by (simp add: worker_ok_def counts_ok_def)
qed (auto simp: length_del_le sessions_of_def filter_del_le split: if_splits)

lemma close_session_ok: "worker_ok w \<Longrightarrow> worker_ok (close_session now i reason w)"
proof (cases "get (w_sessions w) i")
  case (Some s)
  assume ok: "worker_ok w"
  let ?v = "(native_close (cs_socket s) w)\<lparr>w_sessions := del i (w_sessions w)\<rparr>"
  have "worker_ok ((native_close (cs_socket s) w)\<lparr>w_sessions := del i (w_sessions (native_close (cs_socket s) w))\<rparr>)"
    using ok by (intro del_session_ok same_admission_ok [OF same_admission_simps(2)])
  then have v: "worker_ok ?v" by (simp add: native_close_def)
  show ?thesis
    using same_admission_ok [OF same_admission_simps(1) v]
    by (simp add: close_session_def Some Let_def same_admission_ok [OF same_admission_simps(3)])
qed (simp add: close_session_def)

lemma fold_worker_ok: "(\<And>x w. worker_ok w \<Longrightarrow> worker_ok (f x w)) \<Longrightarrow> worker_ok w \<Longrightarrow> worker_ok (fold f xs w)"
  by (induction xs arbitrary: w) auto

lemma close_all_ok: "worker_ok w \<Longrightarrow> worker_ok (close_all_sessions now reason w)"
  by (simp add: close_all_sessions_def fold_worker_ok close_session_ok)

lemma send_one_ok: "worker_ok w \<Longrightarrow> worker_ok (send_one now i outcome w)"
  by (auto simp: send_one_def Let_def intro!: close_session_ok put_session_ok split: option.splits list.splits)

lemma measure_ok: "worker_ok (snd acc) \<Longrightarrow> worker_ok (snd (measure_session now native i acc))"
  by (cases acc) (auto simp: measure_session_def Let_def
      intro!: same_admission_ok [OF same_admission_simps(1)] put_session_ok split: option.splits)

lemma metrics_ok: "worker_ok w \<Longrightarrow> worker_ok (snd (metrics_tick now native previous w))"
proof -
  assume ok: "worker_ok w"
  have "worker_ok (snd acc) \<Longrightarrow> worker_ok (snd (fold (measure_session now native) ids acc))" for ids acc
    by (induction ids arbitrary: acc) (simp_all add: measure_ok)
  from this [of "(0, w)" "keys (w_sessions w)"] ok show ?thesis
    by (simp add: metrics_tick_def Let_def case_prod_unfold same_admission_ok [OF same_admission_simps(1)])
qed

lemma add_session_ok:
  assumes "worker_ok w" "int (length (w_sessions w) + length (w_pending w)) < max 0 (r_max_clients (wcfg_relay (w_config w)))"
    and "int (pending_of w c + sessions_of w c) < max_sessions_of w c" "s_client_id x = c"
    and "entitled w c (s_remote_ip x) (s_stream_id x)"
  shows "worker_ok (add_session now fatal socket x w)"
proof -
  let ?s = "\<lparr>cs_socket = socket, cs_queue = [], cs_data = x, cs_drop_burst = 0, cs_app_drops = 0, cs_fatal = fatal\<rparr>"
  let ?v = "w\<lparr>w_sessions := put (s_id x) ?s (w_sessions w)\<rparr>"
  have k: "counts_ok w" using assms(1) by (simp add: worker_ok_def)
  have e: "entitled ?v = entitled w" by (rule entitled_cong) simp_all
  have sess: "sessions_of ?v d \<le> sessions_of w d + of_bool (c = d)" for d
    using filter_put_le [of "\<lambda>(_, s). s_client_id (cs_data s) = d" "s_id x" ?s "w_sessions w"] assms(4)
    by (simp add: sessions_of_def)
  have keep: "pending_of ?v = pending_of w" "max_sessions_of ?v = max_sessions_of w" "reserved ?v = reserved w"
    by (simp_all add: pending_of_def max_sessions_of_def reserved_def fun_eq_iff)
  have "int (pending_of w d + sessions_of ?v d) \<le> max_sessions_of w d" for d
  proof (cases "c = d")
    case True
    then show ?thesis using sess [of d] assms(3) by simp
  next
    case False
    have "int (pending_of w d + sessions_of w d) \<le> max_sessions_of w d" using k unfolding counts_ok_def by blast
    then show ?thesis using sess [of d] False by simp
  qed
  moreover have "length (put (s_id x) ?s (w_sessions w)) \<le> length (w_sessions w) + 1"
    by (simp add: length_put)
  ultimately have "counts_ok ?v"
    using k assms(2) by (simp add: counts_ok_def keep)
  moreover have "pending_ok ?v" "sessions_entitled ?v" "queues_ok ?v"
    using assms(1,4,5) by (simp_all add: worker_ok_def pending_ok_def sessions_entitled_def queues_ok_def e)
  ultimately have "worker_ok ?v" by (simp add: worker_ok_def)
  then show ?thesis unfolding add_session_def by (rule same_admission_ok [OF same_admission_simps(1)])
qed

lemma accept_ok:
  assumes "worker_ok w" "plain_ip (ac_ip a)"
  shows "worker_ok (accept_one now random a w)"
proof (cases "get (w_pending w) (attempt_key (ac_ip a) (ac_port a) (ac_stream a))")
  case None
  then show ?thesis
    using assms(1) by (simp add: accept_one_def Let_def same_admission_ok [OF same_admission_rejected]
        same_admission_ok [OF same_admission_simps(2)])
next
  case (Some p)
  let ?key = "attempt_key (ac_ip a) (ac_port a) (ac_stream a)"
  have k: "counts_ok w" using assms(1) by (simp add: worker_ok_def)
  note c = release_counts [OF k Some]
  have rel: "worker_ok (release ?key p w)" by (rule release_ok [OF assms(1) Some])
  have p: "?key = attempt_key (pa_ip p) (pa_port p) (pa_stream p)" "plain_ip (pa_ip p)"
    "entitled w (pa_client p) (pa_ip p) (pa_stream p)"
    using assms(1) Some by (auto simp: worker_ok_def pending_ok_def)
  have same: "ac_ip a = pa_ip p" "ac_stream a = pa_stream p"
    using attempt_key_inject [OF p(1) assms(2) p(2)] by simp_all
  show ?thesis
  proof (cases "random_session_id random")
    case None
    then show ?thesis using rel by (simp add: accept_one_def Let_def Some same_admission_ok [OF same_admission_simps(2)])
  next
    case r: (Some i)
    have "int (pending_of w (pa_client p) + sessions_of w (pa_client p)) \<le> max_sessions_of w (pa_client p)"
      using k unfolding counts_ok_def by blast
    then have "worker_ok (add_session now False (ac_socket a)
        (new_session now i (r_id (wcfg_relay (w_config w))) (pa_client p) a) (release ?key p w))"
      using k c(2) [of "pa_client p"] c(3) p(3)
      by (intro add_session_ok [OF rel, where c = "pa_client p"]) (simp_all add: counts_ok_def new_session_def same)
    then show ?thesis by (simp add: accept_one_def Let_def Some r)
  qed
qed

lemma run_end_ok: "worker_ok w \<Longrightarrow> worker_ok (snd (run_end now stop late socket w))"
proof -
  assume ok: "worker_ok w"
  have "same_admission w (native_close socket (w\<lparr>w_stopping := True\<rparr>))"
    by (simp add: same_admission_def native_close_def)
  then have closed: "worker_ok (close_all_sessions now ''relay stopped'' (native_close socket (w\<lparr>w_stopping := True\<rparr>)))" (is "worker_ok ?w")
    using ok by (intro close_all_ok) (rule same_admission_ok)
  let ?v = "?w\<lparr>w_pending := [], w_reservations := []\<rparr>"
  have e: "entitled ?v = entitled ?w" by (rule entitled_cong) simp_all
  have k: "counts_ok ?w" using closed by (simp add: worker_ok_def)
  have "int (sessions_of ?w c) \<le> max_sessions_of ?w c" for c
  proof -
    have "int (pending_of ?w c + sessions_of ?w c) \<le> max_sessions_of ?w c" using k unfolding counts_ok_def by blast
    then show ?thesis by simp
  qed
  then have "counts_ok ?v"
    using k by (simp add: counts_ok_def reserved_def pending_of_def sessions_of_def max_sessions_of_def)
  then have "worker_ok ?v"
    using closed by (simp add: worker_ok_def pending_ok_def sessions_entitled_def queues_ok_def e)
  then show ?thesis by (simp add: run_end_def Let_def)
qed

end
