(* ===== verification/SrtWorkerProps.thy ===== *)
theory SrtWorkerProps
  imports SrtWorkerLaws
begin

text \<open>
  Properties of the SRT worker: limits and entitlement of admissions, the rate limit, the
  event stream as a mirror of the sessions, slow receivers, and the cutting of the input.
\<close>

subsection \<open>Steps\<close>

text \<open>
  The worker and the events its writer has already written. A step is a critical section of
  one of the goroutines, or the writer taking the first event from the channel.
\<close>

record worker_system =
  sw_worker :: worker
  sw_written :: "worker_event list"

definition session_types :: "string list" where
  "session_types = [''session_connected'', ''session_disconnected'']"

inductive worker_change :: "worker \<Rightarrow> worker \<Rightarrow> bool" where
  counts: "worker_change w (snd (allow_connection_attempt ip now w))"
| emits: "we_type e \<notin> set session_types \<Longrightarrow> worker_change w (snd (emit e w))"
| reserves: "plain_ip ip \<Longrightarrow> resolve_client w stream = Inr c \<Longrightarrow> get (w_clients w) c = Some acl
    \<Longrightarrow> parse_ip ip = Some addr \<Longrightarrow> ip_allowed addr (acl_networks acl)
    \<Longrightarrow> worker_change w (snd (reserve (attempt_key ip port stream)
          \<lparr>pa_client = c, pa_ip = ip, pa_port = port, pa_stream = stream\<rparr> acl w))"
| expires: "key \<in> set (w_timers w)
    \<Longrightarrow> worker_change w (expire_attempt now key (w\<lparr>w_timers := remove1 key (w_timers w)\<rparr>))"
| accepts: "plain_ip (ac_ip a) \<Longrightarrow> worker_change w (accept_one now random a w)"
| closes: "worker_change w (close_session now i reason w)"
| broadcasts: "worker_change w (broadcast packet w)"
| sends: "worker_change w (send_one now i outcome w)"
| reads: "worker_change w (fst (count_input now data t w))"
| measures: "worker_change w (snd (metrics_tick now native previous w))"
| fails: "worker_change w (fail_run reason w)"
| ends: "worker_change w (snd (run_end now stop late socket w))"

inductive worker_step :: "worker_system \<Rightarrow> worker_system \<Rightarrow> bool" where
  changes: "worker_change (sw_worker y) w \<Longrightarrow> worker_step y (y\<lparr>sw_worker := w\<rparr>)"
| writes: "w_events (sw_worker y) = e # es
    \<Longrightarrow> worker_step y (y\<lparr>sw_worker := (sw_worker y)\<lparr>w_events := es\<rparr>, sw_written := sw_written y @ [e]\<rparr>)"

inductive_simps worker_step_iff: "worker_step y z"

inductive worker_reachable :: "worker_config \<Rightarrow> worker_system \<Rightarrow> bool" for config where
  starts: "new_worker now config = Inr w \<Longrightarrow> worker_reachable config \<lparr>sw_worker = w, sw_written = []\<rparr>"
| steps: "worker_reachable config y \<Longrightarrow> worker_step y z \<Longrightarrow> worker_reachable config z"

text \<open>A call of \<open>authorize\<close> is a sequence of such steps.\<close>

lemma admit_changes: "plain_ip ip \<Longrightarrow> worker_change\<^sup>*\<^sup>* w (snd (admit now ip port stream w))"
proof -
  assume ip: "plain_ip ip"
  have rej: "worker_change\<^sup>*\<^sup>* v (emit_rejected now x reason v)" for v x reason
    unfolding emit_rejected_def by (intro r_into_rtranclp emits) (simp add: session_event_def session_types_def zero_worker_event_def)
  have res: "worker_change\<^sup>*\<^sup>* w (snd (reserve (attempt_key ip port stream)
      \<lparr>pa_client = c, pa_ip = ip, pa_port = port, pa_stream = stream\<rparr> acl w))"
    if "resolve_client w stream = Inr c" "get (w_clients w) c = Some acl" "parse_ip ip = Some addr"
      "ip_allowed addr (acl_networks acl)" for c acl addr
    using that ip by (intro r_into_rtranclp reserves)
  show ?thesis
  proof (cases "\<exists>c acl addr. resolve_client w stream = Inr c \<and> get (w_clients w) c = Some acl
      \<and> parse_ip ip = Some addr \<and> ip_allowed addr (acl_networks acl)")
    case False
    then show ?thesis by (auto simp: admit_def rej split: sum.split option.split)
  next
    case True
    then obtain c acl addr where c: "resolve_client w stream = Inr c" "get (w_clients w) c = Some acl"
      "parse_ip ip = Some addr" "ip_allowed addr (acl_networks acl)" by blast
    obtain r v where v: "reserve (attempt_key ip port stream)
      \<lparr>pa_client = c, pa_ip = ip, pa_port = port, pa_stream = stream\<rparr> acl w = (r, v)" by fastforce
    have "worker_change\<^sup>*\<^sup>* w v" using res [OF c] v by simp
    then show ?thesis
      using rtranclp_trans [OF _ rej] by (cases r) (simp_all add: admit_def c v)
  qed
qed

lemma authorize_changes: "plain_ip ip \<Longrightarrow> worker_change\<^sup>*\<^sup>* w (snd (authorize now ip port stream w))"
proof -
  assume ip: "plain_ip ip"
  have a: "worker_change w (snd (allow_connection_attempt ip now w))" by (rule counts)
  have e: "worker_change v (snd (emit (session_event type now reason x) v))" if "type \<notin> set session_types" for type reason x v
    using that by (intro emits) (simp add: session_event_def)
  have t: "''connection_attempt'' \<notin> set session_types" "''connection_rejected'' \<notin> set session_types"
    by (simp_all add: session_types_def)
  have attempted: "worker_change\<^sup>*\<^sup>* v (snd (admit now ip port stream
      (snd (emit (session_event ''connection_attempt'' now [] x) v))))" for v x
    by (rule converse_rtranclp_into_rtranclp [OF e [OF t(1)] admit_changes [OF ip]])
  have rejected: "worker_change\<^sup>*\<^sup>* v (emit_rejected now x reason v)" for v x reason
    unfolding emit_rejected_def by (rule r_into_rtranclp) (rule e [OF t(2)])
  show ?thesis
    using a by (auto simp: authorize_def split: option.split prod.split bool.split
        intro: converse_rtranclp_into_rtranclp [OF _ attempted] converse_rtranclp_into_rtranclp [OF _ rejected])
qed

subsection \<open>Admission\<close>

lemma new_worker_fresh:
  assumes "new_worker now config = Inr w"
  shows "w_sessions w = []" "w_pending w = []" "w_reservations w = []" "w_events w = []" "w_attempts w = []" "w_timers w = []"
  using assms by (auto simp: new_worker_def Let_def and_then_Inr split: if_splits)

lemma worker_change_ok: "worker_change w w' \<Longrightarrow> worker_ok w \<Longrightarrow> worker_ok w'"
proof (induction rule: worker_change.induct)
  case (reserves ip w stream c acl addr port)
  then show ?case
    by (intro reserve_ok [OF _ prod.collapse [symmetric]]) (auto simp: entitled_def)
next
  case (expires key w now)
  have "same_admission w (w\<lparr>w_timers := remove1 key (w_timers w)\<rparr>)" by (simp add: same_admission_def)
  then show ?case using expires.prems by (intro expire_ok) (rule same_admission_ok)
next
  case (reads w now data t)
  have "same_admission w (fst (count_input now data t w))"
    by (simp add: same_admission_def count_input_def split: prod.split)
  then show ?case using reads.prems by (rule same_admission_ok)
qed (auto intro: same_admission_ok [OF same_admission_attempt] same_admission_ok [OF same_admission_simps(1)]
    same_admission_ok [OF same_admission_simps(3)] accept_ok close_session_ok broadcast_ok send_one_ok metrics_ok run_end_ok)

lemma worker_reachable_ok: "worker_reachable config y \<Longrightarrow> worker_ok (sw_worker y)"
proof (induction rule: worker_reachable.induct)
  case (starts now w)
  note n = new_worker_fresh [OF starts]
  have "reserved w c = 0" "pending_of w c = 0" "sessions_of w c = 0" "0 \<le> max_sessions_of w c" for c
    by (auto simp: reserved_def pending_of_def sessions_of_def max_sessions_of_def n split: option.split)
  then show ?case
    by (simp add: worker_ok_def worker_invariants n)
next
  case (steps y z)
  from steps.hyps(2) show ?case
  proof cases
    case (changes w)
    then show ?thesis using worker_change_ok steps.IH by simp
  next
    case (writes e es)
    have "same_admission (sw_worker y) ((sw_worker y)\<lparr>w_events := es\<rparr>)" by (simp add: same_admission_def)
    then show ?thesis using steps.IH writes by (simp add: same_admission_ok)
  qed
qed

text \<open>
  C21: Whatever the interleaving of handshakes, timeouts, accepts and disconnects, a listener
  never has more sessions and pending handshakes together than the relay allows, no client
  has more than its own limit, and the reservations are exactly the pending handshakes.
\<close>

theorem session_limits_hold:
  assumes "worker_reachable config y"
  shows "let w = sw_worker y in
      int (length (w_sessions w) + length (w_pending w)) \<le> max 0 (r_max_clients (wcfg_relay (w_config w)))
    \<and> (\<forall>c acl. get (w_clients w) c = Some acl \<longrightarrow>
        int (pending_of w c + sessions_of w c) \<le> max 0 (wc_max_sessions (acl_config acl)))
    \<and> (\<forall>c. reserved w c = int (pending_of w c))"
proof -
  have k: "counts_ok (sw_worker y)" using worker_reachable_ok [OF assms] by (simp add: worker_ok_def)
  have "int (pending_of (sw_worker y) c + sessions_of (sw_worker y) c) \<le> max 0 (wc_max_sessions (acl_config acl))"
    if "get (w_clients (sw_worker y)) c = Some acl" for c acl
  proof -
    have "int (pending_of (sw_worker y) c + sessions_of (sw_worker y) c) \<le> max_sessions_of (sw_worker y) c"
      using k unfolding counts_ok_def by blast
    then show ?thesis using that by (simp add: max_sessions_of_def)
  qed
  then show ?thesis using k unfolding counts_ok_def Let_def by blast
qed

lemma admit_granted:
  assumes "admit now ip port stream w = ((secret, 0), w')"
  obtains c acl addr r where "resolve_client w stream = Inr c" "get (w_clients w) c = Some acl" "parse_ip ip = Some addr"
    "ip_allowed addr (acl_networks acl)" "r = Reserved secret \<or> r = AlreadyPending secret"
    "reserve (attempt_key ip port stream) \<lparr>pa_client = c, pa_ip = ip, pa_port = port, pa_stream = stream\<rparr> acl w = (r, w')"
proof (cases "resolve_client w stream")
  case c: (Inr c)
  show ?thesis
  proof (cases "get (w_clients w) c")
    case acl: (Some acl)
    show ?thesis
    proof (cases "parse_ip ip")
      case addr: (Some addr)
      obtain r v where v: "reserve (attempt_key ip port stream)
        \<lparr>pa_client = c, pa_ip = ip, pa_port = port, pa_stream = stream\<rparr> acl w = (r, v)" by fastforce
      have "ip_allowed addr (acl_networks acl)"
        using assms by (simp add: admit_def c acl addr split: if_splits)
      moreover from this have "v = w' \<and> (r = Reserved secret \<or> r = AlreadyPending secret)"
        using assms by (cases r) (simp_all add: admit_def c acl addr v)
      ultimately show ?thesis using that [OF c acl addr] v by blast
    qed (use assms in \<open>simp add: admit_def c acl\<close>)
  qed (use assms in \<open>simp add: admit_def c\<close>)
qed (use assms in \<open>simp add: admit_def\<close>)

lemma pending_entitled:
  assumes "worker_ok w" "plain_ip ip" "get (w_pending w) (attempt_key ip port stream) = Some p"
  shows "entitled w (pa_client p) ip stream"
proof -
  have "attempt_key ip port stream = attempt_key (pa_ip p) (pa_port p) (pa_stream p)" "plain_ip (pa_ip p)"
    "entitled w (pa_client p) (pa_ip p) (pa_stream p)"
    using assms(1,3) by (auto simp: worker_ok_def pending_ok_def)
  moreover from this have "ip = pa_ip p" "stream = pa_stream p"
    using attempt_key_inject [OF _ assms(2)] by blast+
  ultimately show ?thesis by simp
qed

lemma authorize_admits:
  assumes "authorize now ip port stream w = ((secret, 0), w')" "pending_secret (attempt_key ip port stream) w = None"
  obtains v where "same_admission w v" "admit now ip port stream v = ((secret, 0), w')"
proof -
  obtain report v where v: "allow_connection_attempt ip now w = ((True, report), v)"
    using assms by (auto simp: authorize_def split: prod.splits bool.splits)
  then have "same_admission w (snd (emit (session_event ''connection_attempt'' now [] (caller [] port ip stream)) v))"
    using same_admission_attempt [of w ip now] by (auto intro: same_admission_trans)
  then show ?thesis using that assms v by (simp add: authorize_def)
qed

lemma granted_entitled:
  assumes ok: "worker_ok w" and ip: "plain_ip ip" and granted: "authorize now ip port stream w = ((secret, 0), w')"
  shows "\<exists>c acl addr. resolve_client w stream = Inr c \<and> get (w_clients w) c = Some acl
      \<and> parse_ip ip = Some addr \<and> ip_allowed addr (acl_networks acl) \<and> secret = wc_passphrase (acl_config acl)"
proof (cases "pending_secret (attempt_key ip port stream) w")
  case (Some s)
  then show ?thesis
    using granted pending_entitled [OF ok ip, of port stream]
    by (fastforce simp: authorize_def pending_secret_def entitled_def split: option.splits)
next
  case None
  obtain v where same: "same_admission w v" and ad: "admit now ip port stream v = ((secret, 0), w')"
    using authorize_admits [OF granted None] by blast
  then have cfg: "w_config v = w_config w" and cl: "w_clients v = w_clients w" and pe: "w_pending v = w_pending w"
    by (simp_all add: same_admission_def)
  from ad obtain c acl addr res where c': "resolve_client v stream = Inr c" "get (w_clients v) c = Some acl"
    "parse_ip ip = Some addr" "ip_allowed addr (acl_networks acl)" "res = Reserved secret \<or> res = AlreadyPending secret"
    "reserve (attempt_key ip port stream) \<lparr>pa_client = c, pa_ip = ip, pa_port = port, pa_stream = stream\<rparr> acl v = (res, w')"
    by (rule admit_granted)
  note c = c'(1,2) [unfolded resolve_client_cong [OF cfg] cl] c'(3-)
  have "get (w_pending w) (attempt_key ip port stream) = None"
    using None pending_entitled [OF ok ip, of port stream] by (auto simp: pending_secret_def entitled_def split: option.splits)
  then have "secret = wc_passphrase (acl_config acl)"
    using c(5,6) by (auto simp: reserve_def pe split: if_splits)
  then show ?thesis using c by blast
qed

text \<open>
  C22: A passphrase is only handed out, and a session only exists, for a caller whose Stream ID
  stands for a client of this relay (the one it names, or the default of a compatibility
  relay when it is missing) and whose address lies in one of that client's networks.
\<close>

theorem only_entitled_callers_admitted:
  assumes "worker_reachable config y" and "plain_ip ip"
    and "authorize now ip port stream (sw_worker y) = ((secret, 0), w')"
  shows "(\<exists>c acl addr. resolve_client (sw_worker y) stream = Inr c \<and> get (w_clients (sw_worker y)) c = Some acl
      \<and> parse_ip ip = Some addr \<and> ip_allowed addr (acl_networks acl) \<and> secret = wc_passphrase (acl_config acl))
    \<and> (\<forall>i s. get (w_sessions (sw_worker y)) i = Some s \<longrightarrow>
        entitled (sw_worker y) (s_client_id (cs_data s)) (s_remote_ip (cs_data s)) (s_stream_id (cs_data s)))"
proof
  let ?w = "sw_worker y"
  have ok: "worker_ok ?w" by (rule worker_reachable_ok [OF assms(1)])
  then show "\<forall>i s. get (w_sessions ?w) i = Some s \<longrightarrow>
      entitled ?w (s_client_id (cs_data s)) (s_remote_ip (cs_data s)) (s_stream_id (cs_data s))"
    by (simp add: worker_ok_def sessions_entitled_def)
  show "\<exists>c acl addr. resolve_client ?w stream = Inr c \<and> get (w_clients ?w) c = Some acl
      \<and> parse_ip ip = Some addr \<and> ip_allowed addr (acl_networks acl) \<and> secret = wc_passphrase (acl_config acl)"
    by (rule granted_entitled [OF ok assms(2,3)])
qed

subsection \<open>The rate limit\<close>

text \<open>
  The attempts of one address, as an instance of the limiter; the clock of the contract is
  past its first minute. A table that is full refuses an unknown address without a record.
\<close>

definition try_attempt :: "string \<Rightarrow> gotime \<Rightarrow> (string, attempt_window) gomap \<Rightarrow> bool \<times> (string, attempt_window) gomap" where
  "try_attempt ip now attempts = (case count_attempt ip now attempts of ((ok, _), attempts') \<Rightarrow> (ok, attempts'))"

lemma get_filter_None: "get m k = None \<Longrightarrow> get (filter P m) k = None"
  by (auto simp: get_def map_of_eq_None_iff)

interpretation connection_limit: attempt_limiter "try_attempt ip" "\<lambda>m. window_tracker m ip" "minute - 1"
    attempts_per_minute "\<lambda>t. minute \<le> nanos t"
  for ip
proof unfold_locales
  fix now m assume t: "minute \<le> nanos now"
  show "window_tracker (snd (try_attempt ip now m)) ip = next_tracker (minute - 1) now (window_tracker m ip)
      \<or> (\<not> fst (try_attempt ip now m) \<and> window_tracker (snd (try_attempt ip now m)) ip = window_tracker m ip)"
    and "fst (try_attempt ip now m) \<Longrightarrow> rt_attempts (next_tracker (minute - 1) now (window_tracker m ip)) \<le> attempts_per_minute"
  proof (atomize (full), cases "get m ip")
    case None
    then show "(window_tracker (snd (try_attempt ip now m)) ip = next_tracker (minute - 1) now (window_tracker m ip)
      \<or> (\<not> fst (try_attempt ip now m) \<and> window_tracker (snd (try_attempt ip now m)) ip = window_tracker m ip))
      \<and> (fst (try_attempt ip now m) \<longrightarrow> rt_attempts (next_tracker (minute - 1) now (window_tracker m ip)) \<le> attempts_per_minute)"
      by (simp add: try_attempt_def count_attempt_def Let_def window_tracker_def next_tracker_def window_over_def
          zero_tracker_def is_zero_def attempts_per_minute_def sweep_attempts_def get_filter_None)
  next
    case (Some window)
    have "is_zero (aw_started window) \<Longrightarrow> minute \<le> time_sub now (aw_started window)"
      using t by (simp add: is_zero_def zero_time_def time_sub_def)
    then show "(window_tracker (snd (try_attempt ip now m)) ip = next_tracker (minute - 1) now (window_tracker m ip)
      \<or> (\<not> fst (try_attempt ip now m) \<and> window_tracker (snd (try_attempt ip now m)) ip = window_tracker m ip))
      \<and> (fst (try_attempt ip now m) \<longrightarrow> rt_attempts (next_tracker (minute - 1) now (window_tracker m ip)) \<le> attempts_per_minute)"
      using Some by (auto simp: try_attempt_def count_attempt_def Let_def window_tracker_def next_tracker_def
          window_over_def attempts_per_minute_def)
  qed
qed (auto simp: is_zero_def zero_time_def minute_def seconds_def attempts_per_minute_def)

lemma count_attempt_nonneg:
  "(\<forall>i v. get m i = Some v \<longrightarrow> 0 \<le> aw_count v) \<Longrightarrow> 0 \<le> rt_attempts (window_tracker m ip)"
  by (simp add: window_tracker_def zero_tracker_def split: option.split)

text \<open>
  C23: A remote address gets at most 120 connection attempts through in any stretch shorter
  than a minute, whatever was recorded before (60 in each of the two windows it can touch),
  and the table of addresses never grows beyond 10,000 entries.
\<close>

theorem attempts_limited:
  assumes "sorted ts" and "\<forall>t \<in> set ts. \<forall>u \<in> set ts. time_sub u t < minute" and "\<forall>t \<in> set ts. minute \<le> nanos t"
    and "\<forall>i v. get attempts i = Some v \<longrightarrow> 0 \<le> aw_count v"
  shows "connection_limit.granted ip ts attempts \<le> 120
    \<and> (length attempts \<le> max_tracked_ips \<longrightarrow> length (snd (count_attempt ip now attempts)) \<le> max_tracked_ips)"
proof
  have "int (connection_limit.granted ip ts attempts) \<le> 2 * attempts_per_minute"
    using assms count_attempt_nonneg [OF assms(4)]
    by (intro connection_limit.granted_burst) (simp_all add: list_all_iff)
  then show "connection_limit.granted ip ts attempts \<le> 120" by (simp add: attempts_per_minute_def)
  have "length (sweep_attempts now attempts) \<le> length attempts"
    by (simp add: sweep_attempts_def)
  then show "length attempts \<le> max_tracked_ips \<longrightarrow> length (snd (count_attempt ip now attempts)) \<le> max_tracked_ips"
    by (auto simp: count_attempt_def Let_def length_put has_key_def simp del: of_nat_le_iff split: option.splits)
qed

subsection \<open>Slow receivers\<close>

lemma broadcast_sessions: "w_sessions (broadcast packet w) = map (\<lambda>(i, s). (i, enqueue packet s)) (w_sessions w)"
  by (simp add: broadcast_def)

lemma get_broadcast: "get (w_sessions (broadcast packet w)) i = map_option (enqueue packet) (get (w_sessions w) i)"
  by (simp add: broadcast_sessions get_map_values)

lemma closing_broadcast:
  "map_ok (w_sessions w) \<Longrightarrow> get (w_sessions w) i = Some s \<Longrightarrow>
    count_list (map fst (w_closing (broadcast packet w))) i = count_list (map fst (w_closing w)) i + of_bool (overrun s)"
proof -
  assume m: "map_ok (w_sessions w)" and g: "get (w_sessions w) i = Some s"
  have "count_list (map fst (map (\<lambda>(i, _). (i, r)) (filter (\<lambda>(_, s). overrun s) es))) i
      = of_bool (case get es i of None \<Rightarrow> False | Some s \<Rightarrow> overrun s)"
    if "map_ok es" for es :: "(string \<times> client_session) list" and r :: string
    using that by (induction es) (auto simp: get_def map_ok_def map_of_eq_None_iff split: option.splits
        dest!: map_of_SomeD intro: rev_image_eqI)
  from this [OF m] show ?thesis by (simp add: broadcast_def g)
qed

text \<open>
  A receiver that does not drain its full queue loses every packet, is marked for closing
  at the 256th packet in a row, once, and not before; one packet delivered in between starts
  the count again.
\<close>

theorem slow_receiver_closed_once:
  fixes packets :: "octets list"
  assumes "worker_reachable config y" and "get (w_sessions (sw_worker y)) i = Some s"
    and "length (cs_queue s) = session_queue_size" and "cs_drop_burst s = 0"
    and "\<forall>e \<in> set (w_closing (sw_worker y)). fst e \<noteq> i"
  defines "w' \<equiv> fold broadcast packets (sw_worker y)"
  shows "get (w_sessions w') i = Some (s\<lparr>cs_app_drops := cs_app_drops s + int (length packets),
        cs_drop_burst := int (length packets)\<rparr>)
    \<and> count_list (map fst (w_closing w')) i = (if 256 \<le> length packets then 1 else 0)"
proof -
  have "map_ok (w_sessions (sw_worker y))"
    using worker_reachable_ok [OF assms(1)] by (simp add: worker_ok_def counts_ok_def)
  then have "get (w_sessions (fold broadcast packets w)) i = Some (s\<lparr>cs_app_drops := cs_app_drops s + int (length packets),
        cs_drop_burst := cs_drop_burst s + int (length packets)\<rparr>)
    \<and> count_list (map fst (w_closing (fold broadcast packets w))) i = count_list (map fst (w_closing w)) i
        + of_bool (cs_drop_burst s < 256 \<and> 256 \<le> cs_drop_burst s + int (length packets))"
    if "w = sw_worker y" for w
    using assms(2,3) unfolding that [symmetric]
  proof (induction packets arbitrary: w s)
    case (Cons p ps)
    let ?s = "s\<lparr>cs_app_drops := cs_app_drops s + 1, cs_drop_burst := cs_drop_burst s + 1\<rparr>"
    have "get (w_sessions (broadcast p w)) i = Some ?s"
      using Cons.prems by (simp add: get_broadcast enqueue_def)
    moreover have "map_ok (w_sessions (broadcast p w))" using Cons.prems by (simp add: broadcast_sessions)
    ultimately have ih: "get (w_sessions (fold broadcast ps (broadcast p w))) i = Some (?s\<lparr>cs_app_drops := cs_app_drops ?s + int (length ps),
        cs_drop_burst := cs_drop_burst ?s + int (length ps)\<rparr>)
      \<and> count_list (map fst (w_closing (fold broadcast ps (broadcast p w)))) i = count_list (map fst (w_closing (broadcast p w))) i
        + of_bool (cs_drop_burst ?s < 256 \<and> 256 \<le> cs_drop_burst ?s + int (length ps))"
      using Cons.prems by (intro Cons.IH) simp_all
    have "overrun s \<longleftrightarrow> cs_drop_burst s + 1 = 256"
      using Cons.prems by (simp add: overrun_def max_queue_drop_burst_def)
    then show ?case
      using ih closing_broadcast [OF Cons.prems(1,2), of p] by (auto simp: algebra_simps)
  qed simp
  from this [OF refl] show ?thesis
    using assms(4,5) by (auto simp: w'_def count_list_0_iff)
qed

subsection \<open>Cutting the input\<close>

definition packets_of :: "nat \<Rightarrow> octets \<Rightarrow> octets list" where
  "packets_of chunk bytes = map (\<lambda>k. take chunk (drop (k * chunk) bytes)) [0..<length bytes div chunk]"

lemma packets_of_step:
  "0 < chunk \<Longrightarrow> chunk \<le> length bytes \<Longrightarrow> packets_of chunk bytes = take chunk bytes # packets_of chunk (drop chunk bytes)"
proof -
  assume c: "0 < chunk" "chunk \<le> length bytes"
  have n: "length bytes div chunk = Suc ((length bytes - chunk) div chunk)"
    using c by (simp add: le_div_geq)
  show ?thesis
    unfolding packets_of_def n upt_conv_Cons [OF zero_less_Suc] by (simp add: map_Suc_upt [symmetric] add.commute del: map_Suc_upt upt_Suc)
qed

lemma drain_packets:
  "0 < chunk \<Longrightarrow> drain chunk bytes w = Some (drop (chunk * (length bytes div chunk)) bytes, fold broadcast (packets_of chunk bytes) w)"
proof (induction "length bytes" arbitrary: bytes w rule: less_induct)
  case less
  show ?case
  proof (cases "chunk \<le> length bytes")
    case True
    have n: "length bytes div chunk = Suc ((length bytes - chunk) div chunk)"
      using True less.prems by (simp add: le_div_geq)
    have "drain chunk (drop chunk bytes) (broadcast (take chunk bytes) w)
        = Some (drop (chunk * (length (drop chunk bytes) div chunk)) (drop chunk bytes),
            fold broadcast (packets_of chunk (drop chunk bytes)) (broadcast (take chunk bytes) w))"
      using True less.prems by (intro less.hyps) simp_all
    then show ?thesis
      using True by (subst drain.simps) (simp add: packets_of_step [OF less.prems True] n add.commute)
  next
    case False
    then show ?thesis by (subst drain.simps) (simp add: packets_of_def)
  qed
qed

lemma drain_zero:
  assumes "drain chunk bytes w = Some r" shows "0 < chunk"
proof (rule drain.raw_induct [OF _ assms])
  fix rec :: "nat \<Rightarrow> octets \<Rightarrow> worker \<Rightarrow> (octets \<times> worker) option" and n pending v x
  assume ih: "\<And>n pending v x. rec n pending v = Some x \<Longrightarrow> 0 < n"
    and body: "(if n \<le> length pending then rec n (drop n pending) (broadcast (take n pending) v) else Some (pending, v)) = Some x"
  show "0 < n"
  proof (cases "n \<le> length pending")
    case True
    then show ?thesis using body ih by simp
  next
    case False
    then show ?thesis by linarith
  qed
qed

text \<open>
  Cutting the input ends for every positive payload size, and for the size 0 it does not
  end: \<open>newWorker\<close> does not check the size, so only the validation in the store keeps a
  worker from hanging at its first datagram.
\<close>

theorem drain_terminates_iff:
  "(\<exists>r. drain chunk bytes w = Some r) \<longleftrightarrow> 0 < chunk"
  using drain_packets drain_zero by blast

lemma packets_of_append:
  "0 < chunk \<Longrightarrow> packets_of chunk (bytes @ later) = packets_of chunk bytes
      @ packets_of chunk (drop (chunk * (length bytes div chunk)) bytes @ later)
    \<and> drop (chunk * (length (bytes @ later) div chunk)) (bytes @ later)
      = drop (chunk * (length (drop (chunk * (length bytes div chunk)) bytes @ later) div chunk))
          (drop (chunk * (length bytes div chunk)) bytes @ later)"
proof (induction "length bytes" arbitrary: bytes rule: less_induct)
  case less
  show ?case
  proof (cases "chunk \<le> length bytes")
    case True
    let ?rest = "drop chunk bytes"
    have n: "length bytes div chunk = Suc (length ?rest div chunk)"
      using True less.prems by (simp add: le_div_geq)
    have m: "length (bytes @ later) div chunk = Suc (length (?rest @ later) div chunk)"
      using True less.prems by (simp add: le_div_geq)
    have d: "drop (chunk * (length bytes div chunk)) bytes = drop (chunk * (length ?rest div chunk)) ?rest"
      by (simp add: n add.commute)
    have "packets_of chunk (bytes @ later) = take chunk bytes # packets_of chunk (?rest @ later)"
      using packets_of_step [OF less.prems, of "bytes @ later"] True by simp
    moreover have "packets_of chunk bytes = take chunk bytes # packets_of chunk ?rest"
      using packets_of_step [OF less.prems True] .
    moreover have "drop (chunk * (length (bytes @ later) div chunk)) (bytes @ later)
        = drop (chunk * (length (?rest @ later) div chunk)) (?rest @ later)"
      unfolding m using True by (simp add: add.commute)
    moreover note less.hyps [of ?rest]
    ultimately show ?thesis using True less.prems unfolding d by simp
  qed (simp add: packets_of_def)
qed

lemma fold_broadcast_sessions:
  "w_sessions (fold broadcast ps w) = map (\<lambda>(i, s). (i, fold enqueue ps s)) (w_sessions w)"
  by (induction ps arbitrary: w) (simp_all add: broadcast_sessions comp_def case_prod_unfold)

lemma fold_broadcast_keeps [simp]:
  "w_input_bytes (fold broadcast ps w) = w_input_bytes w" "w_continuity (fold broadcast ps w) = w_continuity w"
  by (induction ps arbitrary: w) (simp_all add: broadcast_def)

text \<open>
  C24: The input loop loses, adds and reorders nothing: whatever the boundaries of the datagrams,
  every session is offered the concatenated input cut into packets of the payload size, only
  the incomplete end is held back, and all bytes are counted.
\<close>

theorem input_cut_regardless_of_datagrams:
  assumes "0 < chunk"
  shows "let bytes = concat (map snd reads) in
    \<exists>w'. input_loop chunk (map (\<lambda>(now, d). (now, Inr d)) reads) [] t w
        = Some (drop (chunk * (length bytes div chunk)) bytes, w')
      \<and> w_sessions w' = w_sessions (fold broadcast (packets_of chunk bytes) w)
      \<and> w_input_bytes w' = w_input_bytes w + int (length bytes)"
proof -
  have "\<exists>w'. input_loop chunk (map (\<lambda>(now, d). (now, Inr d)) reads) pending t w
        = Some (drop (chunk * (length (pending @ concat (map snd reads)) div chunk)) (pending @ concat (map snd reads)), w')
      \<and> w_sessions w' = w_sessions (fold broadcast (packets_of chunk (pending @ concat (map snd reads))) w)
      \<and> w_input_bytes w' = w_input_bytes w + int (length (concat (map snd reads)))"
    if "length pending < chunk" for pending
    using that
  proof (induction reads arbitrary: pending t w)
    case Nil
    then show ?case by (simp add: packets_of_def)
  next
    case (Cons r reads)
    obtain now d where r: "r = (now, d)" by (cases r)
    obtain v u where v: "count_input now d t w = (v, u)" by fastforce
    have s: "w_sessions v = w_sessions w" "w_input_bytes v = w_input_bytes w + int (length d)"
      using v by (auto simp: count_input_def split: prod.splits)
    let ?all = "pending @ d" and ?more = "concat (map snd reads)"
    let ?held = "drop (chunk * (length ?all div chunk)) ?all"
    let ?v = "fold broadcast (packets_of chunk ?all) v"
    have "length ?held < chunk"
      using assms unfolding length_drop by (simp only: minus_mult_div_eq_mod mod_less_divisor)
    from Cons.IH [OF this, of u ?v] obtain w' where
      "input_loop chunk (map (\<lambda>(now, d). (now, Inr d)) reads) ?held u ?v
        = Some (drop (chunk * (length (?held @ ?more) div chunk)) (?held @ ?more), w')"
      "w_sessions w' = w_sessions (fold broadcast (packets_of chunk (?held @ ?more)) ?v)"
      "w_input_bytes w' = w_input_bytes ?v + int (length ?more)" by blast
    moreover have "drop (chunk * (length (?all @ ?more) div chunk)) (?all @ ?more)
        = drop (chunk * (length (?held @ ?more) div chunk)) (?held @ ?more)"
      and "packets_of chunk (?all @ ?more) = packets_of chunk ?all @ packets_of chunk (?held @ ?more)"
      using packets_of_append [OF assms, of ?all ?more] by blast+
    ultimately show ?case
      by (intro exI [of _ w']) (simp add: r v drain_packets [OF assms] fold_broadcast_sessions s
          comp_def case_prod_unfold)
  qed
  from this [of "[]"] show ?thesis using assms by simp
qed

end
