(* ===== verification/SrtWorkerMirror.thy ===== *)
theory SrtWorkerMirror
  imports SrtWorkerProps
begin

text \<open>
  The event stream of the SRT worker as a mirror of its sessions: replaying the events that
  were written and those still in the channel gives exactly the sessions that are open.
\<close>

text \<open>The sessions that the events so far say are open.\<close>

definition live_step :: "worker_event \<Rightarrow> string set \<Rightarrow> string set" where
  "live_step e ids = (if we_type e = ''session_connected'' then insert (s_id (the (we_session e))) ids
     else if we_type e = ''session_disconnected'' then ids - {s_id (the (we_session e))} else ids)"

definition live :: "worker_event list \<Rightarrow> string set" where
  "live es = fold live_step es {}"

text \<open>What every event says about its session.\<close>

definition event_ok :: "string \<Rightarrow> worker_event \<Rightarrow> bool" where
  "event_ok relay e \<longleftrightarrow> (we_type e \<in> set session_types \<longrightarrow> (\<exists>x. we_session e = Some x \<and> s_relay_id x = relay
     \<and> (active x \<longleftrightarrow> we_type e = ''session_connected'')))"

definition mirrored :: "worker_event list \<Rightarrow> worker \<Rightarrow> bool" where
  "mirrored written w \<longleftrightarrow> live (written @ w_events w) = {i. has_key (w_sessions w) i}
     \<and> list_all (event_ok (r_id (wcfg_relay (w_config w)))) (written @ w_events w)
     \<and> (\<forall>i s. get (w_sessions w) i = Some s \<longrightarrow> s_id (cs_data s) = i
        \<and> s_relay_id (cs_data s) = r_id (wcfg_relay (w_config w)) \<and> active (cs_data s))"

lemma live_append: "live (es @ [e]) = live_step e (live es)"
  by (simp add: live_def)

text \<open>Steps that open and close no session.\<close>

definition quiet :: "worker \<Rightarrow> worker \<Rightarrow> bool" where
  "quiet w w' \<longleftrightarrow> w_config w' = w_config w
     \<and> (\<forall>i. map_option (\<lambda>s. (s_id (cs_data s), s_relay_id (cs_data s), s_disconnected_at (cs_data s))) (get (w_sessions w') i)
          = map_option (\<lambda>s. (s_id (cs_data s), s_relay_id (cs_data s), s_disconnected_at (cs_data s))) (get (w_sessions w) i))
     \<and> (\<exists>es. w_events w' = w_events w @ es \<and> list_all (\<lambda>e. we_type e \<notin> set session_types) es)"

lemma quiet_refl [simp]: "quiet w w"
  by (auto simp: quiet_def intro: exI [of _ "[]"])

lemma quiet_trans [trans]: "quiet a b \<Longrightarrow> quiet b c \<Longrightarrow> quiet a c"
  by (fastforce simp: quiet_def)

lemma live_quiet: "list_all (\<lambda>e. we_type e \<notin> set session_types) es \<Longrightarrow> fold live_step es A = A"
  by (induction es) (simp_all add: live_step_def session_types_def)

lemma map_option_eq_SomeE: "map_option f x = map_option f y \<Longrightarrow> x = Some a \<Longrightarrow> \<exists>b. y = Some b \<and> f b = f a"
  by (cases y) auto

lemma quiet_mirrored:
  assumes "quiet w w'" "mirrored written w" shows "mirrored written w'"
proof -
  obtain es where es: "w_events w' = w_events w @ es" "list_all (\<lambda>e. we_type e \<notin> set session_types) es"
    and cfg: "w_config w' = w_config w"
    using assms(1) by (auto simp: quiet_def)
  have same: "map_option (\<lambda>s. (s_id (cs_data s), s_relay_id (cs_data s), s_disconnected_at (cs_data s))) (get (w_sessions w') i)
      = map_option (\<lambda>s. (s_id (cs_data s), s_relay_id (cs_data s), s_disconnected_at (cs_data s))) (get (w_sessions w) i)" for i
    using assms(1) by (simp add: quiet_def)
  have "has_key (w_sessions w') i = has_key (w_sessions w) i" for i
    using arg_cong [OF same [of i], of "\<lambda>x. x = None"] by (simp add: has_key_def)
  moreover have "live (written @ w_events w') = live (written @ w_events w)"
    using live_quiet [OF es(2)] by (simp add: live_def es(1))
  moreover have "list_all (event_ok r) es" for r
    using es(2) by (auto simp: event_ok_def list_all_iff)
  moreover have "s_id (cs_data s) = i \<and> s_relay_id (cs_data s) = r_id (wcfg_relay (w_config w)) \<and> active (cs_data s)"
    if g: "get (w_sessions w') i = Some s" for i s
  proof -
    obtain t where "get (w_sessions w) i = Some t" "s_id (cs_data t) = s_id (cs_data s)"
      "s_relay_id (cs_data t) = s_relay_id (cs_data s)" "s_disconnected_at (cs_data t) = s_disconnected_at (cs_data s)"
      using map_option_eq_SomeE [OF same g] by auto
    then show ?thesis using assms(2) by (auto simp: mirrored_def active_def)
  qed
  ultimately show ?thesis
    using assms(2) by (simp add: mirrored_def es(1) cfg)
qed

lemma quiet_emit: "we_type e \<notin> set session_types \<Longrightarrow> quiet w (snd (emit e w))"
  by (auto simp: quiet_def emit_def)

lemma quiet_rejected: "quiet w (emit_rejected now x reason w)"
  unfolding emit_rejected_def
  by (rule quiet_emit) (simp add: session_event_def session_types_def)

lemma quiet_fields: "w_config w' = w_config w \<Longrightarrow> w_sessions w' = w_sessions w \<Longrightarrow> w_events w' = w_events w \<Longrightarrow> quiet w w'"
  by (auto simp: quiet_def intro: exI [of _ "[]"])

lemma quiet_put:
  "get (w_sessions w) i = Some s \<Longrightarrow> s_id (cs_data s') = s_id (cs_data s) \<Longrightarrow> s_relay_id (cs_data s') = s_relay_id (cs_data s)
    \<Longrightarrow> s_disconnected_at (cs_data s') = s_disconnected_at (cs_data s) \<Longrightarrow> quiet w (w\<lparr>w_sessions := put i s' (w_sessions w)\<rparr>)"
  by (auto simp: quiet_def intro: exI [of _ "[]"])

lemma quiet_broadcast: "quiet w (broadcast packet w)"
  by (auto simp: quiet_def get_broadcast option.map_comp comp_def broadcast_def [of packet w]
      get_map_values intro: exI [of _ "[]"])

lemma quiet_closed: "quiet w (native_close socket w)" "quiet w (fail_run reason w)"
  "quiet w (snd (allow_connection_attempt ip now w))" "quiet w (release key p w)"
  "quiet w (snd (reserve key p acl w))" "quiet w (fst (count_input now data t w))"
  "quiet w (w\<lparr>w_timers := ts\<rparr>)" "quiet w (w\<lparr>w_stopping := b\<rparr>)" "quiet w (w\<lparr>w_pending := m, w_reservations := n\<rparr>)"
  by (auto simp: native_close_def fail_run_def allow_connection_attempt_def release_def reserve_def count_input_def
      split: prod.split option.split intro: quiet_fields)

lemma quiet_expire: "quiet w (expire_attempt now key w)"
  by (auto simp: expire_attempt_def intro: quiet_trans [OF quiet_closed(4) quiet_rejected] split: option.split)

lemma quiet_measure: "quiet w (snd acc) \<Longrightarrow> quiet w (snd (measure_session now native i acc))"
proof (cases acc)
  case (Pair bitrate v)
  assume q: "quiet w (snd acc)"
  have "quiet v (snd (emit (session_event ''session_stats'' now [] x) (v\<lparr>w_sessions := put i s' (w_sessions v)\<rparr>)))"
    if "get (w_sessions v) i = Some s" "s' = s\<lparr>cs_data := (cs_data s)\<lparr>s_stats := stats\<rparr>\<rparr>" for s s' stats x
    using that by (intro quiet_trans [OF quiet_put [OF that(1)] quiet_emit])
      (simp_all add: session_event_def session_types_def)
  then have "quiet v (snd (measure_session now native i acc))"
    by (simp add: measure_session_def Pair Let_def split: option.split)
  then show ?thesis using q Pair quiet_trans by simp
qed

lemma quiet_metrics: "quiet w (snd (metrics_tick now native previous w))"
proof -
  have "quiet w (snd (fold (measure_session now native) ids acc))" if "quiet w (snd acc)" for ids acc
    using that by (induction ids arbitrary: acc) (simp_all add: quiet_measure)
  from this [of "(0, w)"] have "quiet w (snd (fold (measure_session now native) (keys (w_sessions w)) (0, w)))" by simp
  moreover have "quiet v (snd (emit (relay_metrics now a b n v) v))" for v a b n
    by (rule quiet_emit) (simp add: relay_metrics_def session_types_def)
  ultimately show ?thesis
    unfolding metrics_tick_def Let_def case_prod_unfold snd_conv by (rule quiet_trans)
qed

subsection \<open>Opening and closing\<close>

lemma add_session_mirrored:
  assumes "mirrored written w" "s_relay_id x = r_id (wcfg_relay (w_config w))" "active x"
  shows "mirrored written (add_session now fatal socket x w)"
proof -
  let ?e = "session_event ''session_connected'' now [] x"
  have ev: "w_events (add_session now fatal socket x w) = w_events w @ [?e]"
    by (simp add: add_session_def emit_def session_event_def lifecycle_types_def)
  have k: "w_config (add_session now fatal socket x w) = w_config w"
    and g: "get (w_sessions (add_session now fatal socket x w)) i = (if i = s_id x
      then Some \<lparr>cs_socket = socket, cs_queue = [], cs_data = x, cs_drop_burst = 0, cs_app_drops = 0, cs_fatal = fatal\<rparr>
      else get (w_sessions w) i)" for i
    by (simp_all add: add_session_def emit_def)
  have "live (written @ w_events w @ [?e]) = insert (s_id x) (live (written @ w_events w))"
    using live_append [of "written @ w_events w" ?e] by (simp add: live_step_def session_event_def)
  then show ?thesis
    using assms unfolding mirrored_def ev k
    by (auto simp: has_key_def g event_ok_def session_event_def)
qed

lemma close_session_mirrored:
  assumes "mirrored written w" shows "mirrored written (close_session now i reason w)"
proof (cases "get (w_sessions w) i")
  case (Some s)
  let ?x = "(cs_data s)\<lparr>s_disconnected_at := Some now, s_disconnect_reason := reason\<rparr>"
  let ?e = "session_event ''session_disconnected'' now reason ?x"
  let ?v = "snd (emit ?e ((native_close (cs_socket s) w)\<lparr>w_sessions := del i (w_sessions w)\<rparr>))"
  have s: "s_id (cs_data s) = i" "s_relay_id (cs_data s) = r_id (wcfg_relay (w_config w))"
    using assms Some by (auto simp: mirrored_def)
  have ev: "w_events ?v = w_events w @ [?e]" and k: "w_config ?v = w_config w"
    and g: "w_sessions ?v = del i (w_sessions w)"
    by (simp_all add: emit_def native_close_def session_event_def lifecycle_types_def)
  have "live (written @ w_events w @ [?e]) = live (written @ w_events w) - {i}"
    using live_append [of "written @ w_events w" ?e] by (simp add: live_step_def session_event_def s)
  then have "mirrored written ?v"
    using assms s unfolding mirrored_def ev k g
    by (auto simp: has_key_def event_ok_def session_event_def active_def split: if_splits)
  moreover have "quiet ?v (close_session now i reason w)"
    by (simp add: close_session_def Some Let_def quiet_closed(2))
  ultimately show ?thesis using quiet_mirrored by blast
qed (simp add: close_session_def assms)

lemma close_all_mirrored: "mirrored written w \<Longrightarrow> mirrored written (close_all_sessions now reason w)"
proof -
  have "mirrored written v \<Longrightarrow> mirrored written (fold (\<lambda>i. close_session now i reason) ids v)" for ids v
    by (induction ids arbitrary: v) (simp_all add: close_session_mirrored)
  then show "mirrored written w \<Longrightarrow> mirrored written (close_all_sessions now reason w)"
    by (simp add: close_all_sessions_def)
qed

lemma accept_mirrored:
  assumes "mirrored written w" shows "mirrored written (accept_one now random a w)"
proof (cases "get (w_pending w) (attempt_key (ac_ip a) (ac_port a) (ac_stream a))")
  case None
  have "quiet w (accept_one now random a w)"
    unfolding accept_one_def Let_def None option.case by (rule quiet_trans [OF quiet_closed(1) quiet_rejected])
  then show ?thesis using assms by (rule quiet_mirrored)
next
  case (Some p)
  let ?key = "attempt_key (ac_ip a) (ac_port a) (ac_stream a)"
  have rel: "mirrored written (release ?key p w)" by (rule quiet_mirrored [OF quiet_closed(4) assms])
  show ?thesis
  proof (cases "random_session_id random")
    case None
    then show ?thesis using quiet_mirrored [OF quiet_closed(1) rel] by (simp add: accept_one_def Let_def Some)
  next
    case r: (Some i)
    have "mirrored written (add_session now False (ac_socket a)
        (new_session now i (r_id (wcfg_relay (w_config w))) (pa_client p) a) (release ?key p w))"
      by (rule add_session_mirrored [OF rel]) (simp_all add: new_session_def active_def zero_session_def)
    then show ?thesis by (simp add: accept_one_def Let_def Some r)
  qed
qed

lemma send_mirrored: "mirrored written w \<Longrightarrow> mirrored written (send_one now i outcome w)"
proof (cases "get (w_sessions w) i")
  case (Some s)
  assume m: "mirrored written w"
  show ?thesis
  proof (cases "cs_queue s")
    case (Cons packet rest)
    have "mirrored written (w\<lparr>w_sessions := put i (s\<lparr>cs_queue := rest\<rparr>) (w_sessions w)\<rparr>)"
      by (rule quiet_mirrored [OF quiet_put [OF Some] m]) simp_all
    then show ?thesis by (simp add: send_one_def Some Cons Let_def close_session_mirrored split: option.split)
  qed (simp add: send_one_def Some m)
qed (simp add: send_one_def)

lemma worker_change_mirrored: "worker_change w w' \<Longrightarrow> mirrored written w \<Longrightarrow> mirrored written w'"
proof (induction rule: worker_change.induct)
  case (expires key w now)
  then show ?case using quiet_mirrored [OF quiet_expire quiet_mirrored [OF quiet_closed(7)]] by blast
next
  case (ends w now stop late socket)
  have "mirrored written (native_close socket (w\<lparr>w_stopping := True\<rparr>))"
    by (rule quiet_mirrored [OF quiet_closed(1) quiet_mirrored [OF quiet_closed(8) ends.prems]])
  then have "mirrored written (close_all_sessions now ''relay stopped'' (native_close socket (w\<lparr>w_stopping := True\<rparr>)))"
    by (rule close_all_mirrored)
  from quiet_mirrored [OF quiet_closed(9) this] show ?case
    by (simp add: run_end_def Let_def)
qed (blast intro: quiet_mirrored [OF quiet_closed(3)] quiet_mirrored [OF quiet_emit] quiet_mirrored [OF quiet_closed(5)]
    accept_mirrored close_session_mirrored quiet_mirrored [OF quiet_broadcast] send_mirrored
    quiet_mirrored [OF quiet_closed(6)] quiet_mirrored [OF quiet_metrics] quiet_mirrored [OF quiet_closed(2)])+

lemma reachable_mirrored: "worker_reachable config y \<Longrightarrow> mirrored (sw_written y) (sw_worker y)"
proof (induction rule: worker_reachable.induct)
  case (starts now w)
  then show ?case using new_worker_fresh [OF starts] by (simp add: mirrored_def live_def has_key_def)
next
  case (steps y z)
  from steps.hyps(2) show ?case
  proof cases
    case (changes w)
    then show ?thesis using worker_change_mirrored steps.IH by simp
  next
    case (writes e es)
    then show ?thesis using steps.IH by (simp add: mirrored_def)
  qed
qed

text \<open>
  Replaying the event stream of a worker gives its sessions: every session it has is
  announced and not yet closed in the stream, no session is announced or closed that is not,
  and every announcement carries its session, even when the channel is full.
\<close>

theorem events_mirror_sessions:
  assumes "worker_reachable config y"
  shows "live (sw_written y @ w_events (sw_worker y)) = {i. has_key (w_sessions (sw_worker y)) i}
    \<and> list_all (event_ok (r_id (wcfg_relay (w_config (sw_worker y))))) (sw_written y @ w_events (sw_worker y))"
  using reachable_mirrored [OF assms] by (simp add: mirrored_def)

end
