(* ===== verification/SrtLink.thy ===== *)
theory SrtLink
  imports SrtManagerProps SrtWorkerMirror
begin

text \<open>
  The daemon and the worker together: the configuration the daemon writes is one the worker
  accepts, and the sessions the daemon shows are those of the worker whose events it read.
\<close>

subsection \<open>The configuration\<close>

lemma normalized_cidr_parses: "normalize_cidr s = Some s \<Longrightarrow> \<exists>n. parse_cidr s = Some n"
proof -
  assume n: "normalize_cidr s = Some s"
  then obtain ip k where s: "s = ip_string ip @ ''/'' @ show_nat k" "net_form ip k"
    using normalize_cidr_form by blast
  have "trim_space s = s" "parse_ip s = None"
    using printed_network(1,2) [OF s(2)] by (simp_all add: s(1))
  then show ?thesis using n by (auto simp: normalize_cidr_def split: option.splits)
qed

lemma acl_nets_ok: "list_all (\<lambda>s. \<exists>n. parse_cidr s = Some n) cidrs \<Longrightarrow> \<exists>nets. acl_nets i cidrs = Inr nets"
  by (induction cidrs) auto

lemma passphrase_length: "length (client_passphrase key c) = 43" "length (relay_passphrase key r) = 43"
  by (simp_all add: client_passphrase_def relay_passphrase_def length_encode64)

lemma worker_client_accepted:
  assumes "client_shape c"
  shows "\<exists>acl. build_acl (SrtStore.worker_client key c) = Inr acl \<and> wc_id (acl_config acl) = c_id c"
proof -
  have "c_id c \<noteq> []" using assms by (auto simp: client_shape_def id_pattern_def)
  moreover obtain nets where "acl_nets (c_id c) (c_allowed_cidrs c) = Inr nets"
    using acl_nets_ok [of "c_allowed_cidrs c" "c_id c"] assms normalized_cidr_parses
    by (auto simp: client_shape_def network_ok_def list_all_iff)
  moreover have "c_encryption_mode c = encryption_aes256 \<or> c_encryption_mode c = encryption_none"
    using assms by (simp add: client_shape_def)
  moreover have "encryption_aes256 \<noteq> encryption_none" "encryption_aes256 \<noteq> []" "encryption_none \<noteq> []"
    by (simp_all add: mode_defs)
  ultimately show ?thesis
    by (auto simp: build_acl_def SrtStore.worker_client_def Let_def bad_passphrase_def passphrase_length)
qed

lemma build_acls_accepts:
  "list_all client_shape cs \<Longrightarrow>
    \<exists>acls'. build_acls (map (SrtStore.worker_client key) cs) acls = Inr acls'
      \<and> (\<forall>k. has_key acls' k \<longleftrightarrow> has_key acls k \<or> k \<in> c_id ` set cs)"
proof (induction cs arbitrary: acls)
  case (Cons c cs)
  then obtain acl where a: "build_acl (SrtStore.worker_client key c) = Inr acl" "wc_id (acl_config acl) = c_id c"
    using worker_client_accepted [of c key] by auto
  have "has_key (put (c_id c) acl acls) k \<longleftrightarrow> k = c_id c \<or> has_key acls k" for k
    by (simp add: has_key_def)
  then show ?case using Cons.IH [of "put (c_id c) acl acls"] Cons.prems by (auto simp: a)
qed simp

lemma listener_compatible:
  assumes "store_ok s" "get (sto_relays s) i = Some r" "r_id r = i" "r_direction r = direction_listener"
  obtains acls where "build_acls (worker_clients s i) [] = Inr acls" "check_compatibility r acls = Inr ()"
proof -
  let ?cs = "filter (\<lambda>c. c_enabled c \<and> i \<in> set (c_allowed_relay_ids c)) (sorted_vals (sto_clients s))"
  have "list_all client_shape ?cs"
    using assms(1) by (auto simp: store_ok_def config_ok_def clients_ok_def list_all_iff set_sorted_vals)
  then obtain acls where acls: "build_acls (worker_clients s i) [] = Inr acls"
    "\<And>k. has_key acls k \<longleftrightarrow> k \<in> c_id ` set ?cs"
    using build_acls_accepts [of ?cs "sto_master_key s" "[]"] by (auto simp: worker_clients_def has_key_def)
  have "check_compatibility r acls = Inr ()"
  proof (cases "r_allow_missing_stream_id r")
    case missing: True
    obtain c where c: "get (sto_clients s) (r_default_client_id r) = Some c" "c_enabled c" "i \<in> set (c_allowed_relay_ids c)"
      using assms(1,2) missing by (auto simp: store_ok_def config_ok_def defaults_ok_def)
    have "c_id c = r_default_client_id r"
      using assms(1) c(1) by (auto simp: store_ok_def config_ok_def clients_ok_def)
    then have "has_key acls (r_default_client_id r)"
      unfolding acls(2) using c by (auto simp: set_sorted_vals intro!: rev_image_eqI)
    then show ?thesis using assms(4) missing by (simp add: check_compatibility_def)
  qed (simp add: check_compatibility_def)
  then show ?thesis using acls(1) that by blast
qed

lemma multicast_url_accepted:
  "input_url_ok (r_input_url r) \<Longrightarrow> open_multicast net r \<notin> {Inl InputUrlInvalid, Inl MulticastPortInvalid}"
  by (auto simp: input_url_ok_def open_multicast_def Let_def and_then_Inl select_interface_def interface_by_ip_def
      split: if_splits option.splits)

lemma stored_relay_accepted:
  assumes "store_ok s" and "get (sto_relays s) i = Some r"
  shows "(\<exists>w. new_worker now (worker_input s r) = Inr w \<and> w_config w = worker_input s r)
    \<and> open_multicast net (wcfg_relay (worker_input s r)) \<notin> {Inl InputUrlInvalid, Inl MulticastPortInvalid}
    \<and> (\<exists>out. drain (nat (r_payload_size r)) datagram w = Some out)"
proof -
  note ok = assms(1)
  then have shape: "relay_shape r" "r_id r = i" "relays_ok (sto_relays s)"
    using assms(2) by (auto simp: store_ok_def store_invariants)
  have lim: "limits_ok r" and dir: "r_direction r = direction_publish \<or> r_direction r = direction_listener"
    and url: "input_url_ok (r_input_url r)"
    using shape(1) by (auto simp: relay_shape_def relay_ok_def limits_ok_def)
  have pub: "r_direction r = direction_publish \<Longrightarrow> \<not> r_allow_missing_stream_id r
      \<and> r_encryption_mode r \<in> {encryption_aes256, encryption_none}"
    using shape(1) by (auto simp: relay_shape_def relay_ok_def publish_ok_def mode_defs)
  have fill: "fill_worker_relay r = r"
    using dir lim by (auto simp: fill_worker_relay_def limits_ok_def mode_defs)
  have range: "\<not> (r_input_timeout_seconds r < 3 \<or> r_input_timeout_seconds r > 300)"
    using lim by (simp add: limits_ok_def)
  have input: "wcfg_relay (worker_input s r) = r" by (simp add: worker_input_def)
  have w: "\<exists>w. new_worker now (worker_input s r) = Inr w \<and> w_config w = worker_input s r"
  proof (cases "r_direction r = direction_publish")
    case True
    have p: "publish_passphrase s i = (if r_encryption_mode r = encryption_aes256 then relay_passphrase (sto_master_key s) r else [])"
      using True by (simp add: publish_passphrase_def assms(2) publishes_encrypted_def)
    have "check_publish r (publish_passphrase s i) = Inr ()"
      using pub [OF True] by (auto simp: check_publish_def p bad_passphrase_def passphrase_length mode_defs)
    then show ?thesis
      using pub [OF True] range
      by (simp add: new_worker_def worker_input_def True fill shape(2) check_compatibility_def)
  next
    case False
    then obtain acls where "build_acls (worker_clients s i) [] = Inr acls" "check_compatibility r acls = Inr ()"
      using listener_compatible [OF ok assms(2) shape(2)] dir by blast
    then show ?thesis
      using False range by (simp add: new_worker_def worker_input_def fill shape(2) check_publish_def)
  qed
  have "\<exists>out. drain (nat (r_payload_size r)) datagram w = Some out"
    using drain_packets [of "nat (r_payload_size r)"] lim by (auto simp: limits_ok_def)
  then show ?thesis using w multicast_url_accepted [OF url] unfolding input by blast
qed


subsection \<open>The sessions the daemon shows\<close>

definition open_ids :: "string \<Rightarrow> store \<Rightarrow> string set" where
  "open_ids relay s = {i. \<exists>x. get (sto_sessions s) i = Some x \<and> open_on relay x}"

lemma apply_event_sessions:
  "sto_sessions (apply_worker_event enc env1 env2 clock relay e s)
    = sto_sessions (fst (apply_event_maps (if is_zero (we_time e) then clock else we_time e) relay e s))"
  by (cases "apply_event_maps (if is_zero (we_time e) then clock else we_time e) relay e s")
    (simp add: apply_worker_event_def Let_def split: option.split)

lemma open_prune: "sessions_ok (sto_sessions s) \<Longrightarrow> open_ids relay (prune_sessions s) = open_ids relay s"
  unfolding open_ids_def open_on_def using prune_sub prune_active by blast

lemma apply_event_open:
  assumes "sessions_ok (sto_sessions s)" "event_ok relay e"
  shows "open_ids relay (apply_worker_event enc env1 env2 clock relay e s) = live_step e (open_ids relay s)"
proof -
  let ?now = "if is_zero (we_time e) then clock else we_time e"
  have eq: "open_ids relay (apply_worker_event enc env1 env2 clock relay e s) = open_ids relay (fst (apply_event_maps ?now relay e s))"
    by (simp only: open_ids_def apply_event_sessions)
  have types: "''session_connected'' \<notin> set state_event_types" "''session_disconnected'' \<notin> set state_event_types"
    by (simp_all add: state_event_types_def)
  consider (connected) "we_type e = ''session_connected''" | (disconnected) "we_type e = ''session_disconnected''"
    | (other) "we_type e \<notin> set session_types" by (auto simp: session_types_def)
  then have "open_ids relay (fst (apply_event_maps ?now relay e s)) = live_step e (open_ids relay s)"
  proof cases
    case connected
    then obtain x where x: "we_session e = Some x" "s_relay_id x = relay" "active x"
      using assms(2) by (auto simp: event_ok_def session_types_def)
    then show ?thesis
      using connected by (auto simp: apply_event_maps_def Let_def types event_session_def live_step_def open_ids_def open_on_def)
  next
    case disconnected
    then obtain x where x: "we_session e = Some x" "s_relay_id x = relay" "\<not> active x"
      using assms(2) by (auto simp: event_ok_def session_types_def)
    let ?s = "s\<lparr>sto_sessions := put (s_id x) x (sto_sessions s)\<rparr>"
    have "sessions_ok (sto_sessions ?s)" using assms(1) by (simp add: sessions_put)
    then have "open_ids relay (prune_sessions ?s) = open_ids relay ?s" by (rule open_prune)
    also have "\<dots> = open_ids relay s - {s_id x}"
      using x by (auto simp: open_ids_def open_on_def split: if_splits)
    finally show ?thesis
      using disconnected x by (simp add: apply_event_maps_def Let_def types event_session_def live_step_def)
  next
    case other
    have stats: "open_ids relay (s\<lparr>sto_sessions := put k (x\<lparr>s_stats := st\<rparr>) (sto_sessions s)\<rparr>) = open_ids relay s"
      if "get (sto_sessions s) k = Some x" for k x st
      using that by (auto simp: open_ids_def open_on_def active_def)
    have states: "open_ids relay (s\<lparr>sto_states := m\<rparr>) = open_ids relay s" for m by (simp add: open_ids_def)
    show ?thesis
      using other by (auto simp: apply_event_maps_def Let_def live_step_def session_types_def stats states
          split: option.split prod.split)
  qed
  then show ?thesis using eq by simp
qed

lemma apply_event_sessions_ok:
  "store_ok s \<Longrightarrow> sessions_ok (sto_sessions (apply_worker_event enc env1 env2 clock relay e s))"
  using apply_worker_event_ok [of s enc env1 env2 clock relay e] by (simp add: store_ok_def)

text \<open>Reading encoded events applies them in order, when every line decodes to its event and fits.\<close>

lemma read_encoded_events:
  assumes "\<forall>e \<in> set es. decode (encode e) = Some e \<and> length (encode e) < worker_line_limit"
    and "list_all (event_ok relay) es" "store_ok (mgr_store m)"
  shows "open_ids relay (mgr_store (read_events enc envs decode relay (map encode es) m))
    = fold live_step es (open_ids relay (mgr_store m))"
proof -
  have tw: "takeWhile (\<lambda>l. length l < worker_line_limit) (map encode es) = map encode es"
    using assms(1) by (simp add: takeWhile_eq_all_conv)
  have "open_ids relay (mgr_store (fold (\<lambda>(n, line) m. case decode line of None \<Rightarrow> m
      | Some e \<Rightarrow> (case envs n of (env1, env2, clock) \<Rightarrow>
          m\<lparr>mgr_store := apply_worker_event enc env1 env2 clock relay e (mgr_store m)\<rparr>)) (enumerate k (map encode es)) m))
    = fold live_step es (open_ids relay (mgr_store m))" for k
    using assms
  proof (induction es arbitrary: k m)
    case (Cons e es)
    obtain env1 env2 clock where n: "envs k = (env1, env2, clock)" by (metis prod_cases3)
    have d: "decode (encode e) = Some e" using Cons.prems(1) by simp
    have ok: "sessions_ok (sto_sessions (mgr_store m))" using Cons.prems(3) by (simp add: store_ok_def)
    have step: "open_ids relay (apply_worker_event enc env1 env2 clock relay e (mgr_store m)) = live_step e (open_ids relay (mgr_store m))"
      using Cons.prems(2) by (intro apply_event_open [OF ok]) simp
    show ?case
      using Cons.IH [of "m\<lparr>mgr_store := apply_worker_event enc env1 env2 clock relay e (mgr_store m)\<rparr>" "Suc k"]
        Cons.prems by (simp add: d n step apply_worker_event_ok)
  qed simp
  from this [of 0] show ?thesis by (simp only: read_events_def tw)
qed

lemma write_all: "fst (write_events encode (\<lambda>_. True) n es) = map encode es"
  by (induction es arbitrary: n) (simp_all add: case_prod_unfold)


end
