(* ===== verification/NativeProps.thy ===== *)
theory NativeProps
  imports NativeSrt SrtLink
begin

text \<open>
  From a caller to the store: the callback of libsrt in a worker that runs with the
  configuration of a stored relay, and the sockets the binding opens.
\<close>

subsection \<open>The clients of a worker\<close>

lemma emit_clients [simp]: "w_clients (snd (emit e w)) = w_clients w" "w_clients (emit_rejected now x reason w) = w_clients w"
  by (simp_all add: emit_def emit_rejected_def)

lemma close_session_clients [simp]: "w_clients (SrtWorker.close_session now i reason w) = w_clients w"
  by (simp add: SrtWorker.close_session_def Let_def native_close_def fail_run_def split: option.split)

lemma close_all_clients [simp]: "w_clients (close_all_sessions now reason w) = w_clients w"
proof -
  have "w_clients (fold (\<lambda>i. SrtWorker.close_session now i reason) ids w) = w_clients w" for ids
    by (induction ids arbitrary: w) simp_all
  then show ?thesis by (simp add: close_all_sessions_def)
qed

lemma metrics_clients [simp]: "w_clients (snd (metrics_tick now native previous w)) = w_clients w"
proof -
  have "w_clients (snd (measure_session now native i acc)) = w_clients (snd acc)" for i acc
    by (simp add: measure_session_def Let_def split: prod.split option.split)
  then have "w_clients (snd (fold (measure_session now native) ids acc)) = w_clients (snd acc)" for ids acc
    by (induction ids arbitrary: acc) simp_all
  then show ?thesis by (simp add: metrics_tick_def Let_def case_prod_unfold)
qed

lemma worker_change_clients: "worker_change w w' \<Longrightarrow> w_clients w' = w_clients w"
  by (induction rule: worker_change.induct)
    (auto simp: allow_connection_attempt_def reserve_def expire_attempt_def release_def accept_one_def add_session_def native_close_def
      broadcast_def send_one_def count_input_def fail_run_def run_end_def Let_def
      split: prod.split option.split list.split)

lemma reachable_clients:
  "worker_reachable config y \<Longrightarrow> build_acls (wcfg_clients config) [] = Inr (w_clients (sw_worker y))"
proof (induction rule: worker_reachable.induct)
  case (starts now w)
  then show ?case by (auto simp: new_worker_def Let_def and_then_Inr split: if_splits)
next
  case (steps y z)
  then show ?case using worker_change_clients by (auto simp: worker_step_iff)
qed

lemma build_acls_from:
  "build_acls cs acls = Inr acls' \<Longrightarrow> get acls' k = Some acl \<Longrightarrow>
    get acls k = Some acl \<or> (\<exists>c \<in> set cs. build_acl c = Inr acl \<and> wc_id (acl_config acl) = k)"
  by (induction cs arbitrary: acls) (fastforce simp: and_then_Inr split: if_splits)+

text \<open>A client the worker knows is an enabled client of the store, assigned to its relay.\<close>

lemma known_client_stored:
  assumes "store_ok s" "get (sto_relays s) i = Some r" "worker_reachable (worker_input s r) y"
    and "get (w_clients (sw_worker y)) k = Some acl"
  obtains c where "get (sto_clients s) k = Some c" "c_id c = k" "c_enabled c" "i \<in> set (c_allowed_relay_ids c)" "client_shape c"
    "acl_config acl = SrtStore.worker_client (sto_master_key s) c"
proof -
  have i: "r_id r = i" using assms(1,2) by (auto simp: store_ok_def store_invariants)
  obtain x where x: "x \<in> set (wcfg_clients (worker_input s r))" "build_acl x = Inr acl" "wc_id (acl_config acl) = k"
    using build_acls_from [OF reachable_clients [OF assms(3)] assms(4)] by auto
  then have "x \<in> set (worker_clients s i)" by (simp add: worker_input_def i split: if_splits)
  then obtain c where c: "c \<in> set (sorted_vals (sto_clients s))" "c_enabled c" "i \<in> set (c_allowed_relay_ids c)"
    "x = SrtStore.worker_client (sto_master_key s) c"
    by (auto simp: worker_clients_def)
  then obtain j where j: "get (sto_clients s) j = Some c" by (auto simp: set_sorted_vals)
  then have shape: "c_id c = j" "client_shape c" using assms(1) by (auto simp: store_ok_def store_invariants)
  have "acl_config acl = x"
    using x(2) shape(2) by (auto simp: build_acl_def Let_def and_then_Inr c(4) SrtStore.worker_client_def client_shape_def mode_defs split: if_splits)
  moreover from this have "c_id c = k" using x(3) by (simp add: c(4) SrtStore.worker_client_def)
  ultimately show ?thesis using that c shape j by simp
qed

subsection \<open>C strings\<close>

lemma c_string_plain [simp]: "plain_ip (c_string s)"
  by (auto simp: plain_ip_def c_string_def dest: set_takeWhileD)

lemma c_string_terminated: "CHR 0x00 \<notin> set s \<Longrightarrow> c_string (s @ CHR 0x00 # rest) = s"
  unfolding c_string_def by (induction s) auto

lemma url64_no_nul: "\<not> url64_char (CHR 0x00)"
  by code_simp

lemma passphrase_plain: "CHR 0x00 \<notin> set (client_passphrase key c)" "CHR 0x00 \<notin> set (relay_passphrase key r)"
  using encode64_chars url64_no_nul by (auto simp: client_passphrase_def relay_passphrase_def)

lemma set_options_None: "set_options lib socket opts = None \<longleftrightarrow> (\<forall>opt \<in> set opts. ls_set lib socket opt = None)"
  by (induction opts) (auto split: option.splits)

subsection \<open>The callback\<close>

lemma admit_code: "admit now ip port stream w = ((secret, d), w') \<Longrightarrow> d \<in> {0, 400, 403, 404, 429}"
  by (auto simp: admit_def split: sum.splits option.splits if_splits prod.splits reservation.splits)

lemma authorize_code: "authorize now ip port stream w = ((secret, d), w') \<Longrightarrow> d \<in> {0, 400, 403, 404, 429}"
  by (auto simp: authorize_def dest: admit_code split: option.splits prod.splits bool.splits)

definition refusal_codes :: "int set" where "refusal_codes = {400, 403, 404, 429}"

text \<open>
  C4: When libsrt asks a worker that runs with the configuration of a stored relay about a
  caller, the handshake only goes on for an enabled client of the store that is assigned to
  the relay and that the Stream ID stands for. It then goes on with encryption enforced under
  the passphrase of that client, in full, when the client is encrypted, and without otherwise.
  An internal error is only reported when libsrt refuses an option.
\<close>

theorem callback_enforces_encryption:
  assumes "store_reachable enc s" and "get (sto_relays s) i = Some r" and "worker_reachable (worker_input s r) y"
    and "listener_callback lib now socket peer stream (Some (sw_worker y)) = (result, registered)"
  shows "case result of
      CallerRejected code \<Rightarrow> code \<in> refusal_codes \<or> (code = 500 \<and> (\<exists>opt. ls_set lib socket opt \<noteq> None))
    | HandshakeContinues opts \<Rightarrow> (\<forall>opt \<in> set opts. ls_set lib socket opt = None)
        \<and> (\<exists>c. get (sto_clients s) (c_id c) = Some c \<and> c_enabled c \<and> i \<in> set (c_allowed_relay_ids c)
          \<and> resolve_client (sw_worker y) (c_string (case stream of None \<Rightarrow> [] | Some t \<Rightarrow> t)) = Inr (c_id c)
          \<and> opts = (if c_encryption_mode c = encryption_aes256
              then [SrtoSender 1, SrtoEnforcedEncryption 1, SrtoPbKeyLen 32, SrtoPassphrase (client_passphrase (sto_master_key s) c)]
              else []))"
proof (cases "ls_name lib peer")
  case None
  then show ?thesis using assms(4) by (auto simp: listener_callback_def refusal_codes_def)
next
  case (Some name)
  obtain host port where n: "ls_name lib peer = Some (host, port)" using Some by (cases name) simp
  let ?stream = "c_string (case stream of None \<Rightarrow> [] | Some t \<Rightarrow> t)"
  note ok = store_reachable_ok [OF assms(1)]
  obtain secret d w' where a: "authorize now (c_string host) port ?stream (sw_worker y) = ((secret, d), w')"
    by (metis surj_pair)
  show ?thesis
  proof (cases "d = 0")
    case False
    then have "result = CallerRejected d" using assms(4) by (simp add: listener_callback_def n go_srt_authorize_def a)
    then show ?thesis using authorize_code [OF a] False by (auto simp: refusal_codes_def)
  next
    case True
    obtain k acl where k: "resolve_client (sw_worker y) ?stream = Inr k" "get (w_clients (sw_worker y)) k = Some acl"
      "secret = wc_passphrase (acl_config acl)"
      using granted_entitled [OF worker_reachable_ok [OF assms(3)] c_string_plain a [unfolded True]] by blast
    obtain c where c: "get (sto_clients s) k = Some c" "c_id c = k" "c_enabled c" "i \<in> set (c_allowed_relay_ids c)"
      "acl_config acl = SrtStore.worker_client (sto_master_key s) c"
      by (rule known_client_stored [OF ok assms(2,3) k(2)])
    have secret: "secret = (if c_encryption_mode c = encryption_aes256 then client_passphrase (sto_master_key s) c else [])"
      by (simp add: k(3) c(5) SrtStore.worker_client_def)
    then have s: "length secret + 1 \<le> 80" "c_string (secret @ [CHR 0x00]) = secret"
      by (simp_all add: passphrase_length c_string_terminated passphrase_plain)
    have "result = (case set_options lib socket (encryption_options secret) of
        Some e \<Rightarrow> CallerRejected 500 | None \<Rightarrow> HandshakeContinues (encryption_options secret))"
      using assms(4) s by (simp add: listener_callback_def n go_srt_authorize_def a True Let_def split: option.splits)
    moreover have "encryption_options secret = (if c_encryption_mode c = encryption_aes256
        then [SrtoSender 1, SrtoEnforcedEncryption 1, SrtoPbKeyLen 32, SrtoPassphrase (client_passphrase (sto_master_key s) c)] else [])"
      using passphrase_length(1) [of "sto_master_key s" c] by (auto simp: secret encryption_options_def)
    moreover have "\<exists>opt. ls_set lib socket opt \<noteq> None" if "set_options lib socket opts = Some e" for opts e
      using that set_options_None [of lib socket opts] by auto
    ultimately show ?thesis using c k(1) by (auto simp: set_options_None split: option.split if_splits)
  qed
qed

subsection \<open>From the handshake to the session\<close>

lemma reserve_pending:
  "reserve key p acl w = (r, w') \<Longrightarrow> r = Reserved secret \<or> r = AlreadyPending secret \<Longrightarrow> get (w_pending w') key \<noteq> None"
  by (auto simp: reserve_def split: option.splits if_splits)

lemma authorize_pending:
  assumes "authorize now ip port stream w = ((secret, 0), w')"
  shows "get (w_pending w') (attempt_key ip port stream) \<noteq> None"
proof (cases "pending_secret (attempt_key ip port stream) w")
  case (Some x)
  then show ?thesis using assms by (auto simp: authorize_def pending_secret_def split: option.splits)
next
  case None
  obtain v where "admit now ip port stream v = ((secret, 0), w')" using authorize_admits [OF assms None] by blast
  from admit_granted [OF this] show ?thesis using reserve_pending by (metis (lifting))
qed

lemma authorize_ok: "worker_ok w \<Longrightarrow> plain_ip ip \<Longrightarrow> worker_ok (snd (authorize now ip port stream w))"
proof -
  assume ok: "worker_ok w" and ip: "plain_ip ip"
  have "worker_change\<^sup>*\<^sup>* w v \<Longrightarrow> worker_ok v" for v
    by (induction rule: rtranclp_induct) (auto simp: ok intro: worker_change_ok)
  then show ?thesis using authorize_changes [OF ip] by blast
qed

text \<open>
  The address and the Stream ID are read once for the callback and once more when the
  connection is accepted, from buffers of different sizes. They agree on what libsrt can
  report (at most 512 bytes), zero bytes in it included, so that the accepted connection
  finds the attempt the callback left and becomes a session.
\<close>

theorem handshake_becomes_session:
  assumes "worker_ok w" and "listener_callback lib now socket peer stream (Some w) = (HandshakeContinues opts, Some w')"
    and "ls_accept lib listener = Inr (accepted_socket, peer)" and "ls_stream_id lib accepted_socket = stream"
    and "\<And>t. stream = Some t \<Longrightarrow> length t \<le> 512"
  shows "\<exists>a p. native_accept lib listener = (Inr a, [])
    \<and> get (w_pending w') (attempt_key (ac_ip a) (ac_port a) (ac_stream a)) = Some p
    \<and> resolve_client w' (ac_stream a) = Inr (pa_client p)
    \<and> (\<exists>s. get (w_sessions (accept_one later (Some data) a w')) (''srt_'' @ encode64 data) = Some s
        \<and> s_client_id (cs_data s) = pa_client p \<and> cs_socket s = accepted_socket)"
proof -
  obtain host port where n: "ls_name lib peer = Some (host, port)"
    using assms(2) by (auto simp: listener_callback_def split: option.splits)
  let ?stream = "c_string (case stream of None \<Rightarrow> [] | Some t \<Rightarrow> t)"
  obtain secret d v where a: "authorize now (c_string host) port ?stream w = ((secret, d), v)" by (metis surj_pair)
  have g: "d = 0" "v = w'"
    using assms(2) by (auto simp: listener_callback_def n go_srt_authorize_def a Let_def split: if_splits option.splits)
  define b where "b = \<lparr>ac_socket = accepted_socket, ac_ip = c_string host, ac_port = port, ac_stream = ?stream,
    ac_version = peer_version (case ls_version lib accepted_socket of None \<Rightarrow> 0 | Some v \<Rightarrow> v),
    ac_encrypted = (ls_secured lib accepted_socket = Some True)\<rparr>"
  have acc: "native_accept lib listener = (Inr b, [])"
    using assms(3-5) n by (auto simp: native_accept_def b_def split: option.split)
  obtain p where p: "get (w_pending w') (attempt_key (c_string host) port ?stream) = Some p"
    using authorize_pending [OF a [unfolded g]] by auto
  have "entitled w' (pa_client p) (c_string host) ?stream"
    using authorize_ok [OF assms(1) c_string_plain, of now host port ?stream] pending_entitled [OF _ c_string_plain p] by (simp add: a g)
  then have "resolve_client w' (ac_stream b) = Inr (pa_client p)" by (simp add: entitled_def b_def)
  moreover have "get (w_sessions (accept_one later (Some data) b w')) (''srt_'' @ encode64 data)
      = Some \<lparr>cs_socket = accepted_socket, cs_queue = [], cs_data = new_session later (''srt_'' @ encode64 data)
          (r_id (wcfg_relay (w_config w'))) (pa_client p) b, cs_drop_burst = 0, cs_app_drops = 0, cs_fatal = False\<rparr>"
    using p by (simp add: accept_one_def b_def random_session_id_def add_session_def emit_def new_session_def Let_def)
  ultimately show ?thesis using acc p by (intro exI [of _ b] exI [of _ p]) (simp add: b_def new_session_def)
qed

subsection \<open>Sockets\<close>

text \<open>A socket that was made is handed over, or closed again when anything after it fails.\<close>

lemma open_leaks_nothing:
  assumes "\<And>socket. ls_create lib = Inr socket \<Longrightarrow> 0 \<le> socket"
  shows "native_open lib e = (Inr socket, closed) \<Longrightarrow> ls_create lib = Inr socket \<and> closed = []"
    and "native_open lib e = (Inl text, closed) \<Longrightarrow> closed = (case ls_create lib of Inl _ \<Rightarrow> [] | Inr s \<Rightarrow> [s])"
  using assms
  by (cases e; auto simp: native_open_caller_def native_open_listener_def socket_or_error_def neo_srt_caller_open_def
      neo_srt_listener_open_def open_failed_def split: sum.splits option.splits if_splits)+

text \<open>A publish relay of the store that is encrypted never connects without its passphrase.\<close>

theorem publish_connects_encrypted:
  assumes "store_reachable enc s" and "get (sto_relays s) i = Some r" and "r_direction r = direction_publish"
    and "r_encryption_mode r = encryption_aes256" and "\<And>e. re_open env e = fst (native_open lib e)"
    and "run_begin now env (worker_input s r) = Inr (w, socket)" and "\<And>socket. ls_create lib = Inr socket \<Longrightarrow> 0 \<le> socket"
  shows "ls_set lib socket (SrtoPbKeyLen 32) = None \<and> ls_set lib socket (SrtoPassphrase (relay_passphrase (sto_master_key s) r)) = None"
proof -
  have i: "r_id r = i" using store_reachable_ok [OF assms(1)] assms(2) by (auto simp: store_ok_def store_invariants)
  let ?p = "relay_passphrase (sto_master_key s) r"
  have p: "wcfg_publish_passphrase (worker_input s r) = ?p" "wcfg_relay (worker_input s r) = r"
    using assms(2-4) by (simp_all add: worker_input_def publish_passphrase_def publishes_encrypted_def i)
  have c: "c_string ?p = ?p" "?p \<noteq> []"
    using passphrase_plain(2) passphrase_length(2) [of "sto_master_key s" r] by (auto simp: c_string_def takeWhile_eq_all_conv)
  have "fst (native_open lib (endpoint_of (worker_input s r))) = Inr socket"
    using assms(5,6) by (auto simp: run_begin_def split: sum.splits option.splits)
  then show ?thesis
    using assms(3,7)
    by (auto simp: endpoint_of_def Let_def p native_open_caller_def socket_or_error_def neo_srt_caller_open_def open_failed_def c
        set_options_None simp del: set_options.simps split: sum.splits option.splits if_splits)
qed

end
