(* ===== verification/SrtStoreDemo.thy ===== *)
theory SrtStoreDemo
  imports SrtStoreProps
begin

text \<open>
  A store with one listener relay and one client assigned to it, reached from a fresh store,
  and the properties of \<open>SrtStoreProps\<close> applied to it.
\<close>

definition demo_relay :: relay where
  "demo_relay = zero_relay\<lparr>r_id := ''live'', r_input_url := ''udp://239.1.1.1:5000'', r_port := 9000\<rparr>"

definition demo_listener :: relay where
  "demo_listener = demo_relay\<lparr>r_name := ''live'', r_direction := direction_listener, r_bind_address := ''0.0.0.0'',
     r_latency_ms := 800, r_payload_size := 1316, r_max_clients := 16, r_input_timeout_seconds := 10\<rparr>"

definition demo_publish :: relay where
  "demo_publish = demo_listener\<lparr>r_direction := direction_publish, r_destination_address := ''10.0.0.9'',
     r_destination_port := 9000, r_stream_id := ''feed'', r_encryption_mode := encryption_none\<rparr>"

definition demo_client :: client where
  "demo_client = zero_client\<lparr>c_id := ''alice'', c_enabled := True, c_allowed_relay_ids := [''live''],
     c_allowed_cidrs := [''10.0.0.0/8'']\<rparr>"

definition demo_stored :: client where
  "demo_stored = demo_client\<lparr>c_name := ''alice'', c_encryption_mode := encryption_aes256, c_max_sessions := 1,
     c_key_version := 1, c_created_at := Nanos 2, c_updated_at := Nanos 2\<rparr>"

definition demo_state :: "session list \<Rightarrow> store" where
  "demo_state xs = (empty_store ''/state'' [] 7 [] (Some ([demo_listener], [demo_stored])))\<lparr>
     sto_relays := [(''live'', demo_listener)], sto_clients := [(''alice'', demo_stored)],
     sto_states := [(''live'', zero_relay_state\<lparr>st_status := ''stopped'', st_updated_at := Nanos 1\<rparr>)],
     sto_sessions := map (\<lambda>x. (s_id x, x)) xs\<rparr>"

lemma demo_normalized1: "normalize_relay demo_relay = Inr demo_listener"
  by code_simp

lemma demo_normalized2: "normalize_relay demo_publish = Inr (demo_publish\<lparr>r_key_version := 1\<rparr>)"
  by code_simp

lemmas demo_normalized = demo_normalized1 demo_normalized2

lemma demo_client_normalized:
  "normalize_client [(''live'', demo_listener)] (demo_client\<lparr>c_created_at := Nanos 2, c_key_version := 1, c_updated_at := Nanos 2\<rparr>)
    = Inr demo_stored"
  by code_simp

lemmas demo_defs = demo_relay_def demo_listener_def demo_publish_def demo_client_def demo_stored_def zero_relay_def
  zero_client_def mode_defs

lemma demo_upsert:
  "snd (upsert_relay (Nanos 1) True demo_relay (empty_store ''/state'' [] 7 [] None))
    = (empty_store ''/state'' [] 7 [] (Some ([demo_listener], [])))\<lparr>sto_relays := [(''live'', demo_listener)],
        sto_states := [(''live'', zero_relay_state\<lparr>st_status := ''stopped'', st_updated_at := Nanos 1\<rparr>)]\<rparr>"
proof -
  have "r_id demo_listener = ''live''" "\<not> r_allow_missing_stream_id demo_listener"
    "\<not> publishes_encrypted demo_listener"
    by (simp_all add: demo_defs publishes_encrypted_def)
  then show ?thesis
    by (simp add: upsert_relay_def demo_normalized empty_store_def validate_default_client_def commit_relay_def
        save_and_emit_def save_locked_def emit_locked_def get_def put_def has_key_def sorted_vals_def
        sorted_keys_def keys_def List.map_filter_simps)
qed

lemma demo_create:
  "snd (create_client (Nanos 2) True demo_client
      (snd (upsert_relay (Nanos 1) True demo_relay (empty_store ''/state'' [] 7 [] None)))) = demo_state []"
proof -
  have "c_id demo_client = ''alice''" "c_id demo_stored = ''alice''" "r_id demo_listener = ''live''"
    "\<not> r_allow_missing_stream_id demo_listener"
    by (simp_all add: demo_defs)
  then show ?thesis
    unfolding demo_upsert
    by (simp add: create_client_def upsert_client_with_def demo_client_normalized stamp_client_def Let_def
        default_broken_def empty_store_def demo_state_def save_and_emit_def save_locked_def emit_locked_def
        get_def put_def sorted_vals_def sorted_keys_def keys_def List.map_filter_simps)
qed

lemma demo_reachable: "store_reachable enc (demo_state [])"
proof -
  have "store_reachable enc (snd (upsert_relay (Nanos 1) True demo_relay (empty_store ''/state'' [] 7 [] None)))"
    by (rule store_reachable.operation [OF store_reachable.fresh step_upsert_relay])
  then show ?thesis
    unfolding demo_create [symmetric] by (rule store_reachable.operation [OF _ step_create_client])
qed

lemma demo_get [simp]:
  "get (sto_relays (demo_state xs)) i = (if i = ''live'' then Some demo_listener else None)"
  "get (sto_clients (demo_state xs)) i = (if i = ''alice'' then Some demo_stored else None)"
  "sto_path (demo_state xs) = ''/state''" "sto_master_key (demo_state xs) = []"
  "sto_retention (demo_state xs) = 7" "sto_audit (demo_state xs) = []"
  by (simp_all add: demo_state_def empty_store_def get_def)

lemma store_references_valid_witness:
  "store_reachable sample_enc (demo_state []) \<and> r_id demo_listener = ''live'' \<and> client_shape demo_stored"
  using store_references_valid [OF demo_reachable [of sample_enc]] demo_reachable by simp



lemma publish_update_breaks_restart_witness:
  "\<exists>view. fst (upsert_relay (Nanos 3) True demo_publish (demo_state [])) = Inr view
    \<and> (\<forall>t. new_store (Nanos 9) ''/state'' [] 7 [] True
          (sto_file (snd (upsert_relay (Nanos 3) True demo_publish (demo_state [])))) \<noteq> Inr t)"
proof -
  let ?n = "demo_publish\<lparr>r_key_version := 1\<rparr>"
  let ?f = "?n\<lparr>r_key_version := 0\<rparr>"
  have "r_id ?n = ''live''" "r_key_version demo_listener = 0" by (simp_all add: demo_defs)
  moreover have "find (listener_clash ?n) (sto_relays (demo_state [])) = None"
    by (simp add: demo_state_def listener_clash_def demo_defs)
  moreover have "validate_default_client (sto_clients (demo_state [])) ?n = Inr ()"
    by (simp add: validate_default_client_def demo_defs)
  moreover have "\<not> publishes_encrypted ?f" by (simp add: publishes_encrypted_def demo_defs)
  ultimately obtain view where v: "fst (upsert_relay (Nanos 3) True demo_publish (demo_state [])) = Inr view"
    "v_config view = ?f"
    by (simp add: upsert_relay_def demo_normalized Let_def commit_relay_def save_and_emit_def save_locked_def)
  have "r_id (v_config view) = ''live''" "r_direction (v_config view) = direction_publish"
    "''live'' \<in> set (c_allowed_relay_ids demo_stored)"
    by (simp_all add: v(2) demo_defs)
  then show ?thesis
    using publish_update_breaks_restart [OF demo_reachable [of sample_enc] _ _ _ v(1), of "''alice''" demo_stored "''live''"]
      v(1) by simp
qed

lemma passphrases_separate_witness:
  "length (client_passphrase [] demo_stored) = 43
    \<and> client_message demo_stored \<noteq> client_message (demo_stored\<lparr>c_key_version := 2\<rparr>)"
proof -
  have "id_pattern (c_id demo_stored)" "id_pattern (r_id demo_listener)"
    by (simp_all add: demo_defs id_pattern_def is_alnum_def)
  then show ?thesis
    using passphrases_separate [of demo_stored "demo_stored\<lparr>c_key_version := 2\<rparr>" demo_listener demo_listener "[]"]
    by (simp add: demo_stored_def)
qed

lemma demo_save:
  "save_and_emit True e a (demo_state xs) = (Inr a, emit_locked e (demo_state xs\<lparr>sto_file := sto_file (snd (save_locked True (demo_state xs)))\<rparr>))"
  by (simp add: save_and_emit_def save_locked_def)

lemma rotation_replaces_the_key_witness:
  "\<exists>cred. fst (rotate_client_key (Nanos 3) True ''alice'' (demo_state [])) = Inr cred
    \<and> c_key_version (cc_client cred) = 2 \<and> client_message (cc_client cred) \<noteq> client_message demo_stored"
proof -
  have "c_encryption_mode demo_stored \<noteq> encryption_none" by (simp add: demo_defs)
  then obtain cred where c: "fst (rotate_client_key (Nanos 3) True ''alice'' (demo_state [])) = Inr cred"
    by (simp add: rotate_client_key_def Let_def save_and_emit_def save_locked_def)
  then show ?thesis
    using rotation_replaces_the_key [OF demo_reachable [of sample_enc] c, of demo_stored]
    by (auto simp: demo_stored_def)
qed

lemma demo_create_fst:
  assumes "sto_relays s = [(''live'', demo_listener)]" "get (sto_clients s) ''alice'' = None"
  shows "\<exists>cred. fst (create_client (Nanos 2) True demo_client s) = Inr cred \<and> cc_client cred = demo_stored"
proof -
  have "c_id demo_client = ''alice''" "\<not> r_allow_missing_stream_id demo_listener"
    by (simp_all add: demo_defs)
  then show ?thesis
    using assms
    by (simp add: create_client_def upsert_client_with_def demo_client_normalized stamp_client_def Let_def
        default_broken_def save_and_emit_def save_locked_def)
qed

lemma recreated_client_gets_first_key_witness:
  "\<exists>cred cred'. fst (create_client (Nanos 2) True demo_client
        (snd (upsert_relay (Nanos 1) True demo_relay (empty_store ''/state'' [] 7 [] None)))) = Inr cred
    \<and> fst (create_client (Nanos 2) True demo_client (snd (delete_client (Nanos 4) True ''alice'' (demo_state [])))) = Inr cred'
    \<and> cc_passphrase cred = cc_passphrase cred'"
proof -
  let ?s = "snd (upsert_relay (Nanos 1) True demo_relay (empty_store ''/state'' [] 7 [] None))"
  let ?t = "snd (delete_client (Nanos 4) True ''alice'' (demo_state []))"
  have "\<not> r_allow_missing_stream_id demo_listener" by (simp add: demo_defs)
  then have t: "sto_relays ?t = [(''live'', demo_listener)]" "get (sto_clients ?t) ''alice'' = None"
    "sto_master_key ?t = []"
    by (simp_all add: delete_client_def has_key_def) (simp_all add: demo_state_def empty_store_def)
  have s: "sto_relays ?s = [(''live'', demo_listener)]" "get (sto_clients ?s) ''alice'' = None"
    "sto_master_key ?s = []"
    unfolding demo_upsert by (simp_all add: empty_store_def)
  obtain cred cred' where c: "fst (create_client (Nanos 2) True demo_client ?s) = Inr cred" "cc_client cred = demo_stored"
    "fst (create_client (Nanos 2) True demo_client ?t) = Inr cred'" "cc_client cred' = demo_stored"
    using demo_create_fst [OF s(1,2)] demo_create_fst [OF t(1,2)] by blast
  then show ?thesis
    using recreated_client_gets_first_key [OF c(1,3)] s(3) t(3) by (auto simp: demo_stored_def mode_defs)
qed

lemma prune_keeps_newest_witness:
  "length (completed_sessions (prune_sessions (demo_state []))) \<le> 1000"
  using prune_keeps_newest [OF demo_reachable [of sample_enc]] by blast

lemma close_relay_sessions_closes_all_witness:
  "fst (close_relay_sessions sample_enc (\<lambda>_. sample_env) (Nanos 9) ''live'' ''relay stopped'' (Nanos 8) (demo_state [])) = []"
  using close_relay_sessions_closes_all [OF demo_reachable [of sample_enc],
      of "Nanos 8" "Nanos 9" "\<lambda>_. sample_env" "''live''" "''relay stopped''"]
  by (auto simp: demo_state_def Let_def split: prod.splits)

lemma metrics_track_the_input_witness:
  "\<exists>st. get (sto_states (apply_worker_event sample_enc sample_env sample_env (Nanos 9) ''live''
        (zero_worker_event\<lparr>we_type := ''relay_metrics'', we_reason := ''input is stalled''\<rparr>) (demo_state []))) ''live''
      = Some st \<and> st_status st = ''degraded''"
  using metrics_track_the_input [of "zero_worker_event\<lparr>we_type := ''relay_metrics'', we_reason := ''input is stalled''\<rparr>"
      sample_enc sample_env sample_env "Nanos 9" "''live''" "demo_state []"]
  by auto

lemma master_key_survives_restart_witness:
  "\<exists>content. load_or_create_master_key ''/key'' (FileContent content) None False = (Inr (replicate 32 7), None)"
  using master_key_survives_restart [of "''/key''" "replicate 32 7" None False] by auto

lemma delete_relay_guarded_witness:
  "has_key (sto_relays (snd (upsert_relay (Nanos 1) True demo_relay (empty_store ''/state'' [] 7 [] None)))) ''live''
    \<and> get (sto_relays (snd (delete_relay (Nanos 2) True ''live''
        (snd (upsert_relay (Nanos 1) True demo_relay (empty_store ''/state'' [] 7 [] None)))))) ''live'' = None"
proof -
  let ?s = "snd (upsert_relay (Nanos 1) True demo_relay (empty_store ''/state'' [] 7 [] None))"
  have r: "store_reachable sample_enc ?s"
    by (rule store_reachable.operation [OF store_reachable.fresh step_upsert_relay])
  have "fst (delete_relay (Nanos 2) True ''live'' ?s) = Inr True"
    unfolding demo_upsert
    by (simp add: delete_relay_def has_key_def get_def state_locked_def save_and_emit_def save_locked_def empty_store_def)
  then show ?thesis using delete_relay_guarded [OF r] by simp
qed

end
