(* ===== verification/SrtManagerDemo.thy ===== *)
theory SrtManagerDemo
  imports SrtManagerProps SrtStoreDemo
begin

text \<open>
  A manager with one running worker, reached from a store with one enabled relay, and the
  properties of \<open>SrtManagerProps\<close> applied to it.
\<close>

definition live_relay :: relay where
  "live_relay = demo_listener\<lparr>r_enabled := True\<rparr>"

definition live_store :: store where
  "live_store = snd (upsert_relay (Nanos 3) True (demo_relay\<lparr>r_enabled := True\<rparr>) (demo_state []))"

lemma live_normalized: "normalize_relay (demo_relay\<lparr>r_enabled := True\<rparr>) = Inr live_relay"
  by code_simp

lemma live_relays: "get (sto_relays live_store) i = (if i = ''live'' then Some live_relay else None)"
proof -
  have "find (listener_clash live_relay) (sto_relays (demo_state [])) = None"
    by (simp add: demo_state_def listener_clash_def live_relay_def demo_defs)
  moreover have "validate_default_client (sto_clients (demo_state [])) live_relay = Inr ()"
    by (simp add: validate_default_client_def live_relay_def demo_defs)
  moreover have "\<not> publishes_encrypted live_relay" "r_id live_relay = ''live''"
    "live_relay\<lparr>r_key_version := r_key_version demo_listener\<rparr> = live_relay"
    by (simp_all add: publishes_encrypted_def live_relay_def demo_defs)
  ultimately show ?thesis
    by (simp add: live_store_def upsert_relay_def live_normalized commit_relay_def Let_def)
qed

lemma live_store_reachable: "store_reachable enc live_store"
  unfolding live_store_def by (rule store_reachable.operation [OF demo_reachable step_upsert_relay])

definition spawn_ok :: spawn_env where
  "spawn_ok = \<lparr>se_path_error = None, se_process = Inr 7\<rparr>"

definition live_job :: relay_job where
  "live_job = \<lparr>job_token = 0, job_pid = 7, job_stopping = False\<rparr>"

definition live_manager :: manager where
  "live_manager = start_publish (Nanos 5) ''live'' False 7
     ((new_manager ''srt'' live_store)\<lparr>mgr_jobs := [(''live'', live_job)], mgr_next := 1\<rparr>)"

definition live_system :: mgr_system where
  "live_system = (initial_system ''srt'' live_store)\<lparr>y_mgr := live_manager, y_waiting := [(''live'', 0)]\<rparr>"

lemma live_enabled: "r_enabled live_relay"
  by (simp add: live_relay_def)

lemma live_manager_facts [simp]:
  "mgr_jobs live_manager = [(''live'', live_job)]" "mgr_timers live_manager = []" "mgr_restarts live_manager = []"
  "sto_relays (mgr_store live_manager) = sto_relays live_store"
  by (simp_all add: live_manager_def start_publish_def new_manager_def)

lemma live_reachable: "mgr_reachable enc live_system"
proof -
  let ?y = "initial_system ''srt'' live_store"
  let ?m = "(new_manager ''srt'' live_store)\<lparr>mgr_jobs := [(''live'', live_job)], mgr_next := 1\<rparr>"
  have "start_claim (Nanos 4) spawn_ok ''live'' False (y_mgr ?y) = (Inr (live_job, worker_input live_store live_relay), ?m)"
    by (simp add: start_claim_def initial_system_def new_manager_def get_relay_def live_relays live_enabled
        spawn_ok_def has_key_def live_job_def put_def del_def Let_def)
  then have "mgr_step enc ?y (begin_start ''live'' False live_job ?m ?y)"
    by (rule start_begins)
  moreover have "mgr_step enc (begin_start ''live'' False live_job ?m ?y) live_system"
    using start_ends [of "''live''" 0 False 7 "begin_start ''live'' False live_job ?m ?y" enc "Nanos 5"]
    by (simp add: begin_start_def live_job_def live_system_def live_manager_def initial_system_def)
  ultimately show ?thesis
    using mgr_reachable.initial [OF live_store_reachable] mgr_reachable.next_step by blast
qed

lemma live_system_facts [simp]:
  "y_mgr live_system = live_manager" "y_waiting live_system = [(''live'', 0)]" "y_starting live_system = []"
  "y_stopping live_system = []" "y_exited live_system = []"
  by (simp_all add: live_system_def initial_system_def)

lemma live_job_facts: "get (mgr_jobs live_manager) ''live'' = Some live_job" "\<not> job_stopping live_job"
    "get (sto_relays (mgr_store live_manager)) ''live'' = Some live_relay"
  by (simp_all add: get_def live_job_def live_relays [unfolded get_def])

lemma one_worker_per_relay_witness:
  "mgr_reachable sample_enc live_system \<and> is_running ''live'' live_manager
    \<and> fst (wait_claim ''live'' 0 live_manager) \<noteq> None"
  using one_worker_per_relay [OF live_reachable [of sample_enc]] live_reachable [of sample_enc]
  by (simp add: processes_def)

lemma stop_race_sticks_witness:
  "\<exists>z. (mgr_step sample_enc)\<^sup>*\<^sup>* live_system z \<and> \<not> is_running ''live'' (y_mgr z)
    \<and> fst (delete_relay (Nanos 9) True ''live'' (mgr_store (y_mgr z))) = Inl RelayNotStopped"
  using stop_race_sticks [OF live_reachable [of sample_enc], of "''live''" 0 live_relay "Nanos 9" True]
  by (auto simp: live_relays)



lemma restart_returns_witness:
  "\<exists>r. restart_relay (Nanos 9) True spawn_ok ''live''
     (map (\<lambda>k. (time_add (Nanos 9) (int k * 50000000), \<lambda>m. m)) [0..<121]) live_manager = Some r"
  by (rule restart_returns) (simp_all add: less_eq_gotime_def)

lemma stop_during_backoff_ignored_witness:
  "\<exists>m job input m'. RestartTimer ''live'' \<in> set (mgr_timers m)
    \<and> stop_relay (Nanos 10) True ''live'' m = (Inr (), m)
    \<and> restart_timer (Nanos 11) spawn_ok ''live'' m = (Inr (job, input), m') \<and> is_running ''live'' m'"
proof -
  let ?m = "arm (RestartTimer ''live'') (live_manager\<lparr>mgr_jobs := []\<rparr>)"
  have "\<not> is_running ''live'' ?m" "RestartTimer ''live'' \<in> set (mgr_timers ?m)"
    "get (sto_relays (mgr_store ?m)) ''live'' = Some live_relay"
    by (simp_all add: is_running_def has_key_def arm_def live_relays)
  then show ?thesis
    using stop_during_backoff_ignored [of "''live''" ?m live_relay spawn_ok 7 "Nanos 10" True "Nanos 11"] live_enabled
    by (auto simp: spawn_ok_def)
qed

end
