(* ===== verification/SrtWorkerDemo.thy ===== *)
theory SrtWorkerDemo
  imports SrtLink SrtManagerDemo
begin

text \<open>
  A worker with one client that connects, reached step by step, and the properties of the
  worker and of its link to the daemon applied to it.
\<close>

definition worker_relay :: relay where
  "worker_relay = zero_relay\<lparr>r_id := ''live'', r_direction := direction_listener, r_input_url := ''udp://239.1.1.1:5000'',
     r_payload_size := 1316, r_max_clients := 16, r_input_timeout_seconds := 10\<rparr>"

definition alice :: worker_client where
  "alice = \<lparr>wc_id = ''alice'', wc_encryption_mode = encryption_aes256, wc_passphrase = ''0123456789'',
     wc_allowed_cidrs = [''10.0.0.0/8''], wc_max_sessions = 1\<rparr>"

definition demo_config :: worker_config where
  "demo_config = \<lparr>wcfg_relay = worker_relay, wcfg_publish_passphrase = [], wcfg_clients = [alice]\<rparr>"

definition alice_acl :: client_acl where
  "alice_acl = \<lparr>acl_config = alice, acl_networks = [\<lparr>net_ip = [10, 0, 0, 0], net_mask = [255, 0, 0, 0]\<rparr>]\<rparr>"

definition fresh_worker :: worker where
  "fresh_worker = \<lparr>w_config = demo_config, w_clients = [(''alice'', alice_acl)], w_events = [], w_sessions = [],
     w_pending = [], w_reservations = [], w_attempts = [], w_input_bytes = 0, w_input_packets = 0,
     w_last_input = Nanos 0, w_continuity = 0, w_stopping = False, w_closing = [], w_timers = [],
     w_errors = [], w_closed = []\<rparr>"

lemma demo_new_worker: "new_worker (Nanos 0) demo_config = Inr fresh_worker"
  by code_simp

abbreviation "demo_stream \<equiv> ''#!::u=alice,r=live''"

definition demo_attempt :: pending_attempt where
  "demo_attempt = \<lparr>pa_client = ''alice'', pa_ip = ''10.0.0.7'', pa_port = 4000, pa_stream = demo_stream\<rparr>"

definition demo_accepted :: accepted where
  "demo_accepted = \<lparr>ac_socket = 3, ac_ip = ''10.0.0.7'', ac_port = 4000, ac_stream = demo_stream,
     ac_version = ''1.5.3'', ac_encrypted = True\<rparr>"

definition demo_session :: session where
  "demo_session = new_session (Nanos 9) ''srt_AA'' ''live'' ''alice'' demo_accepted"

definition open_worker :: "worker_event list \<Rightarrow> worker" where
  "open_worker es = fresh_worker\<lparr>w_events := es, w_reservations := [(''alice'', 0)],
     w_timers := [attempt_key ''10.0.0.7'' 4000 demo_stream],
     w_sessions := [(''srt_AA'', \<lparr>cs_socket = 3, cs_queue = [], cs_data = demo_session, cs_drop_burst = 0,
       cs_app_drops = 0, cs_fatal = False\<rparr>)]\<rparr>"

definition demo_event :: worker_event where
  "demo_event = session_event ''session_connected'' (Nanos 9) [] demo_session"

lemma demo_resolve: "client_id_from_stream_id demo_stream = Inr ''alice''" "parse_ip ''10.0.0.7'' = Some (v4_prefix @ [10, 0, 0, 7])"
  "ip_allowed (v4_prefix @ [10, 0, 0, 7]) (acl_networks alice_acl)"
  by code_simp+

lemma fresh_facts [simp]:
  "w_config fresh_worker = demo_config" "w_clients fresh_worker = [(''alice'', alice_acl)]" "w_sessions fresh_worker = []"
  "w_pending fresh_worker = []" "w_events fresh_worker = []" "w_attempts fresh_worker = []" "w_closing fresh_worker = []"
  "w_reservations fresh_worker = []" "w_timers fresh_worker = []"
  by (simp_all add: fresh_worker_def)

lemma demo_id: "random_session_id (Some [0]) = Some ''srt_AA''"
  by code_simp

lemma demo_opened:
  "worker_reachable demo_config \<lparr>sw_worker = open_worker [demo_event], sw_written = []\<rparr>"
proof -
  let ?key = "attempt_key ''10.0.0.7'' 4000 demo_stream"
  let ?w1 = "snd (reserve ?key demo_attempt alice_acl fresh_worker)"
  have w1: "?w1 = fresh_worker\<lparr>w_pending := [(?key, demo_attempt)], w_reservations := [(''alice'', 1)], w_timers := [?key]\<rparr>"
    by (simp add: reserve_def demo_attempt_def reserved_def sessions_of_def alice_acl_def alice_def demo_config_def
        worker_relay_def put_def)
  have "worker_change fresh_worker ?w1"
    unfolding demo_attempt_def
    by (rule reserves [OF _ _ _ demo_resolve(2,3)]) (simp_all add: plain_ip_def resolve_client_def demo_resolve get_def)
  then have 1: "worker_reachable demo_config \<lparr>sw_worker = ?w1, sw_written = []\<rparr>"
    using worker_reachable.steps [OF worker_reachable.starts [OF demo_new_worker] worker_step.changes] by simp
  have "accept_one (Nanos 9) (Some [0]) demo_accepted ?w1 = open_worker [demo_event]"
    unfolding w1
    by (simp add: accept_one_def demo_id demo_accepted_def Let_def get_def release_def reserved_def add_session_def emit_def
        session_event_def open_worker_def demo_event_def demo_session_def demo_attempt_def new_session_def put_def del_def
        demo_config_def worker_relay_def)
  moreover have "worker_change ?w1 (accept_one (Nanos 9) (Some [0]) demo_accepted ?w1)"
    by (rule accepts) (simp add: plain_ip_def demo_accepted_def)
  ultimately show ?thesis
    using worker_reachable.steps [OF 1 worker_step.changes] by simp
qed

lemma open_worker_facts [simp]:
  "w_events (open_worker es) = es" "(open_worker es)\<lparr>w_events := fs\<rparr> = open_worker fs" "w_pending (open_worker es) = []"
  "w_config (open_worker es) = demo_config" "w_clients (open_worker es) = [(''alice'', alice_acl)]" "w_closing (open_worker es) = []"
  "keys (w_sessions (open_worker es)) = [''srt_AA'']"
  by (simp_all add: open_worker_def keys_def)

lemma demo_written: "worker_reachable demo_config \<lparr>sw_worker = open_worker [], sw_written = [demo_event]\<rparr>"
  using worker_reachable.steps [OF demo_opened worker_step.writes [of _ demo_event "[]"]] by simp

lemma session_limits_hold_witness:
  "int (length (w_sessions (open_worker [demo_event])) + length (w_pending (open_worker [demo_event]))) \<le> 16
    \<and> reserved (open_worker [demo_event]) ''alice'' = 0"
  using session_limits_hold [OF demo_opened]
  by (simp add: Let_def demo_config_def worker_relay_def pending_of_def)

lemma alice_facts: "wc_passphrase (acl_config alice_acl) = ''0123456789''" "wc_max_sessions (acl_config alice_acl) = 1"
  by (simp_all add: alice_acl_def alice_def)

lemma demo_authorize: "fst (authorize (Nanos 70000000000) ''10.0.0.7'' 4001 demo_stream fresh_worker) = (''0123456789'', 0)"
proof -
  let ?w = "fresh_worker\<lparr>w_attempts := [(''10.0.0.7'', \<lparr>aw_started = Nanos 70000000000, aw_count = 1, aw_reported = False\<rparr>)]\<rparr>"
  have a: "allow_connection_attempt ''10.0.0.7'' (Nanos 70000000000) fresh_worker = ((True, False), ?w)"
    by (simp add: allow_connection_attempt_def count_attempt_def max_tracked_ips_def put_def)
  have "pending_secret (attempt_key ''10.0.0.7'' 4001 demo_stream) fresh_worker = None"
    by (simp add: pending_secret_def)
  then show ?thesis
    by (simp add: authorize_def a admit_def resolve_client_def demo_resolve emit_def get_def reserve_def reserved_def
        sessions_of_def alice_facts demo_config_def worker_relay_def)
qed

lemma only_entitled_callers_admitted_witness:
  "\<exists>w'. authorize (Nanos 70000000000) ''10.0.0.7'' 4001 demo_stream fresh_worker = ((''0123456789'', 0), w')
    \<and> (\<exists>c acl addr. resolve_client fresh_worker demo_stream = Inr c \<and> get (w_clients fresh_worker) c = Some acl
      \<and> parse_ip ''10.0.0.7'' = Some addr \<and> ip_allowed addr (acl_networks acl) \<and> ''0123456789'' = wc_passphrase (acl_config acl))"
proof -
  obtain w' where a: "authorize (Nanos 70000000000) ''10.0.0.7'' 4001 demo_stream fresh_worker = ((''0123456789'', 0), w')"
    using demo_authorize by (cases "authorize (Nanos 70000000000) ''10.0.0.7'' 4001 demo_stream fresh_worker") simp
  have r: "worker_reachable demo_config \<lparr>sw_worker = fresh_worker, sw_written = []\<rparr>"
    by (rule worker_reachable.starts [OF demo_new_worker])
  have p: "plain_ip ''10.0.0.7''" by (simp add: plain_ip_def)
  show ?thesis
    using only_entitled_callers_admitted [OF r p] a by auto
qed

lemma attempts_limited_witness:
  "connection_limit.granted ''10.0.0.7'' (map (\<lambda>k. time_add (Nanos 60000000000) (int k)) [0..<200]) [] \<le> 120"
  using attempts_limited [of "map (\<lambda>k. time_add (Nanos 60000000000) (int k)) [0..<200]" "[]" "''10.0.0.7''"]
  by (auto simp: sorted_iff_nth_mono less_eq_gotime_def time_sub_def minute_def seconds_def)

lemma fold_enqueue: "length (cs_queue s) + n \<le> session_queue_size \<Longrightarrow> cs_drop_burst s = 0 \<Longrightarrow>
    fold enqueue (replicate n p) s = s\<lparr>cs_queue := cs_queue s @ replicate n p\<rparr>"
proof (induction n arbitrary: s)
  case (Suc n)
  then have "enqueue p s = s\<lparr>cs_queue := cs_queue s @ [p]\<rparr>"
    by (cases s) (simp add: enqueue_def)
  then show ?case using Suc.IH [of "s\<lparr>cs_queue := cs_queue s @ [p]\<rparr>"] Suc.prems by simp
qed simp

lemma broadcasts_reachable:
  "worker_reachable config y \<Longrightarrow> worker_reachable config (y\<lparr>sw_worker := fold broadcast ps (sw_worker y)\<rparr>)"
proof (induction ps arbitrary: y)
  case (Cons p ps)
  have "worker_reachable config (y\<lparr>sw_worker := broadcast p (sw_worker y)\<rparr>)"
    by (rule worker_reachable.steps [OF Cons.prems worker_step.changes [OF broadcasts]])
  from Cons.IH [OF this] show ?case by simp
qed simp

lemma fold_below_limit:
  "\<forall>(i, s) \<in> set (w_sessions w). length (cs_queue s) + length ps \<le> session_queue_size \<Longrightarrow>
    w_closing (fold broadcast ps w) = w_closing w"
proof (induction ps arbitrary: w)
  case (Cons p ps)
  have "w_closing (broadcast p w) = w_closing w"
    using Cons.prems by (auto simp: broadcast_def overrun_def filter_empty_conv)
  moreover have "w_closing (fold broadcast ps (broadcast p w)) = w_closing (broadcast p w)"
    using Cons.prems by (intro Cons.IH) (auto simp: broadcast_sessions enqueue_def)
  ultimately show ?case by simp
qed simp

definition full_session :: client_session where
  "full_session = \<lparr>cs_socket = 3, cs_queue = replicate 512 [], cs_data = demo_session, cs_drop_burst = 0,
     cs_app_drops = 0, cs_fatal = False\<rparr>"

lemma full_reachable:
  obtains y where "worker_reachable demo_config y" "get (w_sessions (sw_worker y)) ''srt_AA'' = Some full_session"
    "w_closing (sw_worker y) = []"
proof
  let ?w = "fold broadcast (replicate 512 []) (open_worker [demo_event])"
  let ?y = "\<lparr>sw_worker = ?w, sw_written = []\<rparr>"
  show "worker_reachable demo_config ?y"
    using broadcasts_reachable [OF demo_opened, of "replicate 512 []"] by simp
  show "get (w_sessions (sw_worker ?y)) ''srt_AA'' = Some full_session"
    using fold_enqueue [of "\<lparr>cs_socket = 3, cs_queue = [], cs_data = demo_session, cs_drop_burst = 0, cs_app_drops = 0, cs_fatal = False\<rparr>" 512 "[]"]
    by (simp add: fold_broadcast_sessions get_map_values open_worker_def get_def session_queue_size_def full_session_def del: fold_replicate replicate.simps)
  show "w_closing (sw_worker ?y) = []"
    using fold_below_limit [of "open_worker [demo_event]" "replicate 512 []"]
    by (simp add: session_queue_size_def open_worker_def del: fold_replicate replicate.simps)
qed

lemma slow_receiver_closed_once_witness:
  "\<exists>w. get (w_sessions w) ''srt_AA'' = Some full_session
    \<and> count_list (map fst (w_closing (fold broadcast (map (\<lambda>_. []) [0..<256]) w))) ''srt_AA'' = 1
    \<and> count_list (map fst (w_closing (fold broadcast (map (\<lambda>_. []) [0..<255]) w))) ''srt_AA'' = 0"
proof -
  obtain y where y: "worker_reachable demo_config y" "get (w_sessions (sw_worker y)) ''srt_AA'' = Some full_session"
    "w_closing (sw_worker y) = []" by (rule full_reachable)
  have l: "length (cs_queue full_session) = session_queue_size" "cs_drop_burst full_session = 0"
    by (simp_all add: session_queue_size_def full_session_def)
  have c: "\<forall>e \<in> set (w_closing (sw_worker y)). fst e \<noteq> ''srt_AA''" by (simp add: y(3))
  have n: "length (map (\<lambda>_. []) [0..<256]) = 256" "length (map (\<lambda>_. []) [0..<255]) = 255" by simp_all
  note t = slow_receiver_closed_once [OF y(1,2) l c, THEN conjunct2]
  have "count_list (map fst (w_closing (fold broadcast ps (sw_worker y)))) ''srt_AA'' = 1" if "length ps = 256" for ps
    using t [of ps] that by simp
  moreover have "count_list (map fst (w_closing (fold broadcast ps (sw_worker y)))) ''srt_AA'' = 0" if "length ps = 255" for ps
    using t [of ps] that by simp
  ultimately show ?thesis using y(2) n by blast
qed

lemma input_cut_regardless_of_datagrams_witness:
  "\<exists>w'. input_loop 2 [(Nanos 1, Inr [1, 2, 3]), (Nanos 2, Inr [4, 5])] [] [] fresh_worker = Some ([5], w')
    \<and> w_sessions w' = w_sessions (fold broadcast [[1, 2], [3, 4]] fresh_worker)"
  using input_cut_regardless_of_datagrams [of 2 "[(Nanos 1, [1, 2, 3]), (Nanos 2, [4, 5])]" "[]" fresh_worker]
  by (auto simp: packets_of_def)

lemma events_mirror_sessions_witness:
  "live [demo_event] = {''srt_AA''} \<and> event_ok ''live'' demo_event"
  using events_mirror_sessions [OF demo_opened]
  by (simp add: open_worker_def has_key_def get_def demo_config_def worker_relay_def)



end
