(* ===== verification/NativeDemo.thy ===== *)
theory NativeDemo
  imports NativeProps SrtWorkerDemo
begin

text \<open>The callback of libsrt for a caller of the client of the store in \<open>SrtStoreDemo\<close>.\<close>

definition demo_libsrt :: libsrt where
  "demo_libsrt = \<lparr>ls_startup = None, ls_create = Inr 4, ls_set = (\<lambda>_ _. None), ls_resolve = (\<lambda>_ host _. Inr host),
     ls_bind = (\<lambda>_ _. None), ls_listen = (\<lambda>_. None), ls_connect = (\<lambda>_ _. None), ls_accept = (\<lambda>_. Inr (5, ''peer'')),
     ls_name = (\<lambda>_. Some (''10.0.0.7'', 4000)), ls_stream_id = (\<lambda>_. Some demo_stream), ls_version = (\<lambda>_. Some 0x010503),
     ls_secured = (\<lambda>_. Some True), ls_send = (\<lambda>_ data. Inr (int (length data))), ls_stats = (\<lambda>_. Inl ''no statistics'')\<rparr>"

definition stored_acl :: client_acl where
  "stored_acl = \<lparr>acl_config = SrtStore.worker_client [] demo_stored, acl_networks = [\<lparr>net_ip = [10, 0, 0, 0], net_mask = [255, 0, 0, 0]\<rparr>]\<rparr>"

lemma stored_acl_built: "build_acl (SrtStore.worker_client [] demo_stored) = Inr stored_acl"
proof -
  have "parse_cidr ''10.0.0.0/8'' = Some \<lparr>net_ip = [10, 0, 0, 0], net_mask = [255, 0, 0, 0]\<rparr>" by code_simp
  then show ?thesis
    by (simp add: build_acl_def stored_acl_def SrtStore.worker_client_def Let_def bad_passphrase_def passphrase_length)
      (simp add: demo_defs)
qed

lemma stored_worker:
  obtains w where "new_worker (Nanos 1) (worker_input (demo_state []) demo_listener) = Inr w" "w_clients w = [(''alice'', stored_acl)]"
    "wcfg_relay (w_config w) = demo_listener"
proof -
  have r: "r_id demo_listener = ''live''" "r_direction demo_listener = direction_listener" "\<not> r_allow_missing_stream_id demo_listener"
    "r_input_timeout_seconds demo_listener = 10"
    by (simp_all add: demo_defs)
  have c: "worker_clients (demo_state []) ''live'' = [SrtStore.worker_client [] demo_stored]"
    by (simp add: worker_clients_def) (simp add: demo_state_def empty_store_def sorted_vals_def sorted_keys_def keys_def
        List.map_filter_simps get_def demo_defs)
  have i: "wc_id (acl_config stored_acl) = ''alice''" by (simp add: stored_acl_def SrtStore.worker_client_def demo_defs)
  have "direction_listener \<noteq> direction_publish" "direction_listener \<noteq> []" by (simp_all add: mode_defs)
  then show ?thesis using that
    by (simp add: new_worker_def worker_input_def Let_def r c fill_worker_relay_def check_publish_def stored_acl_built i
        check_compatibility_def put_def)
qed

theorem callback_enforces_encryption_witness:
  "\<exists>y registered. worker_reachable (worker_input (demo_state []) demo_listener) y
    \<and> listener_callback demo_libsrt (Nanos 70000000000) 5 ''peer'' (Some demo_stream) (Some (sw_worker y))
      = (HandshakeContinues [SrtoSender 1, SrtoEnforcedEncryption 1, SrtoPbKeyLen 32, SrtoPassphrase (client_passphrase [] demo_stored)], registered)"
proof -
  obtain w where w: "new_worker (Nanos 1) (worker_input (demo_state []) demo_listener) = Inr w"
    "w_clients w = [(''alice'', stored_acl)]" "wcfg_relay (w_config w) = demo_listener" by (rule stored_worker)
  note fresh = new_worker_fresh [OF w(1)]
  let ?y = "\<lparr>sw_worker = w, sw_written = []\<rparr>"
  have reach: "worker_reachable (worker_input (demo_state []) demo_listener) ?y" by (rule worker_reachable.starts [OF w(1)])
  have acl: "wc_passphrase (acl_config stored_acl) = client_passphrase [] demo_stored" "wc_max_sessions (acl_config stored_acl) = 1"
    "acl_networks stored_acl = acl_networks alice_acl" "r_max_clients demo_listener = 16"
    by (simp_all add: stored_acl_def SrtStore.worker_client_def alice_acl_def demo_defs)
  have a: "allow_connection_attempt ''10.0.0.7'' (Nanos 70000000000) w = ((True, False),
      w\<lparr>w_attempts := [(''10.0.0.7'', \<lparr>aw_started = Nanos 70000000000, aw_count = 1, aw_reported = False\<rparr>)]\<rparr>)"
    by (simp add: allow_connection_attempt_def count_attempt_def max_tracked_ips_def put_def fresh)
  have "fst (authorize (Nanos 70000000000) ''10.0.0.7'' 4000 demo_stream w) = (client_passphrase [] demo_stored, 0)"
    by (simp add: authorize_def pending_secret_def fresh a admit_def resolve_client_def demo_resolve emit_def get_def reserve_def
        reserved_def sessions_of_def acl w(2,3))
  then obtain w' where auth: "authorize (Nanos 70000000000) ''10.0.0.7'' 4000 demo_stream w = ((client_passphrase [] demo_stored, 0), w')"
    by (cases "authorize (Nanos 70000000000) ''10.0.0.7'' 4000 demo_stream w") simp
  have plain: "c_string ''10.0.0.7'' = ''10.0.0.7''" "c_string demo_stream = demo_stream" by (simp_all add: c_string_def)
  obtain opts registered where cb: "listener_callback demo_libsrt (Nanos 70000000000) 5 ''peer'' (Some demo_stream) (Some (sw_worker ?y))
      = (HandshakeContinues opts, registered)"
    using passphrase_length(1) [of "[]" demo_stored]
    by (auto simp: listener_callback_def demo_libsrt_def plain go_srt_authorize_def auth Let_def set_options_None split: option.split)
  have "get (sto_relays (demo_state [])) ''live'' = Some demo_listener" by simp
  from callback_enforces_encryption [OF demo_reachable [of sample_enc] this reach cb] have
    "opts = [SrtoSender 1, SrtoEnforcedEncryption 1, SrtoPbKeyLen 32, SrtoPassphrase (client_passphrase [] demo_stored)]"
    by (auto split: if_splits) (simp_all add: demo_defs)
  then show ?thesis using reach cb by blast
qed

end
