(* ===== verification/FfmpegArgs.thy ===== *)
theory FfmpegArgs
  imports GoUrl
begin

text \<open>
  The ffmpeg command line (\<open>internal/ffmpeg/args.go\<close>): profiles, the arguments of a standard
  profile, template profiles with their variables, and the tuning of UDP URLs. Pointers to
  int are options; maps are \<open>gomap\<close>s.
\<close>

subsection \<open>Data\<close>

record logo_overlay =
  lo_enabled :: bool
  lo_path :: string
  lo_x :: int
  lo_y :: int

record ff_stream =
  fs_input_url :: string
  fs_output_url :: string
  fs_source_type :: string
  fs_video_map :: string
  fs_audio_map :: string
  fs_audio_maps :: "string list"
  fs_disable_audio :: bool
  fs_logo :: logo_overlay
  fs_options :: "(string, string) gomap"
  fs_keep_stats :: bool

record video_profile =
  vp_codec :: string
  vp_preset :: string
  vp_bitrate :: string
  vp_maxrate :: string
  vp_bufsize :: string
  vp_tune :: string
  vp_fps :: string
  vp_scale :: string

record advanced_profile =
  ad_enable_genpts :: bool
  ad_discard_corrupt :: bool
  ad_ignore_decode_errors :: bool
  ad_video_threads :: "int option"
  ad_gop :: "int option"
  ad_keyint_min :: "int option"
  ad_sc_threshold :: "int option"
  ad_minrate :: string
  ad_x264_params :: string

record audio_profile =
  ap_codec :: string
  ap_bitrate :: string

record output_profile =
  op_format :: string

record template_profile =
  tp_args :: "string list"
  tp_defaults :: "(string, string) gomap"

record profile =
  pf_name :: string
  pf_video :: video_profile
  pf_audio :: audio_profile
  pf_output :: output_profile
  pf_template :: template_profile
  pf_extra_args :: "string list"
  pf_advanced :: advanced_profile

record system_config =
  sc_udp_fifo_size :: int
  sc_udp_buffer_size :: int
  sc_udp_overrun_nonfatal :: bool
  sc_udp_reuse :: bool
  sc_pkt_size :: int
  sc_analyze_duration :: int
  sc_probe_size :: int
  sc_log_level :: string

definition zero_video :: video_profile where
  "zero_video = \<lparr>vp_codec = [], vp_preset = [], vp_bitrate = [], vp_maxrate = [], vp_bufsize = [], vp_tune = [],
     vp_fps = [], vp_scale = []\<rparr>"

definition zero_advanced :: advanced_profile where
  "zero_advanced = \<lparr>ad_enable_genpts = False, ad_discard_corrupt = False, ad_ignore_decode_errors = False,
     ad_video_threads = None, ad_gop = None, ad_keyint_min = None, ad_sc_threshold = None, ad_minrate = [],
     ad_x264_params = []\<rparr>"

definition zero_profile :: profile where
  "zero_profile = \<lparr>pf_name = [], pf_video = zero_video, pf_audio = \<lparr>ap_codec = [], ap_bitrate = []\<rparr>,
     pf_output = \<lparr>op_format = []\<rparr>, pf_template = \<lparr>tp_args = [], tp_defaults = []\<rparr>, pf_extra_args = [],
     pf_advanced = zero_advanced\<rparr>"

definition h264_veryfast_4m :: profile where
  "h264_veryfast_4m = zero_profile\<lparr>pf_name := ''h264_veryfast_4m'',
     pf_video := zero_video\<lparr>vp_codec := ''libx264'', vp_preset := ''veryfast'', vp_bitrate := ''4000k'',
       vp_maxrate := ''4000k'', vp_bufsize := ''8000k'', vp_tune := ''zerolatency''\<rparr>,
     pf_audio := \<lparr>ap_codec = ''aac'', ap_bitrate = ''128k''\<rparr>, pf_output := \<lparr>op_format = ''mpegts''\<rparr>\<rparr>"

definition h264_ultrafast_template_4m :: profile where
  "h264_ultrafast_template_4m = zero_profile\<lparr>pf_name := ''h264_ultrafast_template_4m'',
     pf_template := \<lparr>tp_args = [''-y'', ''-hide_banner'', ''-nostdin'',
         ''-i'', ''${i}?overrun_nonfatal=1&fifo_size=100000000'', ''-map'', ''0:v:0'', ''-map'', ''0:a:0'',
         ''-c:v'', ''libx264'', ''-preset'', ''${preset}'', ''-profile:v'', ''main'', ''-pix_fmt'', ''yuv420p'',
         ''-vf'', ''yadif'', ''-b:v'', ''${video_bitrate}'', ''-maxrate'', ''${video_bitrate}'',
         ''-bufsize'', ''${video_bufsize}'', ''-c:a'', ''aac'', ''-b:a'', ''${audio_bitrate}'',
         ''-ar'', ''48000'', ''-ac'', ''2'', ''-f'', ''mpegts'', ''${o}?pkt_size=1316''],
       tp_defaults = [(''preset'', ''ultrafast''), (''video_bitrate'', ''4M''), (''video_bufsize'', ''8M''),
         (''audio_bitrate'', ''128k'')]\<rparr>\<rparr>"

datatype args_error =
    UrlRequired | UrlUnparsable | SchemeNotNetwork | HostRequired
  | InputUrl args_error | OutputUrl args_error
  | VideoCodecRequired | AudioCodecRequired | LogoPathRequired
  | EmptyTemplateArg | UndefinedVariable string

subsection \<open>Log level\<close>

definition log_level_or_default :: "string \<Rightarrow> string" where
  "log_level_or_default level = (if level = [] then ''info'' else level)"

definition with_log_level :: "system_config \<Rightarrow> string \<Rightarrow> system_config" where
  "with_log_level sys override = (if override \<noteq> [] then sys\<lparr>sc_log_level := override\<rparr> else sys)"

subsection \<open>URLs\<close>

definition validate_url :: "string \<Rightarrow> (args_error, unit) result" where
  "validate_url raw =
     (if raw = [] then Inl UrlRequired
      else (case parse_url raw of
        None \<Rightarrow> Inl UrlUnparsable
      | Some u \<Rightarrow>
          if u_scheme u \<noteq> ''udp'' \<and> u_scheme u \<noteq> ''rtp'' then Inl SchemeNotNetwork
          else if u_host u = [] then Inl HostRequired
          else Inr ()))"

definition validate_input :: "ff_stream \<Rightarrow> (args_error, unit) result" where
  "validate_input s =
     (if fs_input_url s = [] then Inl UrlRequired
      else if fs_source_type s = ''file'' then Inr ()
      else validate_url (fs_input_url s))"

definition set_if :: "bool \<Rightarrow> string \<Rightarrow> string \<Rightarrow> query \<Rightarrow> query" where
  "set_if b k v q = (if b then query_set k v q else q)"

definition tune_input_query :: "system_config \<Rightarrow> query \<Rightarrow> query" where
  "tune_input_query sys q =
     set_if (sc_udp_reuse sys) ''reuse'' ''1''
       (set_if (sc_udp_buffer_size sys > 0) ''buffer_size'' (itoa (sc_udp_buffer_size sys))
         (set_if (sc_udp_fifo_size sys > 0) ''fifo_size'' (itoa (sc_udp_fifo_size sys))
           (set_if (sc_udp_overrun_nonfatal sys) ''overrun_nonfatal'' ''1'' q)))"

definition tune_input_url :: "system_config \<Rightarrow> url \<Rightarrow> url" where
  "tune_input_url sys u = u\<lparr>u_raw_query := query_encode (tune_input_query sys (parse_query (u_raw_query u)))\<rparr>"

definition augment_multicast_input_url :: "string \<Rightarrow> string \<Rightarrow> system_config \<Rightarrow> (args_error, string) result" where
  "augment_multicast_input_url raw source_type sys =
     (if source_type = ''file'' then Inr raw
      else (case parse_url raw of
        None \<Rightarrow> Inl UrlUnparsable
      | Some u \<Rightarrow> if u_scheme u \<noteq> ''udp'' then Inr raw else Inr (url_string (tune_input_url sys u))))"

definition tune_output_url :: "system_config \<Rightarrow> url \<Rightarrow> url" where
  "tune_output_url sys u = (let q = parse_query (u_raw_query u) in
     if query_get q ''pkt_size'' = [] then u\<lparr>u_raw_query := query_encode (query_set ''pkt_size'' (itoa (sc_pkt_size sys)) q)\<rparr>
     else u)"

definition augment_udp_output_url :: "string \<Rightarrow> string \<Rightarrow> system_config \<Rightarrow> (args_error, string) result" where
  "augment_udp_output_url raw format sys =
     (if format \<noteq> ''mpegts'' \<or> sc_pkt_size sys \<le> 0 then Inr raw
      else (case parse_url raw of
        None \<Rightarrow> Inl UrlUnparsable
      | Some u \<Rightarrow> if u_scheme u \<noteq> ''udp'' then Inr raw else Inr (url_string (tune_output_url sys u))))"

subsection \<open>Standard profiles\<close>

definition opt :: "string \<Rightarrow> string \<Rightarrow> string list" where
  "opt flag value = (if value \<noteq> [] then [flag, value] else [])"

definition opt_int :: "string \<Rightarrow> int option \<Rightarrow> string list" where
  "opt_int flag value = (case value of None \<Rightarrow> [] | Some n \<Rightarrow> [flag, itoa n])"

definition opt_pos :: "string \<Rightarrow> int \<Rightarrow> string list" where
  "opt_pos flag n = (if n > 0 then [flag, itoa n] else [])"

definition logo_filter_complex :: "string \<Rightarrow> string \<Rightarrow> logo_overlay \<Rightarrow> string" where
  "logo_filter_complex video_map scale logo =
     (if scale = [] then ''['' @ video_map @ ''][1:v:0]overlay='' @ itoa (lo_x logo) @ '':'' @ itoa (lo_y logo) @ ''[v]''
      else ''['' @ video_map @ '']scale='' @ scale @ ''[scaled];[scaled][1:v:0]overlay='' @ itoa (lo_x logo) @ '':''
        @ itoa (lo_y logo) @ ''[v]'')"

definition log_args :: "ff_stream \<Rightarrow> system_config \<Rightarrow> string list" where
  "log_args s sys = [''-hide_banner'', ''-nostdin''] @ (if fs_keep_stats s then [] else [''-nostats'']) @
     [''-loglevel'', ''level+'' @ log_level_or_default (sc_log_level sys), ''-progress'', ''pipe:1'', ''-stats_period'', ''1'']"

definition tolerance_args :: "advanced_profile \<Rightarrow> string list" where
  "tolerance_args a = (let fflags = (if ad_enable_genpts a then [''genpts''] else [])
       @ (if ad_discard_corrupt a then [''discardcorrupt''] else [])
     in (if fflags \<noteq> [] then [''-fflags'', concat (map (\<lambda>f. CHR ''+'' # f) fflags)] else [])
        @ (if ad_ignore_decode_errors a then [''-err_detect'', ''ignore_err''] else []))"

definition probe_args :: "system_config \<Rightarrow> string list" where
  "probe_args sys = opt_pos ''-analyzeduration'' (sc_analyze_duration sys) @ opt_pos ''-probesize'' (sc_probe_size sys)"

definition picture_args :: "ff_stream \<Rightarrow> string \<Rightarrow> video_profile \<Rightarrow> (args_error, string list) result" where
  "picture_args s video_map v =
     (if lo_enabled (fs_logo s) then
        if lo_path (fs_logo s) = [] then Inl LogoPathRequired
        else Inr ([''-i'', lo_path (fs_logo s), ''-filter_complex'', logo_filter_complex video_map (vp_scale v) (fs_logo s),
          ''-map'', ''[v]''])
      else Inr ([''-map'', video_map] @ (if vp_scale v \<noteq> [] then [''-vf'', ''scale='' @ vp_scale v] else [])))"

definition audio_map_args :: "ff_stream \<Rightarrow> string \<Rightarrow> string list" where
  "audio_map_args s audio_map =
     (if fs_disable_audio s then []
      else concat (map (opt ''-map'') (if fs_audio_maps s = [] then [audio_map] else fs_audio_maps s)))"

definition video_args :: "video_profile \<Rightarrow> advanced_profile \<Rightarrow> string list" where
  "video_args v a = [''-c:v'', vp_codec v] @ opt ''-preset'' (vp_preset v) @ opt ''-tune'' (vp_tune v) @ opt ''-r'' (vp_fps v)
     @ opt ''-b:v'' (vp_bitrate v) @ opt ''-maxrate'' (vp_maxrate v) @ opt ''-bufsize'' (vp_bufsize v)
     @ opt ''-minrate'' (ad_minrate a) @ opt_int ''-g'' (ad_gop a) @ opt_int ''-keyint_min'' (ad_keyint_min a)
     @ opt_int ''-sc_threshold'' (ad_sc_threshold a) @ opt_int ''-threads'' (ad_video_threads a)
     @ opt ''-x264-params'' (ad_x264_params a)"

definition audio_args :: "ff_stream \<Rightarrow> audio_profile \<Rightarrow> string list" where
  "audio_args s a =
     (if fs_disable_audio s then []
      else [''-c:a'', ap_codec a] @ (if ap_bitrate a \<noteq> [] \<and> ap_codec a \<noteq> ''copy'' then [''-b:a'', ap_bitrate a] else []))"

definition standard_args :: "ff_stream \<Rightarrow> profile \<Rightarrow> system_config \<Rightarrow> (args_error, string list) result" where
  "standard_args s p sys =
     (if vp_codec (pf_video p) = [] then Inl VideoCodecRequired
      else if ap_codec (pf_audio p) = [] then Inl AudioCodecRequired
      else let format = (if op_format (pf_output p) = [] then ''mpegts'' else op_format (pf_output p));
               video_map = (if fs_video_map s = [] then ''0:v:0'' else fs_video_map s);
               audio_map = (if fs_audio_map s = [] then ''0:a:0?'' else fs_audio_map s)
      in (case augment_multicast_input_url (fs_input_url s) (fs_source_type s) sys of
         Inl e \<Rightarrow> Inl (InputUrl e)
       | Inr input \<Rightarrow> (case augment_udp_output_url (fs_output_url s) format sys of
           Inl e \<Rightarrow> Inl (OutputUrl e)
         | Inr destination \<Rightarrow> and_then (picture_args s video_map (pf_video p)) (\<lambda>picture.
             Inr (log_args s sys @ tolerance_args (pf_advanced p) @ probe_args sys
               @ (if fs_source_type s = ''file'' then [''-re''] else []) @ [''-i'', input] @ picture
               @ audio_map_args s audio_map @ video_args (pf_video p) (pf_advanced p) @ audio_args s (pf_audio p)
               @ pf_extra_args p @ [''-f'', format, destination])))))"

subsection \<open>Template profiles\<close>

text \<open>
  The pattern for variables is a dollar sign and braces around a name. \<open>match_variable\<close> looks
  for a match at the start of the text and gives the name and the rest after the brace.
\<close>

definition name_char :: "char \<Rightarrow> bool" where
  "name_char c \<longleftrightarrow> is_alnum c \<or> c = CHR ''_''"

fun match_variable :: "string \<Rightarrow> (string \<times> string) option" where
  "match_variable (d # b # cs) =
     (if d = CHR ''$'' \<and> b = CHR ''{'' then
        let name = takeWhile name_char cs; rest = dropWhile name_char cs
        in if name \<noteq> [] \<and> \<not> is_digit (hd name) \<and> rest \<noteq> [] \<and> hd rest = CHR ''}'' then Some (name, tl rest) else None
      else None)"
| "match_variable _ = None"

lemma match_variable_shorter: "match_variable s = Some (name, rest) \<Longrightarrow> length rest < length s"
  using length_dropWhile_le [of name_char "tl (tl s)"]
  by (cases s rule: match_variable.cases) (auto simp: Let_def split: if_splits)

text \<open>The text with its variables replaced, and the name of the last one without a value.\<close>

function substitute :: "(string, string) gomap \<Rightarrow> string \<Rightarrow> string \<times> string" where
  "substitute values [] = ([], [])"
| "substitute values (c # cs) = (case match_variable (c # cs) of
     None \<Rightarrow> (case substitute values cs of (out, missing) \<Rightarrow> (c # out, missing))
   | Some (name, rest) \<Rightarrow> (case substitute values rest of (out, missing) \<Rightarrow>
       (case get values name of
          Some v \<Rightarrow> (v @ out, missing)
        | None \<Rightarrow> (take (length (c # cs) - length rest) (c # cs) @ out, if missing = [] then name else missing))))"
  by pat_completeness auto
termination
  by (relation "measure (length \<circ> snd)") (auto dest: match_variable_shorter)

definition render_template_arg :: "string \<Rightarrow> (string, string) gomap \<Rightarrow> (args_error, string) result" where
  "render_template_arg arg values = (case substitute values arg of
     (out, missing) \<Rightarrow> if missing \<noteq> [] then Inl (UndefinedVariable missing) else Inr out)"

fun render_all :: "(string, string) gomap \<Rightarrow> string list \<Rightarrow> (args_error, string list) result" where
  "render_all values [] = Inr []"
| "render_all values (arg # rest) =
     (if arg = [] then Inl EmptyTemplateArg
      else and_then (render_template_arg arg values) (\<lambda>r. and_then (render_all values rest) (\<lambda>rs. Inr (r # rs))))"

text \<open>The values: the profile's defaults, the stream's options over them, and the reserved names.\<close>

definition put_all :: "(string, string) gomap \<Rightarrow> (string, string) gomap \<Rightarrow> (string, string) gomap" where
  "put_all new m = fold (\<lambda>(k, v). put k v) new m"

definition template_values :: "ff_stream \<Rightarrow> template_profile \<Rightarrow> (string, string) gomap" where
  "template_values s t =
     put ''audio_enabled'' (if fs_disable_audio s then ''0'' else ''1'')
       (put ''logo_path'' (lo_path (fs_logo s)) (put ''o'' (fs_output_url s) (put ''i'' (fs_input_url s)
         (put_all (fs_options s) (put_all (tp_defaults t) [])))))"

definition build_template_args :: "ff_stream \<Rightarrow> template_profile \<Rightarrow> (args_error, string list) result" where
  "build_template_args s t = and_then (render_all (template_values s t) (tp_args t)) (\<lambda>args.
     Inr (if ''-progress'' \<in> set (tp_args t) then args
       else [''-nostats'', ''-loglevel'', ''level+info'', ''-progress'', ''pipe:1'', ''-stats_period'', ''1''] @ args))"

definition build_args :: "ff_stream \<Rightarrow> profile \<Rightarrow> system_config \<Rightarrow> (args_error, string list) result" where
  "build_args s p sys = (case validate_input s of
     Inl e \<Rightarrow> Inl (InputUrl e)
   | Inr _ \<Rightarrow> (case validate_url (fs_output_url s) of
       Inl e \<Rightarrow> Inl (OutputUrl e)
     | Inr _ \<Rightarrow> if tp_args (pf_template p) \<noteq> [] then build_template_args s (pf_template p) else standard_args s p sys))"

subsection \<open>Tuning keeps the parameters of the URL\<close>

lemma query_values_set_if: "query_values (set_if b k v q) x = (if b \<and> x = k then [v] else query_values q x)"
  by (simp add: set_if_def)

lemma map_ok_set_if: "map_ok q \<Longrightarrow> map_ok (set_if b k v q)"
  by (simp add: set_if_def)

definition input_tuning :: "system_config \<Rightarrow> string \<Rightarrow> string option" where
  "input_tuning sys k =
     (if k = ''reuse'' \<and> sc_udp_reuse sys then Some ''1''
      else if k = ''buffer_size'' \<and> sc_udp_buffer_size sys > 0 then Some (itoa (sc_udp_buffer_size sys))
      else if k = ''fifo_size'' \<and> sc_udp_fifo_size sys > 0 then Some (itoa (sc_udp_fifo_size sys))
      else if k = ''overrun_nonfatal'' \<and> sc_udp_overrun_nonfatal sys then Some ''1''
      else None)"

text \<open>
  The UDP tuning changes exactly its own parameters: in the input URL every other parameter
  (such as the \<open>localaddr\<close> that selects the network interface) keeps its values in order, and
  in the output URL a \<open>pkt_size\<close> the operator chose is kept, and so is everything else.
\<close>

theorem tuning_keeps_parameters:
  "query_values (parse_query (u_raw_query (tune_input_url sys u))) k
      = (case input_tuning sys k of Some v \<Rightarrow> [v] | None \<Rightarrow> query_values (parse_query (u_raw_query u)) k)
    \<and> query_values (parse_query (u_raw_query (tune_output_url sys u))) k
      = (if k = ''pkt_size'' \<and> query_get (parse_query (u_raw_query u)) k = [] then [itoa (sc_pkt_size sys)]
         else query_values (parse_query (u_raw_query u)) k)"
proof
  have "map_ok (tune_input_query sys (parse_query (u_raw_query u)))"
    by (simp add: tune_input_query_def map_ok_set_if)
  then show "query_values (parse_query (u_raw_query (tune_input_url sys u))) k
      = (case input_tuning sys k of Some v \<Rightarrow> [v] | None \<Rightarrow> query_values (parse_query (u_raw_query u)) k)"
    by (simp add: tune_input_url_def query_values_encode tune_input_query_def query_values_set_if input_tuning_def)
  show "query_values (parse_query (u_raw_query (tune_output_url sys u))) k
      = (if k = ''pkt_size'' \<and> query_get (parse_query (u_raw_query u)) k = [] then [itoa (sc_pkt_size sys)]
         else query_values (parse_query (u_raw_query u)) k)"
    by (auto simp: tune_output_url_def Let_def query_values_encode)
qed

subsection \<open>Templates\<close>

text \<open>Pieces of an argument: text without a dollar sign, and variables.\<close>

datatype piece = Text string | Variable string

definition variable_name :: "string \<Rightarrow> bool" where
  "variable_name name \<longleftrightarrow> name \<noteq> [] \<and> list_all name_char name \<and> \<not> is_digit (hd name)"

fun piece_ok :: "piece \<Rightarrow> bool" where
  "piece_ok (Text s) \<longleftrightarrow> CHR ''$'' \<notin> set s"
| "piece_ok (Variable name) \<longleftrightarrow> variable_name name"

fun print_piece :: "piece \<Rightarrow> string" where
  "print_piece (Text s) = s"
| "print_piece (Variable name) = ''${'' @ name @ ''}''"

fun piece_value :: "(string, string) gomap \<Rightarrow> piece \<Rightarrow> string" where
  "piece_value values (Text s) = s"
| "piece_value values (Variable name) = (case get values name of Some v \<Rightarrow> v | None \<Rightarrow> ''${'' @ name @ ''}'')"

definition undefined_variables :: "(string, string) gomap \<Rightarrow> piece list \<Rightarrow> string list" where
  "undefined_variables values ps = List.map_filter
     (\<lambda>p. case p of Text _ \<Rightarrow> None | Variable name \<Rightarrow> if get values name = None then Some name else None) ps"

lemma undefined_Cons [simp]:
  "undefined_variables values [] = []"
  "undefined_variables values (Text s # ps) = undefined_variables values ps"
  "undefined_variables values (Variable name # ps) =
     (if get values name = None then name # undefined_variables values ps else undefined_variables values ps)"
  by (simp_all add: undefined_variables_def List.map_filter_simps)

lemma undefined_not_Nil: "list_all piece_ok ps \<Longrightarrow> name \<in> set (undefined_variables values ps) \<Longrightarrow> name \<noteq> []"
proof (induction ps)
  case (Cons p ps)
  then show ?case by (cases p) (auto simp: variable_name_def split: if_splits)
qed simp

lemma last_undefined: "list_all piece_ok ps \<Longrightarrow> undefined_variables values ps \<noteq> [] \<Longrightarrow> last (undefined_variables values ps) \<noteq> []"
  using undefined_not_Nil last_in_set by blast

lemma substitute_text:
  "CHR ''$'' \<notin> set s \<Longrightarrow> substitute values (s @ rest) = (case substitute values rest of (out, missing) \<Rightarrow> (s @ out, missing))"
proof (induction s)
  case (Cons c s)
  have "match_variable (c # s @ rest) = None"
    using Cons.prems by (cases "s @ rest") auto
  then show ?case using Cons by (simp split: prod.split)
qed simp

lemma match_identifier:
  assumes "variable_name name" shows "match_variable (''${'' @ name @ ''}'' @ rest) = Some (name, rest)"
proof -
  have all: "\<forall>c \<in> set name. name_char c" using assms by (simp add: variable_name_def list_all_iff)
  have "\<not> name_char (CHR ''}'')" by (simp add: name_char_def is_alnum_def)
  then have "takeWhile name_char (name @ ''}'' @ rest) = name" "dropWhile name_char (name @ ''}'' @ rest) = ''}'' @ rest"
    using all by (simp_all add: takeWhile_append dropWhile_append)
  then show ?thesis using assms by (simp add: variable_name_def Let_def)
qed

lemma substitute_pieces:
  "list_all piece_ok ps \<Longrightarrow> substitute values (concat (map print_piece ps))
    = (concat (map (piece_value values) ps), if undefined_variables values ps = [] then [] else last (undefined_variables values ps))"
proof (induction ps)
  case (Cons p ps)
  show ?case
  proof (cases p)
    case (Text s)
    then show ?thesis using Cons by (simp add: substitute_text)
  next
    case (Variable name)
    let ?rest = "concat (map print_piece ps)"
    have m: "match_variable (CHR ''$'' # CHR ''{'' # name @ CHR ''}'' # ?rest) = Some (name, ?rest)"
      using match_identifier [of name ?rest] Cons.prems Variable by simp
    have n: "name \<noteq> []" using Cons.prems Variable by (simp add: variable_name_def)
    have t: "take (3 + length name) (CHR ''$'' # CHR ''{'' # name @ CHR ''}'' # ?rest) = CHR ''$'' # CHR ''{'' # name @ ''}''"
      by (simp add: numeral_3_eq_3)
    have "undefined_variables values ps \<noteq> [] \<Longrightarrow> last (undefined_variables values ps) \<noteq> []"
      using Cons.prems by (intro last_undefined) simp_all
    then show ?thesis
      using Cons n by (simp add: Variable m t split: option.split del: match_variable.simps)
  qed
qed simp

lemma put_all_get: "map_ok new \<Longrightarrow> get (put_all new m) k = (case get new k of Some v \<Rightarrow> Some v | None \<Rightarrow> get m k)"
proof (induction new arbitrary: m)
  case (Cons e new)
  obtain i v where e: "e = (i, v)" by (cases e)
  have ok: "map_ok new" and n: "get new i = None"
    using Cons.prems by (auto simp: map_ok_def get_def map_of_eq_None_iff e)
  show ?case
    using Cons.IH [OF ok, of "put i v m"] n by (auto simp: put_all_def e get_def [of "(i, v) # new"] simp flip: get_def split: option.splits)
qed (simp add: put_all_def)

text \<open>
  C26: A template argument is rendered as its pieces say: text is copied, a variable is replaced
  by its value, and the result is an error naming the last undefined variable if there is
  one. The value of a variable is the stream's option, or else the profile's default, but
  the reserved names always stand for the stream itself, whatever the options say.
\<close>

theorem template_rendering:
  assumes "list_all piece_ok ps" and "map_ok (fs_options s)" and "map_ok (tp_defaults t)"
  shows "render_template_arg (concat (map print_piece ps)) (template_values s t)
      = (let undefineds = undefined_variables (template_values s t) ps in
         if undefineds = [] then Inr (concat (map (piece_value (template_values s t)) ps)) else Inl (UndefinedVariable (last undefineds)))
    \<and> get (template_values s t) k =
        (if k = ''i'' then Some (fs_input_url s) else if k = ''o'' then Some (fs_output_url s)
         else if k = ''logo_path'' then Some (lo_path (fs_logo s))
         else if k = ''audio_enabled'' then Some (if fs_disable_audio s then ''0'' else ''1'')
         else (case get (fs_options s) k of Some v \<Rightarrow> Some v | None \<Rightarrow> get (tp_defaults t) k))"
proof
  let ?v = "template_values s t"
  have "undefined_variables ?v ps \<noteq> [] \<Longrightarrow> last (undefined_variables ?v ps) \<noteq> []"
    by (rule last_undefined [OF assms(1)])
  then show "render_template_arg (concat (map print_piece ps)) ?v
      = (let undefineds = undefined_variables ?v ps in
         if undefineds = [] then Inr (concat (map (piece_value ?v) ps)) else Inl (UndefinedVariable (last undefineds)))"
    by (simp add: render_template_arg_def substitute_pieces [OF assms(1)] Let_def)
  show "get ?v k =
        (if k = ''i'' then Some (fs_input_url s) else if k = ''o'' then Some (fs_output_url s)
         else if k = ''logo_path'' then Some (lo_path (fs_logo s))
         else if k = ''audio_enabled'' then Some (if fs_disable_audio s then ''0'' else ''1'')
         else (case get (fs_options s) k of Some v \<Rightarrow> Some v | None \<Rightarrow> get (tp_defaults t) k))"
    using assms(2,3) by (simp add: template_values_def put_all_get split: option.split)
qed

subsection \<open>Which streams get a command line\<close>

lemma validate_url_parses: "validate_url raw = Inr x \<Longrightarrow> \<exists>u. parse_url raw = Some u"
  by (auto simp: validate_url_def split: if_splits option.splits)

text \<open>
  C25: A standard profile gives a command line exactly when the URLs are valid, both codecs are
  named and an enabled logo has a path; the command line then ends with the format and the
  output URL, and reads the stream's input, both with at most the UDP tuning added.
\<close>

lemma standard_ok:
  assumes "validate_input s = Inr ()" "validate_url (fs_output_url s) = Inr ()"
    and "vp_codec (pf_video p) \<noteq> []" "ap_codec (pf_audio p) \<noteq> []" "lo_enabled (fs_logo s) \<longrightarrow> lo_path (fs_logo s) \<noteq> []"
  shows "\<exists>args. standard_args s p sys = Inr args"
proof -
  let ?format = "if op_format (pf_output p) = [] then ''mpegts'' else op_format (pf_output p)"
  have out: "\<exists>d. augment_udp_output_url (fs_output_url s) fmt sys = Inr d" for fmt
    using validate_url_parses [OF assms(2)] by (auto simp: augment_udp_output_url_def)
  have pic: "\<exists>a. picture_args s vm (pf_video p) = Inr a" for vm
    using assms(5) by (simp add: picture_args_def)
  obtain i where "augment_multicast_input_url (fs_input_url s) (fs_source_type s) sys = Inr i"
    using assms(1) validate_url_parses
    by (fastforce simp: augment_multicast_input_url_def validate_input_def split: if_splits option.splits)
  moreover obtain d where "augment_udp_output_url (fs_output_url s) ?format sys = Inr d"
    using out [of ?format] by blast
  moreover obtain a where "picture_args s (if fs_video_map s = [] then ''0:v:0'' else fs_video_map s) (pf_video p) = Inr a"
    using pic [of "if fs_video_map s = [] then ''0:v:0'' else fs_video_map s"] by blast
  ultimately show ?thesis
    using assms(3,4) by (simp add: standard_args_def Let_def)
qed

lemma standard_only:
  assumes "standard_args s p sys = Inr args"
  shows "vp_codec (pf_video p) \<noteq> []" "ap_codec (pf_audio p) \<noteq> []" "lo_enabled (fs_logo s) \<longrightarrow> lo_path (fs_logo s) \<noteq> []"
  using assms by (auto simp: standard_args_def Let_def and_then_Inr picture_args_def split: if_splits sum.splits)

lemma itoa_not_flag: "itoa n \<noteq> ''-i''"
  using itoa_graphic [of "CHR ''i''" n] by (auto simp: is_digit_def)

lemma standard_shape:
  assumes "standard_args s p sys = Inr args"
  shows "\<exists>front middle input destination format.
      args = front @ [''-i'', input] @ middle @ [''-f'', format, destination] \<and> ''-i'' \<notin> set front
      \<and> (input = fs_input_url s \<or> (\<exists>u. parse_url (fs_input_url s) = Some u \<and> input = url_string (tune_input_url sys u)))
      \<and> (destination = fs_output_url s \<or> (\<exists>u. parse_url (fs_output_url s) = Some u \<and> destination = url_string (tune_output_url sys u)))"
proof -
  obtain format video_map audio_map input destination picture where
    a: "augment_multicast_input_url (fs_input_url s) (fs_source_type s) sys = Inr input"
      "augment_udp_output_url (fs_output_url s) format sys = Inr destination"
    and args: "args = (log_args s sys @ tolerance_args (pf_advanced p) @ probe_args sys
               @ (if fs_source_type s = ''file'' then [''-re''] else [])) @ [''-i'', input] @ (picture
               @ audio_map_args s audio_map @ video_args (pf_video p) (pf_advanced p) @ audio_args s (pf_audio p)
               @ pf_extra_args p) @ [''-f'', format, destination]"
    using assms by (auto simp: standard_args_def Let_def and_then_Inr split: if_splits sum.splits)
  have "input = fs_input_url s \<or> (\<exists>u. parse_url (fs_input_url s) = Some u \<and> input = url_string (tune_input_url sys u))"
    using a(1) by (auto simp: augment_multicast_input_url_def split: if_splits option.splits)
  moreover have "destination = fs_output_url s \<or> (\<exists>u. parse_url (fs_output_url s) = Some u \<and> destination = url_string (tune_output_url sys u))"
    using a(2) by (auto simp: augment_udp_output_url_def split: if_splits option.splits)
  moreover have "''-i'' \<notin> set (log_args s sys @ tolerance_args (pf_advanced p) @ probe_args sys
      @ (if fs_source_type s = ''file'' then [''-re''] else []))"
    by (auto simp: itoa_not_flag itoa_not_flag [symmetric] log_args_def tolerance_args_def probe_args_def opt_pos_def Let_def)
  ultimately show ?thesis using args by blast
qed

theorem standard_profile_accepted:
  assumes "tp_args (pf_template p) = []"
  shows "((\<exists>args. build_args s p sys = Inr args) \<longleftrightarrow> validate_input s = Inr () \<and> validate_url (fs_output_url s) = Inr ()
      \<and> vp_codec (pf_video p) \<noteq> [] \<and> ap_codec (pf_audio p) \<noteq> [] \<and> (lo_enabled (fs_logo s) \<longrightarrow> lo_path (fs_logo s) \<noteq> []))
    \<and> (\<forall>args. build_args s p sys = Inr args \<longrightarrow> (\<exists>front middle input destination format.
      args = front @ [''-i'', input] @ middle @ [''-f'', format, destination] \<and> ''-i'' \<notin> set front
      \<and> (input = fs_input_url s \<or> (\<exists>u. parse_url (fs_input_url s) = Some u \<and> input = url_string (tune_input_url sys u)))
      \<and> (destination = fs_output_url s \<or> (\<exists>u. parse_url (fs_output_url s) = Some u \<and> destination = url_string (tune_output_url sys u)))))"
proof -
  have b: "build_args s p sys = Inr args \<longleftrightarrow> validate_input s = Inr () \<and> validate_url (fs_output_url s) = Inr ()
      \<and> standard_args s p sys = Inr args" for args
    by (auto simp: build_args_def assms split: sum.split)
  show ?thesis
    unfolding b
  proof (intro conjI iffI allI impI)
    assume "\<exists>args. validate_input s = Inr () \<and> validate_url (fs_output_url s) = Inr () \<and> standard_args s p sys = Inr args"
    then obtain args where a: "validate_input s = Inr ()" "validate_url (fs_output_url s) = Inr ()" "standard_args s p sys = Inr args"
      by blast
    show "validate_input s = Inr ()" "validate_url (fs_output_url s) = Inr ()" "vp_codec (pf_video p) \<noteq> []"
      "ap_codec (pf_audio p) \<noteq> []" using a standard_only [OF a(3)] by simp_all
    show "lo_path (fs_logo s) \<noteq> []" if "lo_enabled (fs_logo s)" using that standard_only(3) [OF a(3)] by simp
  next
    fix args
    assume "validate_input s = Inr () \<and> validate_url (fs_output_url s) = Inr () \<and> standard_args s p sys = Inr args"
    then have "standard_args s p sys = Inr args" by simp
    from standard_shape [OF this] show "\<exists>front middle input destination format.
      args = front @ [''-i'', input] @ middle @ [''-f'', format, destination] \<and> ''-i'' \<notin> set front
      \<and> (input = fs_input_url s \<or> (\<exists>u. parse_url (fs_input_url s) = Some u \<and> input = url_string (tune_input_url sys u)))
      \<and> (destination = fs_output_url s \<or> (\<exists>u. parse_url (fs_output_url s) = Some u \<and> destination = url_string (tune_output_url sys u)))" .
  qed (use standard_ok in simp)
qed

text \<open>A stream with a UDP input and output, and the built-in profiles.\<close>

definition sample_stream :: ff_stream where
  "sample_stream = \<lparr>fs_input_url = ''udp://239.0.0.1:1234?localaddr=10.0.0.5'', fs_output_url = ''udp://239.0.0.2:1234'',
     fs_source_type = [], fs_video_map = [], fs_audio_map = [], fs_audio_maps = [], fs_disable_audio = False,
     fs_logo = \<lparr>lo_enabled = False, lo_path = [], lo_x = 0, lo_y = 0\<rparr>, fs_options = [(''preset'', ''fast''), (''i'', ''x'')],
     fs_keep_stats = False\<rparr>"

definition sample_system :: system_config where
  "sample_system = \<lparr>sc_udp_fifo_size = 1000000, sc_udp_buffer_size = 0, sc_udp_overrun_nonfatal = True, sc_udp_reuse = False,
     sc_pkt_size = 1316, sc_analyze_duration = 0, sc_probe_size = 0, sc_log_level = []\<rparr>"

lemma sample_valid: "validate_input sample_stream = Inr ()" "validate_url (fs_output_url sample_stream) = Inr ()"
  by code_simp+

lemma standard_profile_accepted_witness:
  "\<exists>args front. build_args sample_stream h264_veryfast_4m sample_system = Inr (front @ args) \<and> ''-i'' \<notin> set front \<and> hd args = ''-i''"
proof -
  have t: "tp_args (pf_template h264_veryfast_4m) = []" by (simp add: h264_veryfast_4m_def zero_profile_def)
  have "\<exists>args. build_args sample_stream h264_veryfast_4m sample_system = Inr args"
    using standard_profile_accepted [OF t] sample_valid
    by (simp add: h264_veryfast_4m_def zero_profile_def sample_stream_def)
  then obtain args where "build_args sample_stream h264_veryfast_4m sample_system = Inr args" by blast
  moreover from this obtain front rest where "args = front @ ''-i'' # rest" "''-i'' \<notin> set front"
    using standard_profile_accepted [OF t] by fastforce
  ultimately show ?thesis by (intro exI [of _ "''-i'' # rest"] exI [of _ front]) simp
qed

lemma template_rendering_witness:
  "render_template_arg ''${i}?p=${preset}'' (template_values sample_stream (pf_template h264_ultrafast_template_4m))
    = Inr (fs_input_url sample_stream @ ''?p=fast'')"
proof -
  let ?t = "pf_template h264_ultrafast_template_4m"
  let ?ps = "[Variable ''i'', Text ''?p='', Variable ''preset'']"
  have p: "list_all piece_ok ?ps"
    by (simp add: variable_name_def name_char_def is_alnum_def is_digit_def)
  have m: "map_ok (fs_options sample_stream)" "map_ok (tp_defaults ?t)"
    by (simp_all add: map_ok_def sample_stream_def h264_ultrafast_template_4m_def)
  note r = template_rendering [OF p m]
  have v: "get (template_values sample_stream ?t) ''i'' = Some (fs_input_url sample_stream)"
    "get (template_values sample_stream ?t) ''preset'' = Some ''fast''"
    using r [THEN conjunct2, of "''i''"] r [THEN conjunct2, of "''preset''"] by (simp_all add: sample_stream_def get_def)
  show ?thesis using r [THEN conjunct1] by (simp add: v Let_def)
qed

end
