(* ===== verification/Auth.thy ===== *)
theory Auth
  imports Sha256
begin

unbundle bit_operations_syntax

text \<open>
  User accounts, password hashes and access tokens (\<open>internal/auth/auth.go\<close>). A Go
  \<open>string\<close> is its bytes; the JSON codec of the claims is a pair of parameters \<open>enc\<close> and
  \<open>dec\<close>, the bytes \<open>rand.Read\<close> delivers are an argument (\<open>None\<close> when it fails), and the
  hash that \<open>pbkdf2Key\<close> takes is SHA-256, the only one the sources pass.
\<close>

subsection \<open>Data\<close>

definition access_token_ttl :: int where "access_token_ttl = seconds (15 * 60)"

definition refresh_token_ttl :: int where "refresh_token_ttl = seconds (7 * 24 * 60 * 60)"

record user =
  us_username :: string
  us_password_hash :: string
  us_must_change_password :: bool
  us_created_at :: gotime
  us_updated_at :: gotime
  us_token_version :: int

record public_user =
  pu_username :: string
  pu_must_change_password :: bool
  pu_created_at :: gotime
  pu_updated_at :: gotime

record claims =
  cl_subject :: string
  cl_type :: string
  cl_token_version :: int
  cl_expires_at :: gotime

datatype auth_error =
    UsernameLength | UsernameCharacters | PasswordTooShort | NoRandomness
  | NotEncodable | InvalidToken | InvalidTokenType | TokenExpired

definition public :: "user \<Rightarrow> public_user" where
  "public u = \<lparr>pu_username = us_username u, pu_must_change_password = us_must_change_password u,
     pu_created_at = us_created_at u, pu_updated_at = us_updated_at u\<rparr>"

subsection \<open>Names and passwords\<close>

text \<open>
  The loop over the runes of the name rejects everything outside ASCII letters, digits and
  three signs; a rune outside ASCII has no byte among them, so the bytes tell the same.
\<close>

definition username_char :: "char \<Rightarrow> bool" where
  "username_char c \<longleftrightarrow> is_alnum c \<or> c \<in> set ''_-.''"

definition validate_username :: "string \<Rightarrow> (auth_error, unit) result" where
  "validate_username name =
     (if length name < 3 \<or> length name > 64 then Inl UsernameLength
      else if list_all username_char name then Inr () else Inl UsernameCharacters)"

definition validate_password :: "string \<Rightarrow> (auth_error, unit) result" where
  "validate_password password = (if length password < 6 then Inl PasswordTooShort else Inr ())"

definition generate_secret :: "octets option \<Rightarrow> (auth_error, string) result" where
  "generate_secret random = (case random of None \<Rightarrow> Inl NoRandomness | Some data \<Rightarrow> Inr (encode64 data))"

text \<open>
  \<open>pbkdf2Key\<close>: the inner loop keeps the last MAC \<open>u\<close> and the running exclusive or \<open>acc\<close>; the
  outer one appends a block for each block number, written as four big-endian bytes.
\<close>

definition pbkdf2_step :: "octets \<Rightarrow> octets \<times> octets \<Rightarrow> octets \<times> octets" where
  "pbkdf2_step password = (\<lambda>(u, acc). let u' = hmac_sha256 password u in (u', map2 (XOR) acc u'))"

definition pbkdf2_block :: "octets \<Rightarrow> octets \<Rightarrow> int \<Rightarrow> nat \<Rightarrow> octets" where
  "pbkdf2_block password salt iter block =
     (let first = hmac_sha256 password (salt @ bytes_of_word (of_nat block))
      in snd ((pbkdf2_step password ^^ nat (iter - 1)) (first, first)))"

definition pbkdf2_key :: "octets \<Rightarrow> octets \<Rightarrow> int \<Rightarrow> nat \<Rightarrow> octets" where
  "pbkdf2_key password salt iter key_len =
     (let blocks = (key_len + 32 - 1) div 32
      in take key_len (concat (map (pbkdf2_block password salt iter) [1 ..< blocks + 1])))"

definition hash_text :: "octets \<Rightarrow> string \<Rightarrow> string" where
  "hash_text salt password = ''pbkdf2-sha256$120000$'' @ encode64 salt @ ''$''
     @ encode64 (pbkdf2_key (bytes_of_string password) salt 120000 32)"

definition hash_password :: "octets option \<Rightarrow> string \<Rightarrow> (auth_error, string) result" where
  "hash_password random password = (case random of None \<Rightarrow> Inl NoRandomness | Some salt \<Rightarrow> Inr (hash_text salt password))"

definition verify_password :: "string \<Rightarrow> string \<Rightarrow> bool" where
  "verify_password hash_value password = (case split_on (CHR ''$'') hash_value of
     [scheme, rounds, salt_text, key_text] \<Rightarrow>
       if scheme \<noteq> ''pbkdf2-sha256'' then False
       else (case parse_int64 rounds of None \<Rightarrow> False | Some iterations \<Rightarrow>
         if iterations < 1 then False
         else (case decode64 salt_text of None \<Rightarrow> False | Some salt \<Rightarrow>
           (case decode64 key_text of None \<Rightarrow> False | Some expected \<Rightarrow>
             pbkdf2_key (bytes_of_string password) salt iterations (length expected) = expected)))
   | _ \<Rightarrow> False)"

definition new_user :: "octets option \<Rightarrow> string \<Rightarrow> string \<Rightarrow> bool \<Rightarrow> gotime \<Rightarrow> (auth_error, user) result" where
  "new_user random username password must_change now =
     and_then (validate_username username) (\<lambda>_. and_then (validate_password password) (\<lambda>_.
       and_then (hash_password random password) (\<lambda>h.
         Inr \<lparr>us_username = username, us_password_hash = h, us_must_change_password = must_change,
           us_created_at = now, us_updated_at = now, us_token_version = 1\<rparr>)))"

subsection \<open>Tokens\<close>

definition sign :: "string \<Rightarrow> string \<Rightarrow> string" where
  "sign secret payload = encode64 (hmac_sha256 (bytes_of_string secret) (bytes_of_string payload))"

definition issue_token :: "(claims \<Rightarrow> octets option) \<Rightarrow> string \<Rightarrow> claims \<Rightarrow> (auth_error, string) result" where
  "issue_token enc secret c = (case enc c of
     None \<Rightarrow> Inl NotEncodable
   | Some body \<Rightarrow> let payload = encode64 body in Inr (payload @ ''.'' @ sign secret payload))"

definition verify_token :: "(octets \<Rightarrow> claims option) \<Rightarrow> string \<Rightarrow> string \<Rightarrow> string \<Rightarrow> gotime \<Rightarrow> (auth_error, claims) result" where
  "verify_token dec secret token kind now = (case cut token (CHR ''.'') of (payload, signature, ok) \<Rightarrow>
     if \<not> ok \<or> payload = [] \<or> signature = [] then Inl InvalidToken
     else if sign secret payload \<noteq> signature then Inl InvalidToken
     else (case decode64 payload of None \<Rightarrow> Inl InvalidToken | Some data \<Rightarrow>
       (case dec data of None \<Rightarrow> Inl InvalidToken | Some c \<Rightarrow>
         if cl_type c \<noteq> kind then Inl InvalidTokenType
         else if \<not> now < cl_expires_at c then Inl TokenExpired
         else if cl_subject c = [] \<or> cl_token_version c < 1 then Inl InvalidToken
         else Inr c)))"

subsection \<open>The key derivation is PBKDF2\<close>

text \<open>The MACs \<open>U\<^sub>1, U\<^sub>2, \<dots>\<close> of RFC 8018, counted from 0, and the block that they make.\<close>

definition rfc_u :: "octets \<Rightarrow> octets \<Rightarrow> nat \<Rightarrow> nat \<Rightarrow> octets" where
  "rfc_u password salt block n = (hmac_sha256 password ^^ n) (hmac_sha256 password (salt @ bytes_of_word (of_nat block)))"

definition rfc_block :: "octets \<Rightarrow> octets \<Rightarrow> nat \<Rightarrow> nat \<Rightarrow> octets" where
  "rfc_block password salt iter block =
     foldl (map2 (XOR)) (rfc_u password salt block 0) (map (rfc_u password salt block) [1 ..< iter])"

lemma pbkdf2_steps:
  "(pbkdf2_step password ^^ n) (rfc_u password salt block 0, rfc_u password salt block 0)
     = (rfc_u password salt block n, rfc_block password salt (Suc n) block)"
  by (induction n) (auto simp: pbkdf2_step_def rfc_u_def rfc_block_def Let_def)

lemma pbkdf2_block_rfc: "1 \<le> iter \<Longrightarrow> pbkdf2_block password salt iter block = rfc_block password salt (nat iter) block"
  using pbkdf2_steps [where password = password and n = "nat (iter - 1)" and salt = salt and block = block]
  by (simp add: pbkdf2_block_def Let_def rfc_u_def Suc_nat_eq_nat_zadd1)

lemma length_rfc_u [simp]: "length (rfc_u password salt block n) = 32"
  by (cases n) (simp_all add: rfc_u_def)

lemma length_xor_fold: "\<forall>u \<in> set us. length u = length v \<Longrightarrow> length (foldl (map2 (XOR)) v us) = length (v :: octets)"
  by (induction us arbitrary: v) auto

lemma length_pbkdf2_block [simp]: "length (pbkdf2_block password salt iter block) = 32"
proof -
  have "pbkdf2_block password salt iter block = rfc_block password salt (Suc (nat (iter - 1))) block"
    using pbkdf2_steps [where password = password and n = "nat (iter - 1)" and salt = salt and block = block] by (simp add: pbkdf2_block_def Let_def rfc_u_def)
  then show ?thesis by (simp add: rfc_block_def length_xor_fold)
qed

lemma length_pbkdf2_key [simp]: "length (pbkdf2_key password salt iter n) = n"
proof -
  have "length (concat (map (pbkdf2_block password salt iter) bs)) = 32 * length bs" for bs
    by (induction bs) auto
  moreover have "n \<le> 32 * ((n + 32 - 1) div 32)" by presburger
  moreover have "length [1 ..< m + 1] = m" for m :: nat by simp
  ultimately show ?thesis unfolding pbkdf2_key_def Let_def length_take by (simp only: min_absorb2)
qed

text \<open>
  C31: The hand-written key derivation is the PBKDF2 of RFC 8018 over HMAC-SHA-256: for every
  number of rounds and every length, the key is cut from the concatenated blocks, each the
  exclusive or of the iterated MACs of the salt and the block number, and has that length.
\<close>

theorem pbkdf2_is_rfc8018:
  assumes "1 \<le> iter"
  shows "pbkdf2_key password salt iter n
      = take n (concat (map (rfc_block password salt (nat iter)) [1 ..< Suc ((n + 31) div 32)]))
    \<and> length (pbkdf2_key password salt iter n) = n"
proof -
  have "pbkdf2_block password salt iter = rfc_block password salt (nat iter)"
    using pbkdf2_block_rfc [OF assms] by blast
  moreover have e: "n + 32 - 1 = n + 31" by simp
  ultimately have "pbkdf2_key password salt iter n
      = take n (concat (map (rfc_block password salt (nat iter)) [1 ..< Suc ((n + 31) div 32)]))"
    unfolding pbkdf2_key_def Let_def Suc_eq_plus1 using e by (simp only:)
  then show ?thesis using length_pbkdf2_key by blast
qed

theorem pbkdf2_is_rfc8018_witness:
  "pbkdf2_key [1] [2] 120000 32 = take 32 (concat (map (rfc_block [1] [2] 120000) [1 ..< 2]))"
  using pbkdf2_is_rfc8018 [of 120000 "[1]" "[2]" 32] by (simp add: upt_conv_Cons)

subsection \<open>Passwords are verified\<close>

lemma encode64_no_dollar: "CHR ''$'' \<notin> set (encode64 bs)"
  by (auto dest!: encode64_chars simp: url64_char_def is_alnum_def Let_def)

lemma encode64_no_dot: "CHR ''.'' \<notin> set (encode64 bs)"
  by (auto dest!: encode64_chars simp: url64_char_def is_alnum_def Let_def)

lemma itoa_no_dollar: "CHR ''$'' \<notin> set (itoa n)"
  using itoa_graphic [of "CHR ''$''" n] by (auto simp: is_digit_def)

lemma split_hash:
  assumes "CHR ''$'' \<notin> set r"
  shows "split_on (CHR ''$'') (''pbkdf2-sha256$'' @ r @ ''$'' @ encode64 salt @ ''$'' @ encode64 key)
    = [''pbkdf2-sha256'', r, encode64 salt, encode64 key]"
  using split_join [of "[''pbkdf2-sha256'', r, encode64 salt, encode64 key]" "CHR ''$''"] assms
  by (simp add: encode64_no_dollar)

lemma verify_hash:
  assumes "1 \<le> n" "n < 2 ^ 63"
  shows "verify_password (''pbkdf2-sha256$'' @ itoa n @ ''$'' @ encode64 salt @ ''$'' @ encode64 key) password
    \<longleftrightarrow> pbkdf2_key (bytes_of_string password) salt n (length key) = key"
  using assms unfolding verify_password_def split_hash [OF itoa_no_dollar]
  by (simp add: parse_itoa decode_encode)

lemma verify_hash_text:
  "verify_password (hash_text salt password) attempt \<longleftrightarrow>
     pbkdf2_key (bytes_of_string attempt) salt 120000 32 = pbkdf2_key (bytes_of_string password) salt 120000 32"
proof -
  have "itoa 120000 = ''120000''" by (simp add: itoa_def show_nat.simps digit_char_def char_of_def bit_Suc bit_0)
  then have "hash_text salt password = ''pbkdf2-sha256$'' @ itoa 120000 @ ''$'' @ encode64 salt @ ''$''
      @ encode64 (pbkdf2_key (bytes_of_string password) salt 120000 32)"
    by (simp add: hash_text_def)
  then show ?thesis
    using verify_hash [of 120000 salt "pbkdf2_key (bytes_of_string password) salt 120000 32" attempt] by simp
qed

text \<open>
  A new account has a valid name and a password of at least six bytes, starts with token
  version 1, and its hash accepts exactly the passwords from which PBKDF2 derives the same
  key with the salt of the hash, its own among them.
\<close>

theorem new_user_password:
  assumes "new_user random name password must_change now = Inr u"
  shows "\<exists>salt. random = Some salt
    \<and> (\<forall>attempt. verify_password (us_password_hash u) attempt \<longleftrightarrow>
        pbkdf2_key (bytes_of_string attempt) salt 120000 32 = pbkdf2_key (bytes_of_string password) salt 120000 32)
    \<and> verify_password (us_password_hash u) password
    \<and> us_username u = name \<and> validate_username name = Inr () \<and> 6 \<le> length password
    \<and> us_token_version u = 1 \<and> us_must_change_password u = must_change"
proof -
  obtain salt where r: "random = Some salt" and h: "us_password_hash u = hash_text salt password"
    and rest: "us_username u = name" "validate_username name = Inr ()" "6 \<le> length password" "us_token_version u = 1"
      "us_must_change_password u = must_change"
    using assms by (auto simp: new_user_def and_then_Inr hash_password_def validate_password_def split: option.splits if_splits)
  have v: "verify_password (us_password_hash u) attempt \<longleftrightarrow>
      pbkdf2_key (bytes_of_string attempt) salt 120000 32 = pbkdf2_key (bytes_of_string password) salt 120000 32" for attempt
    by (simp add: h verify_hash_text)
  show ?thesis using r rest by (simp add: v)
qed

theorem new_user_password_witness:
  "\<exists>u. new_user (Some [1, 2, 3]) ''admin'' ''123456'' True (Nanos 7) = Inr u \<and> verify_password (us_password_hash u) ''123456''"
proof -
  obtain u where u: "new_user (Some [1, 2, 3]) ''admin'' ''123456'' True (Nanos 7) = Inr u"
    by (simp add: new_user_def validate_username_def validate_password_def hash_password_def username_char_def is_alnum_def)
  then show ?thesis using new_user_password [OF u] by blast
qed

text \<open>
  The length of the compared key is taken from the hash itself, so a hash without a key
  accepts every password.
\<close>

theorem hash_without_key_accepts_all:
  assumes "1 \<le> n" "n < 2 ^ 63"
  shows "verify_password (''pbkdf2-sha256$'' @ itoa n @ ''$'' @ encode64 salt @ ''$'') password"
proof -
  have "pbkdf2_key (bytes_of_string password) salt n 0 = []" by (simp flip: length_0_conv)
  then show ?thesis using verify_hash [OF assms, of salt "[]" password] by simp
qed

theorem hash_without_key_accepts_all_witness: "verify_password ''pbkdf2-sha256$1$$'' ''anything''"
proof -
  have "itoa 1 = ''1''" by (simp add: itoa_def show_nat.simps digit_char_def char_of_def bit_Suc bit_0)
  then show ?thesis using hash_without_key_accepts_all [of 1 "[]" "''anything''"] by simp
qed

subsection \<open>Tokens are accepted when they should be\<close>

lemma sign_chars: "CHR ''.'' \<notin> set (sign secret payload)" "length (sign secret payload) = 43" "sign secret payload \<noteq> []"
  using length_encode64 [of "hmac_sha256 (bytes_of_string secret) (bytes_of_string payload)"]
  by (auto simp: sign_def encode64_no_dot)

lemma cut_token: "CHR ''.'' \<notin> set payload \<Longrightarrow> cut (payload @ ''.'' @ s) (CHR ''.'') = (payload, s, True)"
  by simp

text \<open>
  C32: A token is accepted exactly when it is a payload, a dot and the payload's own tag under
  the secret, and the payload holds claims of the right kind that have not expired and name a
  subject and a version. The accepted text for a payload is unique, so no token can be
  altered into another one for the same claims.
\<close>

theorem token_accepted_iff:
  "(verify_token dec secret token kind now = Inr c) \<longleftrightarrow>
     (\<exists>payload data. token = payload @ ''.'' @ sign secret payload \<and> payload \<noteq> [] \<and> CHR ''.'' \<notin> set payload
       \<and> decode64 payload = Some data \<and> dec data = Some c
       \<and> cl_type c = kind \<and> now < cl_expires_at c \<and> cl_subject c \<noteq> [] \<and> 1 \<le> cl_token_version c)" (is "?a = ?b")
proof
  assume ?a
  then obtain payload signature where cut: "cut token (CHR ''.'') = (payload, signature, True)"
    and p: "payload \<noteq> []" "sign secret payload = signature"
    by (auto simp: verify_token_def split: prod.splits if_splits)
  from \<open>?a\<close> obtain data where "decode64 payload = Some data" "dec data = Some c"
      "cl_type c = kind" "now < cl_expires_at c" "cl_subject c \<noteq> []" "1 \<le> cl_token_version c"
    by (auto simp: verify_token_def cut split: option.splits if_splits)
  then show ?b using p cut_found [OF cut] by auto
next
  assume ?b
  then obtain payload data where t: "token = payload @ ''.'' @ sign secret payload" and p: "payload \<noteq> []" "CHR ''.'' \<notin> set payload"
    and d: "decode64 payload = Some data" "dec data = Some c"
    and c: "cl_type c = kind" "now < cl_expires_at c" "cl_subject c \<noteq> []" "1 \<le> cl_token_version c" by blast
  have "cut token (CHR ''.'') = (payload, sign secret payload, True)" unfolding t by (rule cut_token [OF p(2)])
  then show ?a using p d c sign_chars(3) by (simp add: verify_token_def)
qed

text \<open>
  An issued token verifies to the claims it was issued for, with the same secret and for
  their own kind, at every instant before they expire and at none after.
\<close>

theorem issued_token_verifies:
  assumes "enc c = Some body" and "body \<noteq> []" and "dec body = Some c"
    and "cl_subject c \<noteq> []" and "1 \<le> cl_token_version c"
  shows "\<exists>token. issue_token enc secret c = Inr token
    \<and> (\<forall>now. verify_token dec secret token (cl_type c) now = (if now < cl_expires_at c then Inr c else Inl TokenExpired))
    \<and> (\<forall>now kind. kind \<noteq> cl_type c \<longrightarrow> verify_token dec secret token kind now = Inl InvalidTokenType)"
proof -
  let ?p = "encode64 body"
  have "?p \<noteq> []" using assms(2) by (cases body rule: encode64.cases) auto
  then have "verify_token dec secret (?p @ ''.'' @ sign secret ?p) kind now =
      (if cl_type c \<noteq> kind then Inl InvalidTokenType else if \<not> now < cl_expires_at c then Inl TokenExpired else Inr c)" for kind now
    unfolding verify_token_def cut_token [OF encode64_no_dot]
    using assms sign_chars(3) by (simp add: decode_encode)
  then show ?thesis using assms(1) by (simp add: issue_token_def Let_def)
qed

definition sample_claims :: claims where
  "sample_claims = \<lparr>cl_subject = ''admin'', cl_type = ''access'', cl_token_version = 1, cl_expires_at = Nanos 9\<rparr>"

theorem issued_token_verifies_witness:
  "\<exists>token. issue_token (\<lambda>_. Some [65]) ''s'' sample_claims = Inr token
    \<and> verify_token (\<lambda>_. Some sample_claims) ''s'' token ''access'' (Nanos 8) = Inr sample_claims"
  using issued_token_verifies [of "\<lambda>_. Some [65]" sample_claims "[65]" "\<lambda>_. Some sample_claims" "''s''"]
  by (auto simp: sample_claims_def gotime_less_iff)

end
