(* ===== verification/StreamConfig.thy ===== *)
theory StreamConfig
  imports FfmpegArgs Auth Complex_Main
begin

text \<open>
  The data of the stream store and the validation of stream configurations and profiles
  (\<open>internal/streams/store.go\<close>). Go's int and int64 are \<open>int\<close>, except that a number of seconds
  from the configuration is turned into a \<open>time.Duration\<close> with the wrap-around at 64 bits that
  the multiplication has (\<open>duration_seconds\<close>). The frame rate is only copied and is kept as the
  bits of the float; the CPU share is the exact quotient, without the rounding of the float.
\<close>

subsection \<open>Durations\<close>

definition wrap64 :: "int \<Rightarrow> int" where
  "wrap64 n = (n + 2 ^ 63) mod 2 ^ 64 - 2 ^ 63"

definition duration_seconds :: "int \<Rightarrow> int" where
  "duration_seconds n = wrap64 (n * 1000000000)"

text \<open>\<open>Time.Sub\<close> saturates at the bounds of \<open>time.Duration\<close>.\<close>

definition go_sub :: "gotime \<Rightarrow> gotime \<Rightarrow> int" where
  "go_sub a b = max (- (2 ^ 63)) (min (2 ^ 63 - 1) (time_sub a b))"

lemma wrap64_small: "- (2 ^ 63) \<le> n \<Longrightarrow> n < 2 ^ 63 \<Longrightarrow> wrap64 n = n"
  by (simp add: wrap64_def)

lemma wrap64_range: "- (2 ^ 63) \<le> wrap64 n \<and> wrap64 n < 2 ^ 63"
  using pos_mod_bound [of "2 ^ 64 :: int" "n + 2 ^ 63"] pos_mod_sign [of "2 ^ 64 :: int" "n + 2 ^ 63"]
  by (simp add: wrap64_def)

lemma duration_seconds_small: "- 9223372036 \<le> n \<Longrightarrow> n \<le> 9223372036 \<Longrightarrow> duration_seconds n = seconds n"
  by (simp add: duration_seconds_def seconds_def wrap64_small)

text \<open>A duration is even, so no difference is both saturated and equal to one.\<close>

lemma go_sub_greater: "go_sub a b > duration_seconds n \<longleftrightarrow> time_sub a b > duration_seconds n"
proof -
  have "even ((n * 1000000000 + 2 ^ 63) mod 2 ^ 64)" by (rule dvd_mod) simp_all
  then have "even (duration_seconds n)" by (simp add: duration_seconds_def wrap64_def)
  then have "duration_seconds n \<noteq> 2 ^ 63 - 1" by auto
  moreover have "duration_seconds n < 2 ^ 63" "- (2 ^ 63) \<le> duration_seconds n"
    using wrap64_range by (simp_all add: duration_seconds_def)
  ultimately show ?thesis unfolding go_sub_def by linarith
qed

subsection \<open>Data\<close>

record stream_logo =
  sl_enabled :: bool
  sl_path :: string
  sl_x :: int
  sl_y :: int

record restart_policy =
  rp_enabled :: bool
  rp_max_attempts :: int
  rp_window_seconds :: int
  rp_backoff_seconds :: int

record watchdog_policy =
  wp_enabled :: bool
  wp_progress_timeout_seconds :: int
  wp_max_memory_bytes :: int
  wp_memory_grace_seconds :: int

record stream_config =
  cf_id :: string
  cf_name :: string
  cf_input_url :: string
  cf_output_url :: string
  cf_source_type :: string
  cf_profile_name :: string
  cf_video_map :: string
  cf_audio_map :: string
  cf_audio_maps :: "string list"
  cf_disable_audio :: bool
  cf_logo :: stream_logo
  cf_options :: "(string, string) gomap"
  cf_log_retention_seconds :: int
  cf_log_level :: string
  cf_keep_stats :: bool
  cf_enabled :: bool
  cf_restart :: "restart_policy option"
  cf_watchdog :: "watchdog_policy option"

record metrics =
  me_frame :: int
  me_fps :: "64 word"
  me_bitrate :: string
  me_total_size :: int
  me_out_time :: string
  me_out_time_ms :: int
  me_speed :: string
  me_progress :: string
  me_updated_at :: gotime

record process =
  pr_cpu_percent :: rat
  pr_memory_bytes :: int
  pr_updated_at :: gotime

record stream_state =
  stt_status :: string
  stt_pid :: int
  stt_started_at :: "gotime option"
  stt_stopped_at :: "gotime option"
  stt_error_code :: string
  stt_last_error :: string
  stt_restart_count :: int
  stt_flapping :: bool
  stt_metrics :: "metrics option"
  stt_process :: "process option"

record log_entry =
  lg_stream_id :: string
  lg_time :: gotime
  lg_level :: string
  lg_code :: string
  lg_message :: string

record stream_view =
  sv_config :: stream_config
  sv_state :: stream_state

definition stopped_stream :: stream_state where
  "stopped_stream = \<lparr>stt_status = ''stopped'', stt_pid = 0, stt_started_at = None, stt_stopped_at = None,
     stt_error_code = [], stt_last_error = [], stt_restart_count = 0, stt_flapping = False, stt_metrics = None,
     stt_process = None\<rparr>"

subsection \<open>Validation\<close>

datatype config_error =
    IdRequired | InputUrlRequired | OutputUrlRequired | SourceTypeUnknown | RetentionNegative | LogLevelUnknown
  | OptionReserved string | OptionInvalid string
  | RestartAttempts | RestartWindow | RestartBackoff
  | WatchdogTimeout | WatchdogMemory | WatchdogGrace

datatype profile_error = NameRequired | VideoCodecMissing | AudioCodecMissing

definition default_log_retention_seconds :: int where
  "default_log_retention_seconds = 60"

definition option_name_pattern :: "string \<Rightarrow> bool" where
  "option_name_pattern s \<longleftrightarrow> s \<noteq> [] \<and> name_char (hd s) \<and> \<not> is_digit (hd s) \<and> list_all name_char (tl s)"

fun validate_options :: "(string, string) gomap \<Rightarrow> (config_error, unit) result" where
  "validate_options [] = Inr ()"
| "validate_options ((name, _) # rest) =
     (if name = ''i'' \<or> name = ''o'' then Inl (OptionReserved name)
      else if \<not> option_name_pattern name then Inl (OptionInvalid name)
      else validate_options rest)"

definition default_restart_policy :: restart_policy where
  "default_restart_policy = \<lparr>rp_enabled = True, rp_max_attempts = 5, rp_window_seconds = 300, rp_backoff_seconds = 5\<rparr>"

definition or_default :: "int \<Rightarrow> int \<Rightarrow> int" where
  "or_default n d = (if n \<noteq> 0 then n else d)"

definition normalize_restart_policy :: "restart_policy option \<Rightarrow> (config_error, restart_policy) result" where
  "normalize_restart_policy policy = (case policy of
     None \<Rightarrow> Inr default_restart_policy
   | Some p \<Rightarrow>
       if \<not> rp_enabled p then Inr p
       else let n = \<lparr>rp_enabled = True,
           rp_max_attempts = or_default (rp_max_attempts p) (rp_max_attempts default_restart_policy),
           rp_window_seconds = or_default (rp_window_seconds p) (rp_window_seconds default_restart_policy),
           rp_backoff_seconds = or_default (rp_backoff_seconds p) (rp_backoff_seconds default_restart_policy)\<rparr>
       in if rp_max_attempts n < 1 then Inl RestartAttempts
          else if rp_window_seconds n < 1 then Inl RestartWindow
          else if rp_backoff_seconds n < 1 then Inl RestartBackoff
          else Inr n)"

definition default_watchdog_policy :: watchdog_policy where
  "default_watchdog_policy = \<lparr>wp_enabled = True, wp_progress_timeout_seconds = 120, wp_max_memory_bytes = 0,
     wp_memory_grace_seconds = 30\<rparr>"

definition normalize_watchdog_policy :: "watchdog_policy option \<Rightarrow> (config_error, watchdog_policy) result" where
  "normalize_watchdog_policy policy = (case policy of
     None \<Rightarrow> Inr default_watchdog_policy
   | Some p \<Rightarrow>
       if \<not> wp_enabled p then Inr p
       else let n = \<lparr>wp_enabled = True,
           wp_progress_timeout_seconds = or_default (wp_progress_timeout_seconds p) (wp_progress_timeout_seconds default_watchdog_policy),
           wp_max_memory_bytes = or_default (wp_max_memory_bytes p) (wp_max_memory_bytes default_watchdog_policy),
           wp_memory_grace_seconds = or_default (wp_memory_grace_seconds p) (wp_memory_grace_seconds default_watchdog_policy)\<rparr>
       in if wp_progress_timeout_seconds n < 1 then Inl WatchdogTimeout
          else if wp_max_memory_bytes n < 0 then Inl WatchdogMemory
          else if wp_memory_grace_seconds n < 1 then Inl WatchdogGrace
          else Inr n)"

definition fill_config :: "stream_config \<Rightarrow> stream_config" where
  "fill_config c = c\<lparr>cf_name := (if cf_name c = [] then cf_id c else cf_name c),
     cf_source_type := (if cf_source_type c = [] then ''multicast'' else cf_source_type c),
     cf_profile_name := (if cf_profile_name c = [] then ''h264_veryfast_4m'' else cf_profile_name c),
     cf_log_retention_seconds := or_default (cf_log_retention_seconds c) default_log_retention_seconds\<rparr>"

definition normalize_config :: "stream_config \<Rightarrow> (config_error, stream_config) result" where
  "normalize_config c0 = (let c = fill_config c0 in
     if cf_id c = [] then Inl IdRequired
     else if cf_input_url c = [] then Inl InputUrlRequired
     else if cf_output_url c = [] then Inl OutputUrlRequired
     else if cf_source_type c \<noteq> ''multicast'' \<and> cf_source_type c \<noteq> ''file'' then Inl SourceTypeUnknown
     else if cf_log_retention_seconds c < 0 then Inl RetentionNegative
     else if cf_log_level c \<notin> set [[], ''info'', ''warning'', ''error''] then Inl LogLevelUnknown
     else and_then (validate_options (cf_options c)) (\<lambda>_.
       and_then (normalize_restart_policy (cf_restart c)) (\<lambda>restart.
         and_then (normalize_watchdog_policy (cf_watchdog c)) (\<lambda>watchdog.
           Inr (c\<lparr>cf_restart := Some restart, cf_watchdog := Some watchdog\<rparr>)))))"

definition normalize_profile :: "profile \<Rightarrow> (profile_error, profile) result" where
  "normalize_profile p =
     (if pf_name p = [] then Inl NameRequired
      else if tp_args (pf_template p) \<noteq> [] then Inr p
      else if vp_codec (pf_video p) = [] then Inl VideoCodecMissing
      else if ap_codec (pf_audio p) = [] then Inl AudioCodecMissing
      else if op_format (pf_output p) = [] then Inr (p\<lparr>pf_output := (pf_output p)\<lparr>op_format := ''mpegts''\<rparr>\<rparr>)
      else Inr p)"

subsection \<open>What an accepted configuration is\<close>

definition restart_shape :: "restart_policy \<Rightarrow> bool" where
  "restart_shape p \<longleftrightarrow> (rp_enabled p \<longrightarrow> 1 \<le> rp_max_attempts p \<and> 1 \<le> rp_window_seconds p \<and> 1 \<le> rp_backoff_seconds p)"

definition watchdog_shape :: "watchdog_policy \<Rightarrow> bool" where
  "watchdog_shape p \<longleftrightarrow> (wp_enabled p \<longrightarrow>
     1 \<le> wp_progress_timeout_seconds p \<and> 0 \<le> wp_max_memory_bytes p \<and> 1 \<le> wp_memory_grace_seconds p)"

definition config_shape :: "stream_config \<Rightarrow> bool" where
  "config_shape c \<longleftrightarrow> cf_id c \<noteq> [] \<and> cf_name c \<noteq> [] \<and> cf_input_url c \<noteq> [] \<and> cf_output_url c \<noteq> []
     \<and> cf_source_type c \<in> {''multicast'', ''file''} \<and> cf_profile_name c \<noteq> [] \<and> 0 < cf_log_retention_seconds c
     \<and> cf_log_level c \<in> {[], ''info'', ''warning'', ''error''}
     \<and> (\<forall>(name, _) \<in> set (cf_options c). name \<noteq> ''i'' \<and> name \<noteq> ''o'' \<and> variable_name name)
     \<and> (\<exists>p. cf_restart c = Some p \<and> restart_shape p) \<and> (\<exists>p. cf_watchdog c = Some p \<and> watchdog_shape p)"

definition profile_shape :: "profile \<Rightarrow> bool" where
  "profile_shape p \<longleftrightarrow> pf_name p \<noteq> [] \<and> (tp_args (pf_template p) = [] \<longrightarrow>
     vp_codec (pf_video p) \<noteq> [] \<and> ap_codec (pf_audio p) \<noteq> [] \<and> op_format (pf_output p) \<noteq> [])"

lemma option_name_variable: "option_name_pattern s \<longleftrightarrow> variable_name s"
  by (cases s) (auto simp: option_name_pattern_def variable_name_def)

lemma validate_options_iff:
  "validate_options os = Inr () \<longleftrightarrow> (\<forall>(name, _) \<in> set os. name \<noteq> ''i'' \<and> name \<noteq> ''o'' \<and> variable_name name)"
  by (induction os rule: validate_options.induct) (auto simp: option_name_variable)

lemma restart_establishes: "normalize_restart_policy policy = Inr p \<Longrightarrow> restart_shape p"
  by (auto simp: normalize_restart_policy_def default_restart_policy_def restart_shape_def Let_def split: option.splits if_splits)

lemma restart_fixed: "restart_shape p \<Longrightarrow> normalize_restart_policy (Some p) = Inr p"
  by (cases p) (auto simp: normalize_restart_policy_def restart_shape_def or_default_def Let_def)

lemma watchdog_establishes: "normalize_watchdog_policy policy = Inr p \<Longrightarrow> watchdog_shape p"
  by (auto simp: normalize_watchdog_policy_def default_watchdog_policy_def watchdog_shape_def Let_def split: option.splits if_splits)

lemma watchdog_fixed: "watchdog_shape p \<Longrightarrow> normalize_watchdog_policy (Some p) = Inr p"
  by (cases p) (auto simp: normalize_watchdog_policy_def default_watchdog_policy_def watchdog_shape_def or_default_def Let_def)

lemma normalize_config_Inr:
  "normalize_config c = Inr n \<longleftrightarrow> (\<exists>r w. n = (fill_config c)\<lparr>cf_restart := Some r, cf_watchdog := Some w\<rparr>
     \<and> cf_id (fill_config c) \<noteq> [] \<and> cf_input_url (fill_config c) \<noteq> [] \<and> cf_output_url (fill_config c) \<noteq> []
     \<and> cf_source_type (fill_config c) \<in> {''multicast'', ''file''} \<and> 0 \<le> cf_log_retention_seconds (fill_config c)
     \<and> cf_log_level (fill_config c) \<in> {[], ''info'', ''warning'', ''error''}
     \<and> validate_options (cf_options (fill_config c)) = Inr () \<and> normalize_restart_policy (cf_restart (fill_config c)) = Inr r
     \<and> normalize_watchdog_policy (cf_watchdog (fill_config c)) = Inr w)"
  by (simp add: normalize_config_def Let_def and_then_Inr not_less) blast

lemma fill_config_filled:
  "cf_id (fill_config c) = cf_id c" "cf_id c \<noteq> [] \<Longrightarrow> cf_name (fill_config c) \<noteq> []" "cf_profile_name (fill_config c) \<noteq> []"
  "cf_log_retention_seconds (fill_config c) \<noteq> 0"
  by (simp_all add: fill_config_def or_default_def default_log_retention_seconds_def)

lemma normalize_config_shape: "normalize_config c = Inr n \<Longrightarrow> config_shape n"
  using fill_config_filled [of c] unfolding normalize_config_Inr
  by (elim exE conjE) (simp add: config_shape_def validate_options_iff restart_establishes watchdog_establishes)

lemma normalize_config_fixed: "config_shape n \<Longrightarrow> normalize_config n = Inr n"
proof -
  assume s: "config_shape n"
  obtain p q where p: "cf_restart n = Some p" "restart_shape p" and q: "cf_watchdog n = Some q" "watchdog_shape q"
    using s by (auto simp: config_shape_def)
  have "cf_name n \<noteq> []" "cf_source_type n \<noteq> []" "cf_profile_name n \<noteq> []" "cf_log_retention_seconds n \<noteq> 0"
    using s by (auto simp: config_shape_def)
  then have f: "fill_config n = n" by (simp add: fill_config_def or_default_def)
  have o: "validate_options (cf_options n) = Inr ()" using s by (simp add: config_shape_def validate_options_iff)
  have "n\<lparr>cf_restart := Some p, cf_watchdog := Some q\<rparr> = n" using p q by simp
  then show ?thesis
    using s p q unfolding normalize_config_Inr f config_shape_def
    by (intro exI [of _ p] exI [of _ q]) (simp add: o restart_fixed watchdog_fixed)
qed

lemma normalize_config_id: "normalize_config c = Inr n \<Longrightarrow> cf_id n = cf_id c"
  unfolding normalize_config_Inr by (auto simp: fill_config_filled)

lemma normalize_profile_shape: "normalize_profile p = Inr n \<Longrightarrow> profile_shape n \<and> pf_name n = pf_name p"
  by (auto simp: normalize_profile_def profile_shape_def split: if_splits)

lemma normalize_profile_fixed: "profile_shape p \<Longrightarrow> normalize_profile p = Inr p"
  by (auto simp: normalize_profile_def profile_shape_def)

lemma default_profiles_shape: "profile_shape h264_veryfast_4m" "profile_shape h264_ultrafast_template_4m"
  "pf_name h264_veryfast_4m = ''h264_veryfast_4m''" "pf_name h264_ultrafast_template_4m = ''h264_ultrafast_template_4m''"
  by (simp_all add: profile_shape_def h264_veryfast_4m_def h264_ultrafast_template_4m_def zero_profile_def zero_video_def)

text \<open>
  The configurations that \<open>normalizeConfig\<close> returns are exactly the well-formed ones, and
  it returns those unchanged: validating what was validated changes nothing. Profiles likewise.
\<close>

theorem normalize_config_exact:
  "((\<exists>c. normalize_config c = Inr n) \<longleftrightarrow> config_shape n) \<and> (config_shape n \<longleftrightarrow> normalize_config n = Inr n)
    \<and> ((\<exists>p. normalize_profile p = Inr q) \<longleftrightarrow> profile_shape q) \<and> (profile_shape q \<longleftrightarrow> normalize_profile q = Inr q)"
  using normalize_config_shape normalize_config_fixed normalize_profile_shape normalize_profile_fixed by blast

end
