(* ===== verification/FfmpegLog.thy ===== *)
theory FfmpegLog
  imports StreamConfig
begin

text \<open>
  What is read from a running ffmpeg: the cutting of its output into lines
  (\<open>scanCRLF\<close> in \<open>internal/streams/jobs.go\<close> under the loop of Go's \<open>bufio.Scanner\<close>), the
  classification of log lines (\<open>errors.go\<close>), the progress report, and the process sample
  from \<open>/proc\<close> (\<open>procmetrics.go\<close>).
\<close>

subsection \<open>Error codes\<close>

definition error_process_exit :: string where "error_process_exit = ''process_exit''"
definition error_input :: string where "error_input = ''input_error''"
definition error_output :: string where "error_output = ''output_error''"
definition error_bind :: string where "error_bind = ''bind_error''"
definition error_network :: string where "error_network = ''network_error''"
definition error_codec :: string where "error_codec = ''codec_error''"
definition error_permission :: string where "error_permission = ''permission_error''"
definition error_watchdog :: string where "error_watchdog = ''watchdog''"
definition error_unknown :: string where "error_unknown = ''unknown_error''"
definition error_packet_loss :: string where "error_packet_loss = ''packet_loss''"

lemmas error_codes = error_process_exit_def error_input_def error_output_def error_bind_def error_network_def
  error_codec_def error_permission_def error_watchdog_def error_unknown_def error_packet_loss_def

text \<open>
  \<open>strings.ToLower\<close> as far as a search for ASCII text can tell: besides the ASCII letters, two
  runes of Unicode have an ASCII lower case, U+0130 and U+212A. The bytes of every other rune
  stay outside ASCII.
\<close>

fun fold_case :: "string \<Rightarrow> string" where
  "fold_case (a # b # c # s) =
     (if a = byte 0xC4 \<and> b = byte 0xB0 then CHR ''i'' # fold_case (c # s)
      else if a = byte 0xE2 \<and> b = byte 0x84 \<and> c = byte 0xAA then CHR ''k'' # fold_case s
      else lower_char a # fold_case (b # c # s))"
| "fold_case [a, b] = (if a = byte 0xC4 \<and> b = byte 0xB0 then ''i'' else [lower_char a, lower_char b])"
| "fold_case [a] = [lower_char a]"
| "fold_case [] = []"

definition contains_one_of :: "string \<Rightarrow> string list \<Rightarrow> bool" where
  "contains_one_of s subs \<longleftrightarrow> list_ex (contains_str s) subs"

definition is_packet_loss_noise :: "string \<Rightarrow> bool" where
  "is_packet_loss_noise lower = contains_one_of lower
     [''packet corrupt'', ''corrupt input packet'', ''timestamp discontinuity'', ''error while decoding mb'',
      ''corrupt decoded frame'', ''non-existing pps'', ''non-existing sps'', ''decode_slice_header error'', ''no frame!'',
      ''co located pocs unavailable'']"

definition is_ffmpeg_stats_line :: "string \<Rightarrow> bool" where
  "is_ffmpeg_stats_line line = (let trimmed = trim_space line in
     (has_prefix trimmed ''frame='' \<or> has_prefix trimmed ''size='') \<and> contains_str trimmed ''bitrate='')"

definition classify_error :: "string \<Rightarrow> string" where
  "classify_error message = (let lower = fold_case message in
     if lower = [] then []
     else if contains_one_of lower [''permission denied'', ''operation not permitted''] then error_permission
     else if contains_one_of lower [''address already in use'', ''bind failed''] then error_bind
     else if contains_one_of lower [''no route to host'', ''network is unreachable'', ''connection refused'', ''connection timed out'']
       then error_network
     else if contains_one_of lower [''invalid data found'', ''could not find codec'', ''unknown decoder'', ''unknown encoder'',
         ''error while decoding'', ''error while encoding''] then error_codec
     else if contains_one_of lower [''error opening input'', ''no such file or directory'', ''input/output error''] then error_input
     else if contains_one_of lower [''error opening output'', ''muxer'', ''could not write''] then error_output
     else error_unknown)"

text \<open>
  The tag of a line: the leftmost match of the pattern, which is a bracketed level and the
  white space after it. The result is the text before the tag, the level and the text after.
\<close>

definition ffmpeg_levels :: "string list" where
  "ffmpeg_levels = [''panic'', ''fatal'', ''error'', ''warning'', ''info'', ''verbose'', ''debug'', ''trace'']"

definition pattern_space :: "char \<Rightarrow> bool" where
  "pattern_space c \<longleftrightarrow> (of_char c :: nat) \<in> {9, 10, 12, 13, 32}"

definition tag_here :: "string \<Rightarrow> (string \<times> string) option" where
  "tag_here s = (case find (\<lambda>level. has_prefix s (''['' @ level @ '']'')) ffmpeg_levels of
     None \<Rightarrow> None
   | Some level \<Rightarrow> Some (level, dropWhile pattern_space (drop (length level + 2) s)))"

fun ffmpeg_level_tag :: "string \<Rightarrow> (string \<times> string \<times> string) option" where
  "ffmpeg_level_tag [] = None"
| "ffmpeg_level_tag (c # s) = (case tag_here (c # s) of
     Some (level, rest) \<Rightarrow> Some ([], level, rest)
   | None \<Rightarrow> (case ffmpeg_level_tag s of None \<Rightarrow> None | Some (before, level, rest) \<Rightarrow> Some (c # before, level, rest)))"

definition parse_ffmpeg_level :: "string \<Rightarrow> string \<times> string" where
  "parse_ffmpeg_level line = (case ffmpeg_level_tag line of
     None \<Rightarrow> (''info'', line)
   | Some (before, level, rest) \<Rightarrow>
       (if level \<in> set [''panic'', ''fatal'', ''error''] then ''error'' else if level = ''warning'' then ''warn'' else ''info'',
        before @ rest))"

subsection \<open>Lines\<close>

definition is_break :: "char \<Rightarrow> bool" where
  "is_break c \<longleftrightarrow> c = byte 13 \<or> c = byte 10"

text \<open>How many bytes to advance, and the token if there is one.\<close>

definition scan_crlf :: "string \<Rightarrow> bool \<Rightarrow> nat \<times> string option" where
  "scan_crlf data at_eof =
     (if at_eof \<and> data = [] then (0, None)
      else (case dropWhile (\<lambda>c. \<not> is_break c) data of
        c # rest \<Rightarrow>
          let token = takeWhile (\<lambda>c. \<not> is_break c) data;
              advance = length token + 1
          in (if c = byte 13 \<and> rest \<noteq> [] \<and> hd rest = byte 10 then advance + 1 else advance, Some token)
      | [] \<Rightarrow> if at_eof then (length data, Some data) else (0, None)))"

lemma scan_crlf_progress: "scan_crlf data at_eof = (n, Some t) \<Longrightarrow> 0 < n \<and> data \<noteq> []"
  by (cases data) (auto simp: scan_crlf_def Let_def split: list.splits if_splits)

text \<open>The tokens the scanner delivers from its buffer before it has to read again.\<close>

function buffered_tokens :: "bool \<Rightarrow> string \<Rightarrow> string list \<times> string" where
  "buffered_tokens at_eof data = (case scan_crlf data at_eof of
     (n, None) \<Rightarrow> ([], data)
   | (n, Some t) \<Rightarrow> (case buffered_tokens at_eof (drop n data) of (ts, rest) \<Rightarrow> (t # ts, rest)))"
  by pat_completeness auto
termination
  by (relation "measure (\<lambda>(_, d). length d)") (auto dest: scan_crlf_progress [OF sym])

declare buffered_tokens.simps [simp del]

definition max_log_line_bytes :: nat where
  "max_log_line_bytes = 1024 * 1024"

text \<open>
  The loop of \<open>Scan\<close> over what the reads of the pipe deliver: the tokens in order, and
  whether it stopped because an unfinished token fills the buffer, whose size is the limit.
\<close>

fun scan_reads :: "nat \<Rightarrow> string \<Rightarrow> string list \<Rightarrow> string list \<times> bool" where
  "scan_reads limit pending [] = (fst (buffered_tokens True pending), False)"
| "scan_reads limit pending (chunk # chunks) = (case buffered_tokens False (pending @ chunk) of
     (ts, rest) \<Rightarrow>
       if length rest \<ge> limit then (ts, True)
       else (case scan_reads limit rest chunks of (us, too_long) \<Rightarrow> (ts @ us, too_long)))"

definition scan_lines :: "string list \<Rightarrow> string list \<times> bool" where
  "scan_lines chunks = scan_reads max_log_line_bytes [] chunks"

subsection \<open>Progress\<close>

definition parse_int :: "string \<Rightarrow> int" where
  "parse_int value = (if value = [] \<or> value = ''N/A'' then 0 else (case parse_int64 value of None \<Rightarrow> 0 | Some n \<Rightarrow> n))"

text \<open>\<open>strconv.ParseFloat\<close> is the parameter \<open>pf\<close>, giving the bits of the float; zero is zero bits.\<close>

definition parse_float :: "(string \<Rightarrow> 64 word option) \<Rightarrow> string \<Rightarrow> 64 word" where
  "parse_float pf value = (if value = [] \<or> value = ''N/A'' then 0 else (case pf value of None \<Rightarrow> 0 | Some x \<Rightarrow> x))"

definition field :: "(string, string) gomap \<Rightarrow> string \<Rightarrow> string" where
  "field fs k = (case get fs k of None \<Rightarrow> [] | Some v \<Rightarrow> v)"

definition parse_progress :: "(string \<Rightarrow> 64 word option) \<Rightarrow> (string, string) gomap \<Rightarrow> gotime \<Rightarrow> metrics" where
  "parse_progress pf fs now = \<lparr>me_frame = parse_int (field fs ''frame''), me_fps = parse_float pf (field fs ''fps''),
     me_bitrate = field fs ''bitrate'', me_total_size = parse_int (field fs ''total_size''),
     me_out_time = field fs ''out_time'', me_out_time_ms = parse_int (field fs ''out_time_ms''),
     me_speed = field fs ''speed'', me_progress = field fs ''progress'', me_updated_at = now\<rparr>"

text \<open>One line of the report: the fields collected so far, and the metrics when a report ends.\<close>

definition progress_line :: "(string \<Rightarrow> 64 word option) \<Rightarrow> gotime \<Rightarrow> string \<Rightarrow> (string, string) gomap
    \<Rightarrow> (string, string) gomap \<times> metrics option" where
  "progress_line pf now line fs = (case cut line (CHR ''='') of (key, value, ok) \<Rightarrow>
     if \<not> ok then (fs, None)
     else let fs' = put key value fs in
       if key = ''progress'' then ([], Some (parse_progress pf fs' now)) else (fs', None))"

subsection \<open>Process samples\<close>

record proc_sample =
  pc_cpu_ticks :: int
  pc_rss_bytes :: int

definition linux_clock_ticks_per_second :: int where
  "linux_clock_ticks_per_second = 100"

datatype proc_error = InvalidStat | ShortStat | BadNumber | NoProcess

text \<open>\<open>strings.LastIndex\<close> of a one-byte string.\<close>

definition last_index :: "string \<Rightarrow> char \<Rightarrow> nat option" where
  "last_index s c = (if c \<in> set s then Some (length s - 1 - length (takeWhile (\<lambda>x. x \<noteq> c) (rev s))) else None)"

definition parse_proc_stat :: "string \<Rightarrow> int \<Rightarrow> (proc_error, proc_sample) result" where
  "parse_proc_stat stat page_size = (case last_index stat (CHR '')'') of
     None \<Rightarrow> Inl InvalidStat
   | Some closing \<Rightarrow>
       if closing + 2 \<ge> length stat then Inl InvalidStat
       else let fs = GoStrings.fields (drop (closing + 2) stat) in
         if length fs < 22 then Inl ShortStat
         else (case (parse_int64 (fs ! 11), parse_int64 (fs ! 12), parse_int64 (fs ! 21)) of
           (Some utime, Some stime, Some rss) \<Rightarrow>
             Inr \<lparr>pc_cpu_ticks = wrap64 (utime + stime), pc_rss_bytes = wrap64 (rss * page_size)\<rparr>
         | _ \<Rightarrow> Inl BadNumber))"

definition read_proc_sample :: "string option \<Rightarrow> int \<Rightarrow> (proc_error, proc_sample) result" where
  "read_proc_sample content page_size = (case content of None \<Rightarrow> Inl NoProcess | Some stat \<Rightarrow> parse_proc_stat stat page_size)"

subsection \<open>Lines do not depend on how the output arrives\<close>

text \<open>The text between line breaks, and the lines of it that are not empty.\<close>

fun pieces :: "string \<Rightarrow> string list" where
  "pieces [] = [[]]"
| "pieces (c # s) = (if is_break c then [] # pieces s
     else (case pieces s of [] \<Rightarrow> [[c]] | p # ps \<Rightarrow> (c # p) # ps))"

definition proper :: "string list \<Rightarrow> string list" where
  "proper ls = filter (\<lambda>l. l \<noteq> []) ls"

lemma proper_simps [simp]: "proper [] = []" "proper (l # ls) = (if l = [] then proper ls else l # proper ls)"
  "proper (as @ bs) = proper as @ proper bs"
  by (simp_all add: proper_def)

lemma pieces_not_Nil [simp]: "pieces s \<noteq> []"
  by (cases s) (auto split: list.splits)

lemma pieces_plain: "\<forall>c \<in> set s. \<not> is_break c \<Longrightarrow> pieces s = [s]"
  by (induction s) auto

lemma pieces_break: "\<forall>c \<in> set s. \<not> is_break c \<Longrightarrow> is_break b \<Longrightarrow> pieces (s @ b # t) = s # pieces t"
  by (induction s) auto

lemma break_split:
  obtains (none) "\<forall>c \<in> set s. \<not> is_break c" | (break) p b t where "s = p @ b # t" "\<forall>c \<in> set p. \<not> is_break c" "is_break b"
  by (metis split_list_first_prop)

lemma scan_crlf_plain: "\<forall>c \<in> set s. \<not> is_break c \<Longrightarrow> scan_crlf s at_eof = (if at_eof \<and> s \<noteq> [] then (length s, Some s) else (0, None))"
proof -
  assume "\<forall>c \<in> set s. \<not> is_break c"
  then have "dropWhile (\<lambda>c. \<not> is_break c) s = []" by simp
  then show ?thesis by (simp only: scan_crlf_def list.case) simp
qed

lemma scan_crlf_break:
  assumes "\<forall>c \<in> set p. \<not> is_break c" "is_break b"
  shows "scan_crlf (p @ b # t) at_eof = (if b = byte 13 \<and> t \<noteq> [] \<and> hd t = byte 10 then length p + 2 else length p + 1, Some p)"
proof -
  have "dropWhile (\<lambda>c. \<not> is_break c) (p @ b # t) = b # t" "takeWhile (\<lambda>c. \<not> is_break c) (p @ b # t) = p"
    using assms by (simp_all add: dropWhile_append takeWhile_append)
  then show ?thesis by (simp add: scan_crlf_def Let_def)
qed

text \<open>
  Whatever is in the buffer: the tokens and the rest have the same lines as the buffer with
  the text that follows, the rest has no line break, and at the end nothing is left.
\<close>

lemma buffered_tokens_pieces:
  "buffered_tokens at_eof data = (ts, rest) \<Longrightarrow>
    (\<forall>more. (at_eof \<longrightarrow> more = []) \<longrightarrow> proper (pieces (data @ more)) = proper ts @ proper (pieces (rest @ more)))
    \<and> (\<forall>c \<in> set rest. \<not> is_break c) \<and> (at_eof \<longrightarrow> rest = []) \<and> (\<forall>t \<in> set ts. t \<in> set (pieces data) \<or> t = [])
    \<and> (rest = [] \<or> rest \<in> set (pieces data))"
proof (induction at_eof data arbitrary: ts rest rule: buffered_tokens.induct)
  case (1 at_eof data)
  show ?case
  proof (cases data rule: break_split)
    case none
    show ?thesis
    proof (cases "at_eof \<and> data \<noteq> []")
      case True
      have "buffered_tokens at_eof [] = ([], [])" by (subst buffered_tokens.simps) (simp add: scan_crlf_def)
      then have "ts = [data]" "rest = []"
        using 1(2) True none by (subst (asm) buffered_tokens.simps; simp add: scan_crlf_plain)+
      then show ?thesis
        using none True by (auto simp: pieces_plain)
    next
      case False
      then have "ts = []" "rest = data" "at_eof \<longrightarrow> data = []"
        using 1(2) none by (subst (asm) buffered_tokens.simps; auto simp: scan_crlf_plain split: if_splits)+
      then show ?thesis using none by (simp add: pieces_plain)
    qed
  next
    case (break p b t)
    define n where "n = (if b = byte 13 \<and> t \<noteq> [] \<and> hd t = byte 10 then length p + 2 else length p + 1)"
    have scan: "scan_crlf data at_eof = (n, Some p)" unfolding break(1) n_def by (rule scan_crlf_break [OF break(2,3)])
    obtain us where us: "buffered_tokens at_eof (drop n data) = (us, rest)" "ts = p # us"
      using 1(2) by (subst (asm) buffered_tokens.simps) (auto simp: scan split: prod.splits)
    have ih: "\<forall>more. (at_eof \<longrightarrow> more = []) \<longrightarrow> proper (pieces (drop n data @ more)) = proper us @ proper (pieces (rest @ more))"
      "\<forall>c \<in> set rest. \<not> is_break c" "at_eof \<longrightarrow> rest = []"
      "\<forall>t \<in> set us. t \<in> set (pieces (drop n data)) \<or> t = []" "rest = [] \<or> rest \<in> set (pieces (drop n data))"
      using 1(1) [OF scan [symmetric] refl us(1)] by blast+
    have d: "drop n data = t \<or> (\<exists>t'. t = byte 10 # t' \<and> drop n data = t')"
      by (cases t) (auto simp: n_def break(1))
    have nl: "is_break (byte 10)" by (simp add: is_break_def)
    have "proper (pieces (data @ more)) = proper (p # pieces (drop n data @ more))" for more
    proof -
      have "data @ more = p @ b # (t @ more)" by (simp add: break(1))
      then have "pieces (data @ more) = p # pieces (t @ more)" by (simp only: pieces_break [OF break(2,3)])
      moreover have "proper (pieces (t @ more)) = proper (pieces (drop n data @ more))"
        using d nl by (elim disjE exE conjE) simp_all
      ultimately show ?thesis by simp
    qed
    moreover have "pieces data = p # pieces t" unfolding break(1) by (rule pieces_break [OF break(2,3)])
    then have "set (pieces (drop n data)) \<subseteq> set (pieces data)" "p \<in> set (pieces data)"
      using d nl by auto
    ultimately show ?thesis using ih us(2) by auto
  qed
qed

lemma scan_reads_pieces:
  "\<forall>c \<in> set pending. \<not> is_break c \<Longrightarrow> scan_reads limit pending chunks = (ts, False)
    \<Longrightarrow> proper ts = proper (pieces (pending @ concat chunks))"
proof (induction limit pending chunks arbitrary: ts rule: scan_reads.induct)
  case (1 limit pending)
  obtain us rest where b: "buffered_tokens True pending = (us, rest)" by fastforce
  have "rest = []" "proper (pieces (pending @ [])) = proper us @ proper (pieces (rest @ []))"
    using buffered_tokens_pieces [OF b] by blast+
  then show ?case using 1 b by simp
next
  case (2 limit pending chunk chunks)
  obtain us rest where b: "buffered_tokens False (pending @ chunk) = (us, rest)" by fastforce
  then obtain vs where vs: "scan_reads limit rest chunks = (vs, False)" "ts = us @ vs" "\<not> length rest \<ge> limit"
    using 2(3) by (auto split: prod.splits if_splits)
  have p: "\<forall>c \<in> set rest. \<not> is_break c"
    "proper (pieces ((pending @ chunk) @ concat chunks)) = proper us @ proper (pieces (rest @ concat chunks))"
    using buffered_tokens_pieces [OF b] by blast+
  have "proper vs = proper (pieces (rest @ concat chunks))"
    using 2(1) [OF b [symmetric] vs(3) p(1) vs(1)] .
  then show ?case using vs(2) p(2) by simp
qed

lemma pieces_prefix: "q \<in> set (pieces s) \<Longrightarrow> \<exists>q' \<in> set (pieces (s @ t)). length q \<le> length q'"
proof (induction s arbitrary: q)
  case Nil
  then show ?case by (cases "pieces t") (auto simp: pieces_not_Nil)
next
  case (Cons c s)
  show ?case
  proof (cases "is_break c")
    case True then show ?thesis using Cons by auto
  next
    case False
    obtain p ps where p: "pieces s = p # ps" by (meson list.exhaust pieces_not_Nil)
    obtain r rs where r: "pieces (s @ t) = r # rs" by (meson list.exhaust pieces_not_Nil)
    have hd: "length (hd (pieces s)) \<le> length (hd (pieces (s @ t)))" for s
    proof (induction s)
      case (Cons d s)
      then show ?case by (cases "pieces s"; cases "pieces (s @ t)") auto
    qed simp
    show ?thesis
    proof (cases "q = c # p")
      case True
      then show ?thesis using hd [of s] False by (simp add: p r)
    next
      case False
      then have "q \<in> set (pieces s)" using Cons.prems \<open>\<not> is_break c\<close> by (simp add: p)
      then obtain q' where "q' \<in> set (pieces (s @ t))" "length q \<le> length q'" using Cons.IH by blast
      then show ?thesis using \<open>\<not> is_break c\<close> by (auto simp: r)
    qed
  qed
qed

lemma scan_reads_fits:
  "\<forall>c \<in> set pending. \<not> is_break c \<Longrightarrow> \<forall>l \<in> set (pieces (pending @ concat chunks)). length l < limit
    \<Longrightarrow> \<not> snd (scan_reads limit pending chunks)"
proof (induction limit pending chunks rule: scan_reads.induct)
  case (2 limit pending chunk chunks)
  obtain us rest where b: "buffered_tokens False (pending @ chunk) = (us, rest)" by fastforce
  have p: "\<forall>c \<in> set rest. \<not> is_break c" "rest = [] \<or> rest \<in> set (pieces (pending @ chunk))"
    "proper (pieces ((pending @ chunk) @ concat chunks)) = proper us @ proper (pieces (rest @ concat chunks))"
    using buffered_tokens_pieces [OF b] by blast+
  have all: "\<forall>l \<in> set (pieces (pending @ chunk @ concat chunks)). length l < limit" using 2(3) by simp
  then have pos: "0 < limit" by (cases "pieces (pending @ chunk @ concat chunks)") (auto simp: pieces_not_Nil)
  have "length rest < limit"
    using p(2) pos all pieces_prefix [of rest "pending @ chunk" "concat chunks"] by fastforce
  moreover have "\<forall>l \<in> set (pieces (rest @ concat chunks)). length l < limit"
  proof
    fix l assume l: "l \<in> set (pieces (rest @ concat chunks))"
    show "length l < limit"
    proof (cases "l = []")
      case False
      then have "l \<in> set (proper (pieces (rest @ concat chunks)))" using l by (simp add: proper_def)
      then have "l \<in> set (proper (pieces ((pending @ chunk) @ concat chunks)))" using p(3) by simp
      then show ?thesis using all by (simp add: proper_def)
    qed (use pos in simp)
  qed
  ultimately show ?case using 2(1) [OF b [symmetric] _ p(1)]
    by (cases "scan_reads limit rest chunks") (simp add: b)
qed simp



subsection \<open>The name of a process cannot confuse its sample\<close>

definition no_space :: "string \<Rightarrow> bool" where
  "no_space s \<longleftrightarrow> s \<noteq> [] \<and> list_all (\<lambda>c. \<not> is_ascii_space c) s"

lemma dropWhile_space: "no_space f \<Longrightarrow> dropWhile is_ascii_space (f @ s) = f @ s"
  by (cases f) (auto simp: no_space_def)

lemma fields_word: "no_space f \<Longrightarrow> GoStrings.fields f = [f]"
proof -
  assume f: "no_space f"
  then obtain c cs where c: "f = c # cs" "list_all (\<lambda>c. \<not> is_ascii_space c) cs" by (cases f) (auto simp: no_space_def)
  have "dropWhile (\<lambda>x. \<not> is_ascii_space x) cs = []" "takeWhile (\<lambda>x. \<not> is_ascii_space x) cs = cs"
    using c(2) by (simp_all add: list_all_iff takeWhile_eq_all_conv)
  moreover have "GoStrings.fields [] = []" by (subst GoStrings.fields.simps) simp
  moreover have "GoStrings.fields f = (c # takeWhile (\<lambda>x. \<not> is_ascii_space x) cs)
      # GoStrings.fields (dropWhile (\<lambda>x. \<not> is_ascii_space x) cs)"
    using dropWhile_space [OF f, of "[]"] c(1) by (subst GoStrings.fields.simps) simp
  ultimately show ?thesis using c(1) by (simp only:)
qed

lemma fields_space: "no_space f \<Longrightarrow> GoStrings.fields (f @ CHR '' '' # s) = f # GoStrings.fields s"
proof -
  assume f: "no_space f"
  then obtain c cs where c: "f = c # cs" "list_all (\<lambda>c. \<not> is_ascii_space c) cs" by (cases f) (auto simp: no_space_def)
  have sp: "is_ascii_space (CHR '' '')" by (simp add: is_ascii_space_def)
  have "dropWhile (\<lambda>x. \<not> is_ascii_space x) (cs @ CHR '' '' # s) = CHR '' '' # s"
    "takeWhile (\<lambda>x. \<not> is_ascii_space x) (cs @ CHR '' '' # s) = cs"
    using c(2) sp by (simp_all add: list_all_iff dropWhile_append takeWhile_append)
  moreover have "GoStrings.fields (CHR '' '' # s) = GoStrings.fields s"
    using sp by (subst (1 2) GoStrings.fields.simps) simp
  ultimately show ?thesis
    using dropWhile_space [OF f, of "CHR '' '' # s"] c(1) by (subst GoStrings.fields.simps) simp
qed

lemma fields_join: "fs \<noteq> [] \<Longrightarrow> list_all no_space fs \<Longrightarrow> GoStrings.fields (join_with '' '' fs) = fs"
  by (induction "'' ''" fs rule: join_with.induct) (auto simp: fields_word fields_space)

lemma itoa_no_space: "no_space (itoa n)"
proof -
  have "\<not> is_ascii_space c" if "c \<in> set (itoa n)" for c
    using itoa_graphic [OF that] by (auto simp: is_digit_def is_ascii_space_def)
  moreover have "itoa n \<noteq> []" using show_nat_digits by (simp add: itoa_def)
  ultimately show ?thesis by (simp add: no_space_def list_all_iff)
qed

lemma last_index_last: "c \<notin> set b \<Longrightarrow> last_index (a @ c # b) c = Some (length a)"
proof -
  assume "c \<notin> set b"
  then have "takeWhile (\<lambda>x. x \<noteq> c) (rev (a @ c # b)) = rev b"
    by (simp add: takeWhile_append)
  then show ?thesis by (simp add: last_index_def)
qed

lemma drop_two: "drop (length a + 2) (a @ x # y # r) = r"
  by (induction a) auto

text \<open>
  The sample of a process is read from its own numbers whatever the process is called:
  a name with spaces and parentheses does not shift the fields. The sums and products are
  those of 64 bits.
\<close>

theorem proc_stat_any_name:
  assumes "length ns \<ge> 21" and "\<forall>n \<in> set ns. - (2 ^ 63) \<le> n \<and> n < 2 ^ 63" and "no_space state" and "CHR '')'' \<notin> set state"
  shows "parse_proc_stat (pid @ '' ('' @ name @ '') '' @ join_with '' '' (state # map itoa ns)) page_size
    = Inr \<lparr>pc_cpu_ticks = wrap64 (ns ! 10 + ns ! 11), pc_rss_bytes = wrap64 (ns ! 20 * page_size)\<rparr>"
proof -
  let ?fs = "state # map itoa ns" and ?a = "pid @ '' ('' @ name"
  let ?rest = "join_with '' '' ?fs"
  have "CHR '')'' \<notin> set (itoa n)" for n using itoa_graphic [of "CHR '')''" n] by (auto simp: is_digit_def)
  then have "CHR '')'' \<notin> set ?rest" using set_join_with [of "'' ''" ?fs] assms(4) by auto
  then have l: "last_index (?a @ CHR '')'' # CHR '' '' # ?rest) (CHR '')'') = Some (length ?a)"
    by (intro last_index_last) simp
  have fs: "GoStrings.fields ?rest = ?fs"
    using assms(3) itoa_no_space by (intro fields_join) (auto simp: list_all_iff)
  have ne: "?rest \<noteq> []"
  proof
    assume "?rest = []"
    then have "GoStrings.fields ?rest = []" by (subst GoStrings.fields.simps) (simp only: dropWhile.simps list.case)
    then show False using fs by simp
  qed
  have "parse_int64 (?fs ! Suc k) = Some (ns ! k)" if "k < length ns" for k
    using that assms(2) by (simp add: parse_itoa)
  from this [of 10] this [of 11] this [of 20] assms(1)
  have p: "parse_int64 (?fs ! 11) = Some (ns ! 10)" "parse_int64 (?fs ! 12) = Some (ns ! 11)"
    "parse_int64 (?fs ! 21) = Some (ns ! 20)" by (simp_all add: numeral_eq_Suc)
  have d: "drop (length ?a + 2) (?a @ CHR '')'' # CHR '' '' # ?rest) = ?rest" by (rule drop_two)
  have n: "\<not> length ?a + 2 \<ge> length (?a @ CHR '')'' # CHR '' '' # ?rest)" using ne by (cases ?rest) auto
  have "\<not> length ?fs < 22" using assms(1) by simp
  then have "parse_proc_stat (?a @ CHR '')'' # CHR '' '' # ?rest) page_size
    = Inr \<lparr>pc_cpu_ticks = wrap64 (ns ! 10 + ns ! 11), pc_rss_bytes = wrap64 (ns ! 20 * page_size)\<rparr>"
    unfolding parse_proc_stat_def l option.case Let_def d fs p prod.case if_not_P [OF n] by simp
  then show ?thesis by simp
qed

theorem proc_stat_any_name_witness:
  "parse_proc_stat (''7'' @ '' ('' @ '') 1 2 (x'' @ '') '' @ join_with '' '' (''S'' # map itoa [1 ..  21])) 4096
     = Inr \<lparr>pc_cpu_ticks = 23, pc_rss_bytes = 86016\<rparr>"
proof -
  have l: "length [1 .. 21 :: int] = 21" and n: "[1 .. 21 :: int] ! 10 = 11" "[1 .. 21 :: int] ! 11 = 12" "[1 .. 21 :: int] ! 20 = 21"
    by (simp_all add: upto_rec_numeral numeral_eq_Suc)
  show ?thesis
    using proc_stat_any_name [of "[1 .. 21]" "''S''" "''7''" "'') 1 2 (x''" 4096]
    by (simp add: n no_space_def is_ascii_space_def wrap64_def del: append.simps)
qed

end
