(* ===== verification/StreamStore.thy ===== *)
theory StreamStore
  imports StreamConfig
begin

text \<open>
  The store of streams, profiles, users and logs (\<open>internal/streams/store.go\<close>). Every method
  of \<open>Store\<close> is a function from the store to its result and the store afterwards; the lock
  the source holds for a whole method makes it one step. \<open>sg_file\<close> is the state file: what
  the last successful save wrote, in the order it is written. As in the source the maps are
  changed before the save, so a failed save (\<open>saved\<close> is false) leaves the change in memory.
\<close>

subsection \<open>State\<close>

record persisted_state =
  ps_streams :: "stream_config list"
  ps_profiles :: "profile list"
  ps_users :: "user list"
  ps_secret :: string

datatype stream_payload =
    NothingMore
  | ViewPayload stream_view
  | ProfilePayload profile
  | NamePayload string
  | UserPayload public_user
  | StreamStatePayload stream_state
  | LogPayload log_entry

record stream_event =
  se_type :: string
  se_stream_id :: string
  se_time :: gotime
  se_payload :: stream_payload

record stream_store =
  sg_path :: string
  sg_streams :: "(string, stream_config) gomap"
  sg_profiles :: "(string, profile) gomap"
  sg_users :: "(string, user) gomap"
  sg_auth_secret :: string
  sg_states :: "(string, stream_state) gomap"
  sg_logs :: "log_entry list"
  sg_subscribers :: "(nat, stream_event list) gomap"
  sg_file :: "persisted_state option"

datatype stream_error =
    ConfigRefused config_error | ProfileRefused profile_error | ProfileNotFound string
  | ProfileIsDefault | ProfileInUse string | StateNotSaved
  | UserRefused auth_error | UserAlreadyExists | UserIsDefault | UserNotFound | CurrentPasswordInvalid
  | FileUnusable | LoadProfileRefused string profile_error | LoadUserRefused string auth_error
  | LoadUserWithoutHash string | LoadStreamRefused string config_error | LoadProfileNotFound string string

definition empty_stream_store :: "string \<Rightarrow> persisted_state option \<Rightarrow> stream_store" where
  "empty_stream_store path file = \<lparr>sg_path = path, sg_streams = [], sg_profiles = [], sg_users = [], sg_auth_secret = [],
     sg_states = [], sg_logs = [], sg_subscribers = [], sg_file = file\<rparr>"

definition stream_state_locked :: "stream_store \<Rightarrow> string \<Rightarrow> stream_state" where
  "stream_state_locked s i = (case get (sg_states s) i of Some state \<Rightarrow> state | None \<Rightarrow> stopped_stream)"

text \<open>A subscriber is a channel of 32 events; a full one misses the event.\<close>

definition offer_event :: "stream_event \<Rightarrow> stream_event list \<Rightarrow> stream_event list" where
  "offer_event e queue = (if length queue < 32 then queue @ [e] else queue)"

definition stream_emit :: "stream_event \<Rightarrow> stream_store \<Rightarrow> stream_store" where
  "stream_emit e s = s\<lparr>sg_subscribers := map (\<lambda>(c, q). (c, offer_event e q)) (sg_subscribers s)\<rparr>"

definition stream_subscribe :: "nat \<Rightarrow> stream_store \<Rightarrow> stream_store" where
  "stream_subscribe c s = s\<lparr>sg_subscribers := put c [] (sg_subscribers s)\<rparr>"

definition stream_unsubscribe :: "nat \<Rightarrow> stream_store \<Rightarrow> stream_store" where
  "stream_unsubscribe c s = s\<lparr>sg_subscribers := del c (sg_subscribers s)\<rparr>"

definition sorted_profiles :: "stream_store \<Rightarrow> profile list" where
  "sorted_profiles s = sorted_vals (sg_profiles s)"

definition sorted_users :: "stream_store \<Rightarrow> user list" where
  "sorted_users s = sorted_vals (sg_users s)"

definition persisted_of :: "stream_store \<Rightarrow> persisted_state" where
  "persisted_of s = \<lparr>ps_streams = sorted_vals (sg_streams s), ps_profiles = sorted_profiles s,
     ps_users = sorted_users s, ps_secret = sg_auth_secret s\<rparr>"

definition stream_save :: "bool \<Rightarrow> stream_store \<Rightarrow> (stream_error, unit) result \<times> stream_store" where
  "stream_save saved s =
     (if sg_path s = [] then (Inr (), s)
      else if saved then (Inr (), s\<lparr>sg_file := Some (persisted_of s)\<rparr>)
      else (Inl StateNotSaved, s))"

text \<open>Save, then announce the change and answer, as every operation that changes the maps ends.\<close>

definition save_announce ::
  "bool \<Rightarrow> stream_event \<Rightarrow> 'a \<Rightarrow> stream_store \<Rightarrow> (stream_error, 'a) result \<times> stream_store" where
  "save_announce saved e answer s = (case stream_save saved s of
     (Inl err, s') \<Rightarrow> (Inl err, s')
   | (Inr _, s') \<Rightarrow> (Inr answer, stream_emit e s'))"

subsection \<open>Streams\<close>

definition get_stream :: "stream_store \<Rightarrow> string \<Rightarrow> stream_view option" where
  "get_stream s i = map_option (\<lambda>c. \<lparr>sv_config = c, sv_state = stream_state_locked s i\<rparr>) (get (sg_streams s) i)"

definition list_streams :: "stream_store \<Rightarrow> stream_view list" where
  "list_streams s = List.map_filter (get_stream s) (sorted_keys (sg_streams s))"

definition upsert_stream :: "gotime \<Rightarrow> bool \<Rightarrow> stream_config \<Rightarrow> stream_store
    \<Rightarrow> (stream_error, stream_view) result \<times> stream_store" where
  "upsert_stream now saved c s = (case normalize_config c of
     Inl e \<Rightarrow> (Inl (ConfigRefused e), s)
   | Inr n \<Rightarrow>
       if \<not> has_key (sg_profiles s) (cf_profile_name n) then (Inl (ProfileNotFound (cf_profile_name n)), s)
       else let i = cf_id n;
                states = (if has_key (sg_states s) i then sg_states s else put i stopped_stream (sg_states s));
                s1 = s\<lparr>sg_streams := put i n (sg_streams s), sg_states := states\<rparr>;
                view = \<lparr>sv_config = n, sv_state = stream_state_locked s1 i\<rparr>
            in save_announce saved \<lparr>se_type = ''stream_saved'', se_stream_id = i, se_time = now, se_payload = ViewPayload view\<rparr>
                 view s1)"

definition delete_stream :: "gotime \<Rightarrow> bool \<Rightarrow> string \<Rightarrow> stream_store \<Rightarrow> (stream_error, bool) result \<times> stream_store" where
  "delete_stream now saved i s =
     (if \<not> has_key (sg_streams s) i then (Inr False, s)
      else save_announce saved \<lparr>se_type = ''stream_deleted'', se_stream_id = i, se_time = now, se_payload = NothingMore\<rparr>
        True (s\<lparr>sg_streams := del i (sg_streams s), sg_states := del i (sg_states s)\<rparr>))"

definition set_stream_state :: "gotime \<Rightarrow> string \<Rightarrow> stream_state \<Rightarrow> stream_store \<Rightarrow> stream_store" where
  "set_stream_state now i state s = stream_emit
     \<lparr>se_type = ''stream_state'', se_stream_id = i, se_time = now, se_payload = StreamStatePayload state\<rparr>
     (s\<lparr>sg_states := put i state (sg_states s)\<rparr>)"

definition update_stream :: "gotime \<Rightarrow> string \<Rightarrow> (stream_state \<Rightarrow> stream_state) \<Rightarrow> stream_store
    \<Rightarrow> stream_state \<times> stream_store" where
  "update_stream now i update s = (let next = update (stream_state_locked s i) in
     (next, stream_emit \<lparr>se_type = ''stream_state'', se_stream_id = i, se_time = now, se_payload = StreamStatePayload next\<rparr>
       (s\<lparr>sg_states := put i next (sg_states s)\<rparr>)))"

subsection \<open>Profiles\<close>

definition list_profiles :: "stream_store \<Rightarrow> profile list" where
  "list_profiles s = sorted_vals (sg_profiles s)"

definition get_profile :: "stream_store \<Rightarrow> string \<Rightarrow> profile option" where
  "get_profile s name = get (sg_profiles s) name"

definition upsert_profile :: "gotime \<Rightarrow> bool \<Rightarrow> profile \<Rightarrow> stream_store \<Rightarrow> (stream_error, profile) result \<times> stream_store" where
  "upsert_profile now saved p s = (case normalize_profile p of
     Inl e \<Rightarrow> (Inl (ProfileRefused e), s)
   | Inr n \<Rightarrow> save_announce saved
       \<lparr>se_type = ''profile_saved'', se_stream_id = [], se_time = now, se_payload = ProfilePayload n\<rparr> n
       (s\<lparr>sg_profiles := put (pf_name n) n (sg_profiles s)\<rparr>))"

definition delete_profile :: "gotime \<Rightarrow> bool \<Rightarrow> string \<Rightarrow> stream_store \<Rightarrow> (stream_error, bool) result \<times> stream_store" where
  "delete_profile now saved name s =
     (if name = ''h264_veryfast_4m'' \<or> name = ''h264_ultrafast_template_4m'' then (Inl ProfileIsDefault, s)
      else if \<not> has_key (sg_profiles s) name then (Inr False, s)
      else (case find (\<lambda>(_, c). cf_profile_name c = name) (sg_streams s) of
        Some (_, c) \<Rightarrow> (Inl (ProfileInUse (cf_id c)), s)
      | None \<Rightarrow> save_announce saved
          \<lparr>se_type = ''profile_deleted'', se_stream_id = [], se_time = now, se_payload = NamePayload name\<rparr> True
          (s\<lparr>sg_profiles := del name (sg_profiles s)\<rparr>)))"

definition ensure_profile :: "profile \<Rightarrow> stream_store \<Rightarrow> stream_store" where
  "ensure_profile p s = (if has_key (sg_profiles s) (pf_name p) then s
     else s\<lparr>sg_profiles := put (pf_name p) p (sg_profiles s)\<rparr>)"

definition ensure_default_profiles :: "stream_store \<Rightarrow> stream_store" where
  "ensure_default_profiles s = ensure_profile h264_ultrafast_template_4m (ensure_profile h264_veryfast_4m s)"

subsection \<open>Users\<close>

definition list_users :: "stream_store \<Rightarrow> public_user list" where
  "list_users s = map public (sorted_vals (sg_users s))"

definition get_user :: "stream_store \<Rightarrow> string \<Rightarrow> user option" where
  "get_user s name = get (sg_users s) name"

definition authenticate :: "stream_store \<Rightarrow> string \<Rightarrow> string \<Rightarrow> user option" where
  "authenticate s name password = (case get (sg_users s) name of
     None \<Rightarrow> None
   | Some u \<Rightarrow> if verify_password (us_password_hash u) password then Some u else None)"

definition verify_token_claims :: "stream_store \<Rightarrow> claims \<Rightarrow> user option" where
  "verify_token_claims s c = (case get (sg_users s) (cl_subject c) of
     None \<Rightarrow> None
   | Some u \<Rightarrow> if us_token_version u = cl_token_version c then Some u else None)"

definition create_user :: "octets option \<Rightarrow> gotime \<Rightarrow> bool \<Rightarrow> string \<Rightarrow> string \<Rightarrow> stream_store
    \<Rightarrow> (stream_error, public_user) result \<times> stream_store" where
  "create_user random now saved name password s = (case new_user random name password False now of
     Inl e \<Rightarrow> (Inl (UserRefused e), s)
   | Inr u \<Rightarrow>
       if has_key (sg_users s) (us_username u) then (Inl UserAlreadyExists, s)
       else save_announce saved
         \<lparr>se_type = ''user_created'', se_stream_id = [], se_time = now, se_payload = UserPayload (public u)\<rparr> (public u)
         (s\<lparr>sg_users := put (us_username u) u (sg_users s)\<rparr>))"

definition delete_user :: "gotime \<Rightarrow> bool \<Rightarrow> string \<Rightarrow> stream_store \<Rightarrow> (stream_error, bool) result \<times> stream_store" where
  "delete_user now saved name s =
     (if \<not> has_key (sg_users s) name then (Inr False, s)
      else if name = ''admin'' then (Inl UserIsDefault, s)
      else save_announce saved
        \<lparr>se_type = ''user_deleted'', se_stream_id = [], se_time = now, se_payload = NamePayload name\<rparr> True
        (s\<lparr>sg_users := del name (sg_users s)\<rparr>))"

definition change_password :: "octets option \<Rightarrow> gotime \<Rightarrow> bool \<Rightarrow> string \<Rightarrow> string \<Rightarrow> string \<Rightarrow> bool \<Rightarrow> stream_store
    \<Rightarrow> (stream_error, public_user) result \<times> stream_store" where
  "change_password random now saved name current new require_current s = (case validate_password new of
     Inl e \<Rightarrow> (Inl (UserRefused e), s)
   | Inr _ \<Rightarrow> (case get (sg_users s) name of
       None \<Rightarrow> (Inl UserNotFound, s)
     | Some u \<Rightarrow>
         if require_current \<and> \<not> verify_password (us_password_hash u) current then (Inl CurrentPasswordInvalid, s)
         else (case hash_password random new of
           Inl e \<Rightarrow> (Inl (UserRefused e), s)
         | Inr h \<Rightarrow>
             let u' = u\<lparr>us_password_hash := h, us_must_change_password := False,
                        us_token_version := us_token_version u + 1, us_updated_at := now\<rparr>
             in save_announce saved
                  \<lparr>se_type = ''user_password_changed'', se_stream_id = [], se_time = now, se_payload = UserPayload (public u')\<rparr>
                  (public u') (s\<lparr>sg_users := put name u' (sg_users s)\<rparr>))))"

subsection \<open>Logs\<close>

definition max_logs_per_stream :: int where
  "max_logs_per_stream = 500"

definition retention_of :: "(string, stream_config) gomap \<Rightarrow> string \<Rightarrow> int" where
  "retention_of streams i = (case get streams i of
     Some c \<Rightarrow> if cf_log_retention_seconds c > 0 then cf_log_retention_seconds c else default_log_retention_seconds
   | None \<Rightarrow> default_log_retention_seconds)"

definition count_of :: "(string, int) gomap \<Rightarrow> string \<Rightarrow> int" where
  "count_of counts i = (case get counts i of None \<Rightarrow> 0 | Some n \<Rightarrow> n)"

text \<open>The loop of \<open>pruneLogsLocked\<close>, from the newest entry backwards.\<close>

fun prune_loop :: "gotime \<Rightarrow> (string, stream_config) gomap \<Rightarrow> (string, int) gomap \<Rightarrow> log_entry list \<Rightarrow> log_entry list" where
  "prune_loop now streams counts [] = []"
| "prune_loop now streams counts (e # es) = (let i = lg_stream_id e in
     if i = [] then e # prune_loop now streams counts es
     else if go_sub now (lg_time e) > duration_seconds (retention_of streams i) then prune_loop now streams counts es
     else if count_of counts i \<ge> max_logs_per_stream then prune_loop now streams counts es
     else e # prune_loop now streams (put i (count_of counts i + 1) counts) es)"

definition prune_logs :: "gotime \<Rightarrow> stream_store \<Rightarrow> stream_store" where
  "prune_logs now s = (if sg_logs s = [] then s
     else s\<lparr>sg_logs := rev (prune_loop now (sg_streams s) [] (rev (sg_logs s)))\<rparr>)"

definition append_log_code :: "gotime \<Rightarrow> string \<Rightarrow> string \<Rightarrow> string \<Rightarrow> string \<Rightarrow> stream_store \<Rightarrow> stream_store" where
  "append_log_code now i level code message s =
     (let entry = \<lparr>lg_stream_id = i, lg_time = now, lg_level = level, lg_code = code, lg_message = message\<rparr>
      in stream_emit \<lparr>se_type = ''stream_log'', se_stream_id = i, se_time = now, se_payload = LogPayload entry\<rparr>
           (prune_logs now (s\<lparr>sg_logs := sg_logs s @ [entry]\<rparr>)))"

definition append_log :: "gotime \<Rightarrow> string \<Rightarrow> string \<Rightarrow> string \<Rightarrow> stream_store \<Rightarrow> stream_store" where
  "append_log now i level message s = append_log_code now i level [] message s"

text \<open>The loop of \<open>Logs\<close>, from the newest entry backwards until the limit is reached.\<close>

fun logs_loop :: "string \<Rightarrow> nat \<Rightarrow> log_entry list \<Rightarrow> log_entry list \<Rightarrow> log_entry list" where
  "logs_loop i limit [] out = out"
| "logs_loop i limit (e # es) out =
     (if length out < limit then logs_loop i limit es (if i = [] \<or> lg_stream_id e = i then out @ [e] else out) else out)"

definition stream_logs :: "string \<Rightarrow> int \<Rightarrow> stream_store \<Rightarrow> log_entry list" where
  "stream_logs i limit s = rev (logs_loop i (nat (if limit \<le> 0 \<or> limit > 500 then 200 else limit)) (rev (sg_logs s)) [])"

definition clear_logs :: "gotime \<Rightarrow> string \<Rightarrow> stream_store \<Rightarrow> stream_store" where
  "clear_logs now i s = stream_emit \<lparr>se_type = ''logs_cleared'', se_stream_id = i, se_time = now, se_payload = NothingMore\<rparr>
     (s\<lparr>sg_logs := (if i = [] then [] else filter (\<lambda>e. lg_stream_id e \<noteq> i) (sg_logs s))\<rparr>)"

subsection \<open>Loading\<close>

fun load_profiles :: "stream_store \<Rightarrow> profile list \<Rightarrow> (stream_error, stream_store) result" where
  "load_profiles s [] = Inr s"
| "load_profiles s (p # ps) = (case normalize_profile p of
     Inl e \<Rightarrow> Inl (LoadProfileRefused (pf_name p) e)
   | Inr n \<Rightarrow> load_profiles (s\<lparr>sg_profiles := put (pf_name n) n (sg_profiles s)\<rparr>) ps)"

definition reload_user :: "user \<Rightarrow> user" where
  "reload_user u = (if us_token_version u < 1 then u\<lparr>us_token_version := 1\<rparr> else u)"

fun load_users :: "stream_store \<Rightarrow> user list \<Rightarrow> (stream_error, stream_store) result" where
  "load_users s [] = Inr s"
| "load_users s (u # us) = (case validate_username (us_username u) of
     Inl e \<Rightarrow> Inl (LoadUserRefused (us_username u) e)
   | Inr _ \<Rightarrow>
       if us_password_hash u = [] then Inl (LoadUserWithoutHash (us_username u))
       else load_users (s\<lparr>sg_users := put (us_username u) (reload_user u) (sg_users s)\<rparr>) us)"

fun load_streams :: "stream_store \<Rightarrow> stream_config list \<Rightarrow> (stream_error, stream_store) result" where
  "load_streams s [] = Inr s"
| "load_streams s (c # cs) = (case normalize_config c of
     Inl e \<Rightarrow> Inl (LoadStreamRefused (cf_id c) e)
   | Inr n \<Rightarrow>
       if \<not> has_key (sg_profiles s) (cf_profile_name n) then Inl (LoadProfileNotFound (cf_id n) (cf_profile_name n))
       else load_streams (s\<lparr>sg_streams := put (cf_id n) n (sg_streams s),
              sg_states := put (cf_id n) stopped_stream (sg_states s)\<rparr>) cs)"

definition load_state :: "bool \<Rightarrow> stream_store \<Rightarrow> (stream_error, stream_store) result" where
  "load_state readable s =
     (if sg_path s = [] then Inr s
      else (case sg_file s of
        None \<Rightarrow> Inr s
      | Some state \<Rightarrow>
          if \<not> readable then Inl FileUnusable
          else and_then (load_profiles s (ps_profiles state)) (\<lambda>s.
            and_then (load_users s (ps_users state)) (\<lambda>s.
              load_streams (ensure_default_profiles (s\<lparr>sg_auth_secret := ps_secret state\<rparr>)) (ps_streams state)))))"

text \<open>The random bytes of a new secret and of the salt of the default user are arguments.\<close>

definition ensure_secret :: "octets option \<Rightarrow> stream_store \<Rightarrow> (stream_error, bool \<times> stream_store) result" where
  "ensure_secret random s = (if sg_auth_secret s = [] then (case generate_secret random of
       Inl e \<Rightarrow> Inl (UserRefused e)
     | Inr secret \<Rightarrow> Inr (True, s\<lparr>sg_auth_secret := secret\<rparr>))
     else Inr (False, s))"

definition ensure_admin :: "octets option \<Rightarrow> gotime \<Rightarrow> stream_store \<Rightarrow> (stream_error, bool \<times> stream_store) result" where
  "ensure_admin random now s = (if has_key (sg_users s) ''admin'' then Inr (False, s)
     else (case new_user random ''admin'' ''123456'' True now of
       Inl e \<Rightarrow> Inl (UserRefused e)
     | Inr u \<Rightarrow> Inr (True, s\<lparr>sg_users := put (us_username u) u (sg_users s)\<rparr>)))"

definition ensure_auth :: "octets option \<Rightarrow> octets option \<Rightarrow> gotime \<Rightarrow> bool \<Rightarrow> stream_store
    \<Rightarrow> (stream_error, stream_store) result" where
  "ensure_auth random1 random2 now saved s =
     and_then (ensure_secret random1 s) (\<lambda>(changed1, s).
       and_then (ensure_admin random2 now s) (\<lambda>(changed2, s).
         if changed1 \<or> changed2 then (case stream_save saved s of (Inl e, _) \<Rightarrow> Inl e | (Inr _, s') \<Rightarrow> Inr s')
         else Inr s))"

definition new_stream_store :: "octets option \<Rightarrow> octets option \<Rightarrow> gotime \<Rightarrow> bool \<Rightarrow> bool \<Rightarrow> string
    \<Rightarrow> persisted_state option \<Rightarrow> (stream_error, stream_store) result" where
  "new_stream_store random1 random2 now readable saved path file =
     and_then (load_state readable (empty_stream_store path file)) (\<lambda>s.
       ensure_auth random1 random2 now saved (ensure_default_profiles s))"

end
