(* ===== verification/StreamJobs.thy ===== *)
theory StreamJobs
  imports FfmpegLog StreamStore RestartLimiter JobTable
begin

text \<open>
  The manager of ffmpeg processes (\<open>internal/streams/jobs.go\<close>). Its lock guards \<open>jm_jobs\<close> and
  \<open>jm_restarts\<close> only, so each handler is given as its sections, in order, and as their
  composition. The last four fields stand for what the handlers leave in the runtime: the
  goroutines that sleep before a restart, the processes whose context was cancelled, the jobs
  whose \<open>done\<close> channel is closed, and the identity of the next \<open>job\<close>, whose command the source
  compares. Errors are constructors; their texts, which end up in the state and the log, are
  given by \<open>job_error_text\<close>, with \<open>strconv.Quote\<close> and the message of \<open>url.Parse\<close> as parameters.
\<close>

subsection \<open>State\<close>

record stream_job =
  sj_token :: nat
  sj_pid :: int
  sj_stopping :: bool

record job_manager =
  jm_ffmpeg_path :: string
  jm_sys :: system_config
  jm_store :: stream_store
  jm_jobs :: "(string, stream_job) gomap"
  jm_restarts :: "(string, restart_tracker) gomap"
  jm_sleeping :: "(string \<times> int) list"
  jm_cancelled :: "nat list"
  jm_done :: "nat list"
  jm_next :: nat

definition new_job_manager :: "string \<Rightarrow> system_config \<Rightarrow> stream_store \<Rightarrow> job_manager" where
  "new_job_manager path sys s = \<lparr>jm_ffmpeg_path = path, jm_sys = sys, jm_store = s, jm_jobs = [], jm_restarts = [],
     jm_sleeping = [], jm_cancelled = [], jm_done = [], jm_next = 0\<rparr>"

datatype job_error =
    StreamNotFound | JobProfileNotFound string | ArgsRefused args_error | StreamRunning
  | PipeFailed string | NotStarted string | StreamNotRunning | StopTimedOut

record error_texts =
  et_quote :: "string \<Rightarrow> string"
  et_url :: string

fun args_error_text :: "error_texts \<Rightarrow> args_error \<Rightarrow> string" where
  "args_error_text w UrlRequired = ''is required''"
| "args_error_text w UrlUnparsable = et_url w"
| "args_error_text w SchemeNotNetwork = ''scheme must be udp or rtp''"
| "args_error_text w HostRequired = ''host is required''"
| "args_error_text w (InputUrl e) = ''input url: '' @ args_error_text w e"
| "args_error_text w (OutputUrl e) = ''output url: '' @ args_error_text w e"
| "args_error_text w VideoCodecRequired = ''video codec is required''"
| "args_error_text w AudioCodecRequired = ''audio codec is required''"
| "args_error_text w LogoPathRequired = ''logo path is required''"
| "args_error_text w EmptyTemplateArg = ''template args must not contain empty values''"
| "args_error_text w (UndefinedVariable v) = ''template variable '' @ et_quote w v @ '' is not defined''"

fun job_error_text :: "error_texts \<Rightarrow> job_error \<Rightarrow> string" where
  "job_error_text w StreamNotFound = ''stream not found''"
| "job_error_text w (JobProfileNotFound p) = ''profile '' @ et_quote w p @ '' not found''"
| "job_error_text w (ArgsRefused e) = args_error_text w e"
| "job_error_text w StreamRunning = ''stream already running''"
| "job_error_text w (PipeFailed e) = e"
| "job_error_text w (NotStarted e) = e"
| "job_error_text w StreamNotRunning = ''stream not running''"
| "job_error_text w StopTimedOut = ''timeout waiting for stream to stop''"

definition set_stream :: "gotime \<Rightarrow> string \<Rightarrow> (stream_state \<Rightarrow> stream_state) \<Rightarrow> job_manager \<Rightarrow> job_manager" where
  "set_stream now i f m = m\<lparr>jm_store := snd (update_stream now i f (jm_store m))\<rparr>"

definition log_stream :: "gotime \<Rightarrow> string \<Rightarrow> string \<Rightarrow> string \<Rightarrow> string \<Rightarrow> job_manager \<Rightarrow> job_manager" where
  "log_stream now i level code message m = m\<lparr>jm_store := append_log_code now i level code message (jm_store m)\<rparr>"

subsection \<open>Start\<close>

definition ffmpeg_stream :: "stream_config \<Rightarrow> ff_stream" where
  "ffmpeg_stream c = \<lparr>fs_input_url = cf_input_url c, fs_output_url = cf_output_url c, fs_source_type = cf_source_type c,
     fs_video_map = cf_video_map c, fs_audio_map = cf_audio_map c, fs_audio_maps = cf_audio_maps c,
     fs_disable_audio = cf_disable_audio c,
     fs_logo = \<lparr>lo_enabled = sl_enabled (cf_logo c), lo_path = sl_path (cf_logo c), lo_x = sl_x (cf_logo c), lo_y = sl_y (cf_logo c)\<rparr>,
     fs_options = cf_options c, fs_keep_stats = cf_keep_stats c\<rparr>"

definition start_args :: "string \<Rightarrow> job_manager \<Rightarrow> (job_error, string list) result" where
  "start_args i m = (case get_stream (jm_store m) i of
     None \<Rightarrow> Inl StreamNotFound
   | Some view \<Rightarrow> (case get_profile (jm_store m) (cf_profile_name (sv_config view)) of
       None \<Rightarrow> Inl (JobProfileNotFound (cf_profile_name (sv_config view)))
     | Some p \<Rightarrow> (case build_args (ffmpeg_stream (sv_config view)) p
           (with_log_level (jm_sys m) (cf_log_level (sv_config view))) of
         Inl e \<Rightarrow> Inl (ArgsRefused e)
       | Inr args \<Rightarrow> Inr args)))"

text \<open>What the operating system answers: a pipe or the process may fail.\<close>

datatype spawn = PipeError string | StartError string | Spawned int

definition job_claim :: "spawn \<Rightarrow> string \<Rightarrow> bool \<Rightarrow> job_manager \<Rightarrow> (job_error, stream_job) result \<times> job_manager" where
  "job_claim sp i restarted m =
     (if has_key (jm_jobs m) i then (Inl StreamRunning, m)
      else (case sp of
        PipeError e \<Rightarrow> (Inl (PipeFailed e), m)
      | StartError e \<Rightarrow> (Inl (NotStarted e), m)
      | Spawned pid \<Rightarrow>
          let job = \<lparr>sj_token = jm_next m, sj_pid = pid, sj_stopping = False\<rparr>
          in (Inr job, m\<lparr>jm_jobs := put i job (jm_jobs m),
               jm_restarts := (if restarted then jm_restarts m else del i (jm_restarts m)),
               jm_next := jm_next m + 1\<rparr>)))"

definition stream_refused :: "string \<Rightarrow> stream_state \<Rightarrow> stream_state" where
  "stream_refused e st = st\<lparr>stt_status := ''error'', stt_error_code := classify_error e, stt_last_error := e\<rparr>"

definition stream_started :: "gotime \<Rightarrow> bool \<Rightarrow> int \<Rightarrow> stream_state \<Rightarrow> stream_state" where
  "stream_started now restarted pid st = st\<lparr>stt_status := ''running'', stt_pid := pid, stt_started_at := Some now,
     stt_stopped_at := None, stt_last_error := [], stt_error_code := [], stt_flapping := False, stt_metrics := None,
     stt_process := None,
     stt_restart_count := (if restarted then stt_restart_count st + 1 else stt_restart_count st)\<rparr>"

definition start_stream :: "gotime \<Rightarrow> spawn \<Rightarrow> string \<Rightarrow> bool \<Rightarrow> job_manager
    \<Rightarrow> (job_error, stream_job) result \<times> job_manager" where
  "start_stream now sp i restarted m = (case start_args i m of
     Inl e \<Rightarrow> (Inl e, m)
   | Inr _ \<Rightarrow> (case job_claim sp i restarted m of
       (Inl (NotStarted e), m') \<Rightarrow> (Inl (NotStarted e), set_stream now i (stream_refused e) m')
     | (Inl e, m') \<Rightarrow> (Inl e, m')
     | (Inr job, m') \<Rightarrow> (Inr job, set_stream now i (stream_started now restarted (sj_pid job)) m')))"

subsection \<open>Stop\<close>

definition job_stop_claim :: "string \<Rightarrow> job_manager \<Rightarrow> (job_error, stream_job) result \<times> job_manager" where
  "job_stop_claim i m = (case get (jm_jobs m) i of
     None \<Rightarrow> (Inl StreamNotRunning, m)
   | Some job \<Rightarrow> (Inr job,
       m\<lparr>jm_jobs := put i (job\<lparr>sj_stopping := True\<rparr>) (jm_jobs m), jm_restarts := del i (jm_restarts m)\<rparr>))"

definition cancel_job :: "nat \<Rightarrow> job_manager \<Rightarrow> job_manager" where
  "cancel_job token m = m\<lparr>jm_cancelled := jm_cancelled m @ [token]\<rparr>"

definition job_stop_publish :: "gotime \<Rightarrow> string \<Rightarrow> job_manager \<Rightarrow> job_manager" where
  "job_stop_publish now i = set_stream now i (\<lambda>st. st\<lparr>stt_status := ''stopping'', stt_stopped_at := Some now\<rparr>)"

text \<open>\<open>others\<close> is what the other goroutines do until \<open>done\<close> is closed or five seconds have passed.\<close>

definition stop_stream :: "gotime \<Rightarrow> (job_manager \<Rightarrow> job_manager) \<Rightarrow> string \<Rightarrow> job_manager
    \<Rightarrow> (job_error, unit) result \<times> job_manager" where
  "stop_stream now others i m = (case job_stop_claim i m of
     (Inl e, m') \<Rightarrow> (Inl e, m')
   | (Inr job, m') \<Rightarrow> (let m'' = others (job_stop_publish now i (cancel_job (sj_token job) m'))
       in (if sj_token job \<in> set (jm_done m'') then Inr () else Inl StopTimedOut, m'')))"

definition stop_all_streams :: "gotime \<Rightarrow> (string \<Rightarrow> job_manager \<Rightarrow> job_manager) \<Rightarrow> job_manager \<Rightarrow> job_manager" where
  "stop_all_streams now others m = fold (\<lambda>i m. snd (stop_stream now (others i) i m)) (keys (jm_jobs m)) m"

subsection \<open>The end of a process, and restarts\<close>

definition count_failure :: "string \<Rightarrow> restart_policy \<Rightarrow> gotime \<Rightarrow> job_manager \<Rightarrow> int \<times> job_manager" where
  "count_failure i policy now m = (let tracker = tracker_of (jm_restarts m) i;
       opened = (if is_zero (rt_first tracker) \<or> go_sub now (rt_first tracker) > duration_seconds (rp_window_seconds policy)
         then \<lparr>rt_first = now, rt_attempts = 0\<rparr> else tracker);
       counted = opened\<lparr>rt_attempts := rt_attempts opened + 1\<rparr>
     in (rt_attempts counted, m\<lparr>jm_restarts := put i counted (jm_restarts m)\<rparr>))"

definition stream_flapping :: "string \<Rightarrow> stream_state \<Rightarrow> stream_state" where
  "stream_flapping reason st = st\<lparr>stt_status := ''flapping'', stt_flapping := True,
     stt_error_code := error_process_exit, stt_last_error := reason\<rparr>"

definition stream_restarting :: "string \<Rightarrow> stream_state \<Rightarrow> stream_state" where
  "stream_restarting reason st = st\<lparr>stt_status := ''restarting'', stt_error_code := error_process_exit,
     stt_last_error := reason\<rparr>"

definition restart_policy_of :: "string \<Rightarrow> job_manager \<Rightarrow> restart_policy option" where
  "restart_policy_of i m = (case get_stream (jm_store m) i of
     None \<Rightarrow> None
   | Some view \<Rightarrow> if \<not> cf_enabled (sv_config view) then None
       else (case cf_restart (sv_config view) of
         None \<Rightarrow> None
       | Some p \<Rightarrow> if rp_enabled p then Some p else None))"

definition maybe_restart :: "gotime \<Rightarrow> string \<Rightarrow> string \<Rightarrow> job_manager \<Rightarrow> job_manager" where
  "maybe_restart now i reason m = (case restart_policy_of i m of
     None \<Rightarrow> m
   | Some policy \<Rightarrow> (case count_failure i policy now m of (attempts, m') \<Rightarrow>
       if attempts > rp_max_attempts policy
       then log_stream now i ''error'' error_process_exit ''restart limit reached; stream marked as flapping''
              (set_stream now i (stream_flapping reason) m')
       else (set_stream now i (stream_restarting reason) m')\<lparr>jm_sleeping :=
              jm_sleeping m' @ [(i, duration_seconds (rp_backoff_seconds policy))]\<rparr>))"

definition exit_claim :: "string \<Rightarrow> nat \<Rightarrow> job_manager \<Rightarrow> stream_job option \<times> job_manager" where
  "exit_claim i token m = (case get (jm_jobs m) i of
     None \<Rightarrow> (None, m)
   | Some job \<Rightarrow> (Some job, m\<lparr>jm_jobs := (if sj_token job = token then del i (jm_jobs m) else jm_jobs m),
       jm_done := jm_done m @ [sj_token job]\<rparr>))"

definition ended :: "gotime \<Rightarrow> bool \<Rightarrow> string option \<Rightarrow> stream_state \<Rightarrow> stream_state" where
  "ended now manual_stop err st0 = (let st = st0\<lparr>stt_pid := 0, stt_stopped_at := Some now\<rparr> in
     case err of
       Some e \<Rightarrow>
         if manual_stop then st\<lparr>stt_status := ''stopped'', stt_error_code := [], stt_last_error := [], stt_process := None\<rparr>
         else st\<lparr>stt_status := ''error'',
           stt_error_code := (if stt_error_code st = [] then error_process_exit else stt_error_code st),
           stt_last_error := (if stt_last_error st = [] then e else stt_last_error st), stt_process := None\<rparr>
     | None \<Rightarrow> st\<lparr>stt_status := ''stopped'', stt_error_code := [], stt_last_error := [], stt_process := None\<rparr>)"

definition exit_publish :: "gotime \<Rightarrow> string \<Rightarrow> bool \<Rightarrow> string option \<Rightarrow> job_manager \<Rightarrow> job_manager" where
  "exit_publish now i manual_stop err m =
     (case update_stream now i (ended now manual_stop err) (jm_store m) of (st, s) \<Rightarrow>
       if err \<noteq> None \<and> \<not> manual_stop then maybe_restart now i (stt_last_error st) (m\<lparr>jm_store := s\<rparr>)
       else m\<lparr>jm_store := s\<rparr>)"

definition wait_stream :: "gotime \<Rightarrow> string \<Rightarrow> nat \<Rightarrow> string option \<Rightarrow> job_manager \<Rightarrow> job_manager" where
  "wait_stream now i token err m = (case exit_claim i token m of (current, m') \<Rightarrow>
     exit_publish now i (case current of None \<Rightarrow> False | Some job \<Rightarrow> sj_stopping job) err m')"

definition wake :: "string \<times> int \<Rightarrow> job_manager \<Rightarrow> job_manager" where
  "wake sleeper m = m\<lparr>jm_sleeping := remove1 sleeper (jm_sleeping m)\<rparr>"

definition restart_failed :: "error_texts \<Rightarrow> gotime \<Rightarrow> string \<Rightarrow> job_error \<Rightarrow> job_manager \<Rightarrow> job_manager" where
  "restart_failed w now i e m = maybe_restart now i (job_error_text w e)
     (log_stream now i ''error'' (classify_error (job_error_text w e)) (''restart failed: '' @ job_error_text w e) m)"

definition stream_enabled :: "string \<Rightarrow> job_manager \<Rightarrow> bool" where
  "stream_enabled i m \<longleftrightarrow> (case get_stream (jm_store m) i of None \<Rightarrow> False | Some view \<Rightarrow> cf_enabled (sv_config view))"

definition restart_wakes :: "error_texts \<Rightarrow> gotime \<Rightarrow> spawn \<Rightarrow> string \<times> int \<Rightarrow> job_manager \<Rightarrow> job_manager" where
  "restart_wakes w now sp sleeper m0 = (let m = wake sleeper m0; i = fst sleeper in
     if \<not> stream_enabled i m then m
     else (case start_stream now sp i True m of
       (Inl e, m') \<Rightarrow> restart_failed w now i e m'
     | (Inr _, m') \<Rightarrow> m'))"

end
