(* ===== verification/StreamWatch.thy ===== *)
theory StreamWatch
  imports StreamJobs
begin

text \<open>
  The goroutines that watch a running ffmpeg (\<open>internal/streams/jobs.go\<close>): the readers of its
  log and of its progress report, and the monitor with the watchdog. A reader is a fold over
  the lines it gets; each line comes with the time the clock shows then. Durations in texts
  are shown in whole seconds, as \<open>Round(time.Second)\<close> leaves them.
\<close>

subsection \<open>The log\<close>

definition stderr_line :: "gotime \<Rightarrow> string \<Rightarrow> string \<Rightarrow> job_manager \<Rightarrow> job_manager" where
  "stderr_line now i line m =
     (if is_ffmpeg_stats_line line then m
      else (case parse_ffmpeg_level line of (level, message) \<Rightarrow>
        if is_packet_loss_noise (fold_case message) then log_stream now i ''warn'' error_packet_loss message m
        else let code = (if level = ''warn'' \<or> level = ''error'' then classify_error message else []) in
          if code \<noteq> [] \<and> code \<noteq> error_unknown
          then log_stream now i ''error'' code message
            (set_stream now i (\<lambda>st. st\<lparr>stt_error_code := code, stt_last_error := message\<rparr>) m)
          else log_stream now i level code message m))"

text \<open>The end of a reader: an error of the scanner is logged and the process is killed.\<close>

definition scan_ended :: "gotime \<Rightarrow> string \<Rightarrow> nat \<Rightarrow> string option \<Rightarrow> job_manager \<Rightarrow> job_manager" where
  "scan_ended now i token err m = (case err of
     None \<Rightarrow> m
   | Some e \<Rightarrow> cancel_job token (log_stream now i ''warn'' (classify_error e) e m))"

definition capture_stderr :: "string \<Rightarrow> nat \<Rightarrow> (gotime \<times> string) list \<Rightarrow> gotime \<Rightarrow> string option \<Rightarrow> job_manager \<Rightarrow> job_manager" where
  "capture_stderr i token timed_lines now err m =
     scan_ended now i token err (fold (\<lambda>(t, line). stderr_line t i line) timed_lines m)"

subsection \<open>Progress\<close>

definition stdout_line :: "(string \<Rightarrow> 64 word option) \<Rightarrow> string \<Rightarrow> gotime \<times> string
    \<Rightarrow> (string, string) gomap \<times> job_manager \<Rightarrow> (string, string) gomap \<times> job_manager" where
  "stdout_line pf i = (\<lambda>(now, line) (fs, m). case progress_line pf now line fs of
     (fs', None) \<Rightarrow> (fs', m)
   | (fs', Some metrics) \<Rightarrow> (fs', set_stream now i (\<lambda>st. st\<lparr>stt_metrics := Some metrics\<rparr>) m))"

definition capture_progress :: "(string \<Rightarrow> 64 word option) \<Rightarrow> string \<Rightarrow> nat \<Rightarrow> (gotime \<times> string) list \<Rightarrow> gotime
    \<Rightarrow> string option \<Rightarrow> job_manager \<Rightarrow> job_manager" where
  "capture_progress pf i token timed_lines now err m =
     scan_ended now i token err (snd (fold (stdout_line pf i) timed_lines ([], m)))"

subsection \<open>The watchdog\<close>

record watchdog_decision =
  wd_reason :: string
  wd_exceeded_since :: gotime

definition duration_text :: "int \<Rightarrow> string" where
  "duration_text d = (let s = (d + 500000000) div 1000000000; h = s div 3600; mi = s div 60 mod 60 in
     (if h > 0 then itoa h @ ''h'' else []) @ (if h > 0 \<or> mi > 0 then itoa mi @ ''m'' else []) @ itoa (s mod 60) @ ''s'')"

definition last_progress :: "stream_state \<Rightarrow> gotime \<Rightarrow> gotime" where
  "last_progress st started_at = (case stt_metrics st of
     Some m \<Rightarrow> if is_zero (me_updated_at m) then started_at else me_updated_at m
   | None \<Rightarrow> started_at)"

definition watchdog_action :: "watchdog_policy \<Rightarrow> stream_state \<Rightarrow> int \<Rightarrow> gotime \<Rightarrow> gotime \<Rightarrow> gotime \<Rightarrow> watchdog_decision" where
  "watchdog_action policy st memory_bytes started_at exceeded_since now =
     (if \<not> wp_enabled policy then \<lparr>wd_reason = [], wd_exceeded_since = exceeded_since\<rparr>
      else if go_sub now (last_progress st started_at) > duration_seconds (wp_progress_timeout_seconds policy)
      then \<lparr>wd_reason = ''watchdog: no ffmpeg progress for '' @ duration_text (go_sub now (last_progress st started_at)),
             wd_exceeded_since = exceeded_since\<rparr>
      else if wp_max_memory_bytes policy \<le> 0 \<or> memory_bytes \<le> wp_max_memory_bytes policy
      then \<lparr>wd_reason = [], wd_exceeded_since = zero_time\<rparr>
      else if is_zero exceeded_since then \<lparr>wd_reason = [], wd_exceeded_since = now\<rparr>
      else if go_sub now exceeded_since \<ge> duration_seconds (wp_memory_grace_seconds policy)
      then \<lparr>wd_reason = ''watchdog: memory usage '' @ itoa memory_bytes @ '' bytes exceeded limit ''
               @ itoa (wp_max_memory_bytes policy) @ '' bytes for '' @ duration_text (go_sub now exceeded_since),
             wd_exceeded_since = exceeded_since\<rparr>
      else \<lparr>wd_reason = [], wd_exceeded_since = exceeded_since\<rparr>)"

record monitor =
  mo_previous :: proc_sample
  mo_previous_at :: gotime
  mo_exceeded_since :: gotime
  mo_started_at :: gotime

definition monitor_policy :: "watchdog_policy option \<Rightarrow> watchdog_policy" where
  "monitor_policy policy = (case policy of None \<Rightarrow> default_watchdog_policy | Some p \<Rightarrow> p)"

definition new_monitor :: "gotime \<Rightarrow> monitor" where
  "new_monitor now = \<lparr>mo_previous = \<lparr>pc_cpu_ticks = 0, pc_rss_bytes = 0\<rparr>, mo_previous_at = zero_time,
     mo_exceeded_since = zero_time, mo_started_at = now\<rparr>"

definition cpu_percent :: "monitor \<Rightarrow> proc_sample \<Rightarrow> gotime \<Rightarrow> rat" where
  "cpu_percent mo current now =
     (if is_zero (mo_previous_at mo) then 0
      else let elapsed = go_sub now (mo_previous_at mo) in
        if elapsed > 0 then of_int (wrap64 (pc_cpu_ticks current - pc_cpu_ticks (mo_previous mo)))
          / of_int linux_clock_ticks_per_second / (of_int elapsed / 1000000000) * 100
        else 0)"

definition watchdog_fired :: "gotime \<Rightarrow> string \<Rightarrow> nat \<Rightarrow> string \<Rightarrow> job_manager \<Rightarrow> job_manager" where
  "watchdog_fired now i token reason m = cancel_job token (log_stream now i ''error'' error_watchdog reason
     (set_stream now i (\<lambda>st. st\<lparr>stt_status := ''error'', stt_error_code := error_watchdog, stt_last_error := reason\<rparr>) m))"

text \<open>One tick of the monitor; \<open>None\<close> is the end of it.\<close>

definition monitor_tick :: "watchdog_policy \<Rightarrow> string \<Rightarrow> nat \<Rightarrow> gotime \<Rightarrow> (proc_error, proc_sample) result \<Rightarrow> monitor
    \<Rightarrow> job_manager \<Rightarrow> monitor option \<times> job_manager" where
  "monitor_tick policy i token now sample mo m = (case sample of
     Inl _ \<Rightarrow> (None, m)
   | Inr current \<Rightarrow>
       let process = \<lparr>pr_cpu_percent = cpu_percent mo current now, pr_memory_bytes = pc_rss_bytes current, pr_updated_at = now\<rparr>;
           m1 = set_stream now i (\<lambda>st. st\<lparr>stt_process := Some process\<rparr>) m;
           next = mo\<lparr>mo_previous := current, mo_previous_at := now\<rparr>
       in (case get_stream (jm_store m1) i of
         None \<Rightarrow> (Some next, m1)
       | Some view \<Rightarrow>
           let action = watchdog_action policy (sv_state view) (pr_memory_bytes process) (mo_started_at mo) (mo_exceeded_since mo) now
           in if wd_reason action \<noteq> [] then (None, watchdog_fired now i token (wd_reason action) m1)
              else (Some (next\<lparr>mo_exceeded_since := wd_exceeded_since action\<rparr>), m1)))"

text \<open>The loop over the ticks until it ends or the job is done.\<close>

fun monitor_process :: "watchdog_policy \<Rightarrow> string \<Rightarrow> nat \<Rightarrow> (gotime \<times> (proc_error, proc_sample) result) list \<Rightarrow> monitor
    \<Rightarrow> job_manager \<Rightarrow> monitor option \<times> job_manager" where
  "monitor_process policy i token [] mo m = (Some mo, m)"
| "monitor_process policy i token ((now, sample) # ticks) mo m =
     (if token \<in> set (jm_done m) then (None, m)
      else (case monitor_tick policy i token now sample mo m of
        (None, m') \<Rightarrow> (None, m')
      | (Some mo', m') \<Rightarrow> monitor_process policy i token ticks mo' m'))"

subsection \<open>Packet loss is noise\<close>

lemma set_stream_keeps [simp]:
  "jm_jobs (set_stream now i f m) = jm_jobs m" "jm_restarts (set_stream now i f m) = jm_restarts m"
  "jm_sleeping (set_stream now i f m) = jm_sleeping m" "jm_cancelled (set_stream now i f m) = jm_cancelled m"
  "jm_done (set_stream now i f m) = jm_done m" "jm_next (set_stream now i f m) = jm_next m"
  by (simp_all add: set_stream_def)

lemma log_stream_keeps [simp]:
  "jm_jobs (log_stream now i l c x m) = jm_jobs m" "jm_restarts (log_stream now i l c x m) = jm_restarts m"
  "jm_sleeping (log_stream now i l c x m) = jm_sleeping m" "jm_cancelled (log_stream now i l c x m) = jm_cancelled m"
  "jm_done (log_stream now i l c x m) = jm_done m" "jm_next (log_stream now i l c x m) = jm_next m"
  by (simp_all add: log_stream_def)

end
