(* ===== verification/StreamStoreLaws.thy ===== *)
theory StreamStoreLaws
  imports StreamStore
begin

text \<open>
  The invariant of the stream store and the step relation of its operations. It holds in
  every store that \<open>NewStore\<close> opens, whatever the state file says, and every operation keeps
  it: names and IDs are the keys, streams and profiles are well formed, every stream has its
  profile, the two default profiles and the user \<open>admin\<close> are always there, every account can
  be logged into, and there is a secret to sign tokens with.
\<close>

subsection \<open>The invariant\<close>

definition profiles_ok :: "(string, profile) gomap \<Rightarrow> bool" where
  "profiles_ok profiles \<longleftrightarrow> map_ok profiles \<and> (\<forall>n p. get profiles n = Some p \<longrightarrow> pf_name p = n \<and> profile_shape p)"

definition streams_ok :: "(string, profile) gomap \<Rightarrow> (string, stream_config) gomap \<Rightarrow> bool" where
  "streams_ok profiles streams \<longleftrightarrow> map_ok streams \<and> (\<forall>i c. get streams i = Some c \<longrightarrow>
     cf_id c = i \<and> config_shape c \<and> has_key profiles (cf_profile_name c))"

definition users_ok :: "(string, user) gomap \<Rightarrow> bool" where
  "users_ok users \<longleftrightarrow> map_ok users \<and> (\<forall>n u. get users n = Some u \<longrightarrow>
     us_username u = n \<and> validate_username n = Inr () \<and> us_password_hash u \<noteq> [] \<and> 1 \<le> us_token_version u)"

definition loaded_ok :: "stream_store \<Rightarrow> bool" where
  "loaded_ok s \<longleftrightarrow> profiles_ok (sg_profiles s) \<and> streams_ok (sg_profiles s) (sg_streams s) \<and> users_ok (sg_users s)
     \<and> map_ok (sg_states s)"

definition defaults_present :: "stream_store \<Rightarrow> bool" where
  "defaults_present s \<longleftrightarrow> has_key (sg_profiles s) ''h264_veryfast_4m'' \<and> has_key (sg_profiles s) ''h264_ultrafast_template_4m''"

definition stream_store_ok :: "stream_store \<Rightarrow> bool" where
  "stream_store_ok s \<longleftrightarrow> loaded_ok s \<and> defaults_present s \<and> has_key (sg_users s) ''admin'' \<and> sg_auth_secret s \<noteq> []"

lemmas stream_invariants = stream_store_ok_def loaded_ok_def defaults_present_def profiles_ok_def streams_ok_def users_ok_def

subsection \<open>Saving, announcing and logging do not touch the maps\<close>

lemma stream_emit_keeps [simp]:
  "sg_streams (stream_emit e s) = sg_streams s" "sg_profiles (stream_emit e s) = sg_profiles s"
  "sg_users (stream_emit e s) = sg_users s" "sg_auth_secret (stream_emit e s) = sg_auth_secret s"
  "sg_states (stream_emit e s) = sg_states s" "sg_logs (stream_emit e s) = sg_logs s"
  "sg_path (stream_emit e s) = sg_path s" "sg_file (stream_emit e s) = sg_file s"
  by (simp_all add: stream_emit_def)

lemma stream_save_keeps [simp]:
  "sg_streams (snd (stream_save saved s)) = sg_streams s" "sg_profiles (snd (stream_save saved s)) = sg_profiles s"
  "sg_users (snd (stream_save saved s)) = sg_users s" "sg_auth_secret (snd (stream_save saved s)) = sg_auth_secret s"
  "sg_states (snd (stream_save saved s)) = sg_states s" "sg_logs (snd (stream_save saved s)) = sg_logs s"
  "sg_path (snd (stream_save saved s)) = sg_path s"
  by (simp_all add: stream_save_def)

lemma save_announce_snd: "\<exists>t. snd (save_announce saved e a s) = t \<and> (t = snd (stream_save saved s) \<or> t = stream_emit e (snd (stream_save saved s)))"
  by (simp add: save_announce_def split: prod.split sum.split)

lemma save_announce_keeps [simp]:
  "sg_streams (snd (save_announce saved e a s)) = sg_streams s" "sg_profiles (snd (save_announce saved e a s)) = sg_profiles s"
  "sg_users (snd (save_announce saved e a s)) = sg_users s" "sg_auth_secret (snd (save_announce saved e a s)) = sg_auth_secret s"
  "sg_states (snd (save_announce saved e a s)) = sg_states s" "sg_logs (snd (save_announce saved e a s)) = sg_logs s"
  "sg_path (snd (save_announce saved e a s)) = sg_path s"
  using save_announce_snd [of saved e a s] by auto

lemma save_announce_Inr:
  "fst (save_announce saved e a s) = Inr b \<Longrightarrow> b = a \<and> (sg_path s = [] \<or> saved)"
  by (auto simp: save_announce_def stream_save_def split: if_splits)

lemma prune_logs_keeps [simp]:
  "sg_streams (prune_logs now s) = sg_streams s" "sg_profiles (prune_logs now s) = sg_profiles s"
  "sg_users (prune_logs now s) = sg_users s" "sg_auth_secret (prune_logs now s) = sg_auth_secret s"
  "sg_states (prune_logs now s) = sg_states s" "sg_path (prune_logs now s) = sg_path s" "sg_file (prune_logs now s) = sg_file s"
  by (simp_all add: prune_logs_def)

lemma append_log_keeps [simp]:
  "sg_streams (append_log_code now i l c m s) = sg_streams s" "sg_profiles (append_log_code now i l c m s) = sg_profiles s"
  "sg_users (append_log_code now i l c m s) = sg_users s" "sg_auth_secret (append_log_code now i l c m s) = sg_auth_secret s"
  "sg_states (append_log_code now i l c m s) = sg_states s" "sg_path (append_log_code now i l c m s) = sg_path s"
  "sg_file (append_log_code now i l c m s) = sg_file s"
  by (simp_all add: append_log_code_def Let_def)

lemma stream_store_ok_cong:
  "sg_streams t = sg_streams s \<Longrightarrow> sg_profiles t = sg_profiles s \<Longrightarrow> sg_users t = sg_users s
    \<Longrightarrow> sg_auth_secret t = sg_auth_secret s \<Longrightarrow> sg_states t = sg_states s \<Longrightarrow> stream_store_ok t = stream_store_ok s"
  by (simp add: stream_store_ok_def loaded_ok_def defaults_present_def)

lemma stream_ok_neutral [simp]:
  "stream_store_ok (stream_emit e s) = stream_store_ok s"
  "stream_store_ok (snd (save_announce saved e a s)) = stream_store_ok s"
  "stream_store_ok (snd (stream_save saved s)) = stream_store_ok s"
  "stream_store_ok (append_log_code now i l c m s) = stream_store_ok s"
  by (rule stream_store_ok_cong; simp)+

subsection \<open>Operations keep it\<close>

lemma streams_ok_put:
  "streams_ok profiles streams \<Longrightarrow> config_shape n \<Longrightarrow> has_key profiles (cf_profile_name n)
    \<Longrightarrow> streams_ok profiles (put (cf_id n) n streams)"
  by (auto simp: streams_ok_def)

lemma profiles_ok_put: "profiles_ok profiles \<Longrightarrow> profile_shape p \<Longrightarrow> profiles_ok (put (pf_name p) p profiles)"
  by (auto simp: profiles_ok_def)

lemma users_ok_put:
  "users_ok users \<Longrightarrow> validate_username (us_username u) = Inr () \<Longrightarrow> us_password_hash u \<noteq> [] \<Longrightarrow> 1 \<le> us_token_version u
    \<Longrightarrow> users_ok (put (us_username u) u users)"
  by (auto simp: users_ok_def)

lemma streams_ok_more_profiles: "streams_ok profiles streams \<Longrightarrow> streams_ok (put k p profiles) streams"
  by (auto simp: streams_ok_def)

lemma upsert_stream_ok: "stream_store_ok s \<Longrightarrow> stream_store_ok (snd (upsert_stream now saved c s))"
  by (cases "normalize_config c")
    (auto simp: upsert_stream_def Let_def stream_store_ok_def loaded_ok_def defaults_present_def
      dest: normalize_config_shape intro: streams_ok_put)

lemma delete_stream_ok: "stream_store_ok s \<Longrightarrow> stream_store_ok (snd (delete_stream now saved i s))"
  by (auto simp: delete_stream_def stream_store_ok_def loaded_ok_def defaults_present_def streams_ok_def)

lemma state_change_ok:
  "stream_store_ok s \<Longrightarrow> stream_store_ok (set_stream_state now i state s)"
  "stream_store_ok s \<Longrightarrow> stream_store_ok (snd (update_stream now i f s))"
  by (auto simp: set_stream_state_def update_stream_def Let_def) (auto simp: stream_store_ok_def loaded_ok_def defaults_present_def)

lemma upsert_profile_ok: "stream_store_ok s \<Longrightarrow> stream_store_ok (snd (upsert_profile now saved p s))"
  by (cases "normalize_profile p")
    (auto simp: upsert_profile_def stream_store_ok_def loaded_ok_def defaults_present_def
      dest: normalize_profile_shape intro: profiles_ok_put streams_ok_more_profiles)

lemma delete_profile_unused:
  "streams_ok profiles streams \<Longrightarrow> find (\<lambda>(_, c). cf_profile_name c = name) streams = None \<Longrightarrow> streams_ok (del name profiles) streams"
  using gm.entries_lookup [of streams] by (fastforce simp: streams_ok_def find_None_set)

lemma delete_profile_ok: "stream_store_ok s \<Longrightarrow> stream_store_ok (snd (delete_profile now saved name s))"
  by (auto simp: delete_profile_def stream_store_ok_def loaded_ok_def defaults_present_def profiles_ok_def
      intro: delete_profile_unused split: option.split)

lemma hash_not_empty: "hash_password random password = Inr h \<Longrightarrow> h \<noteq> []"
  by (auto simp: hash_password_def hash_text_def split: option.splits)

lemma new_user_ok:
  assumes "new_user random name password must now = Inr u"
  shows "us_username u = name" "validate_username name = Inr ()" "us_password_hash u \<noteq> []" "us_token_version u = 1"
  using assms by (auto simp: new_user_def and_then_Inr hash_not_empty)

lemma users_ok_new: "new_user random name password must now = Inr u \<Longrightarrow> users_ok users \<Longrightarrow> users_ok (put name u users)"
  using users_ok_put [of users u] new_user_ok [of random name password must now u] by simp

lemma create_user_ok: "stream_store_ok s \<Longrightarrow> stream_store_ok (snd (create_user random now saved name password s))"
  by (cases "new_user random name password False now")
    (auto simp: create_user_def stream_store_ok_def loaded_ok_def defaults_present_def new_user_ok(1) intro: users_ok_new)

lemma delete_user_ok: "stream_store_ok s \<Longrightarrow> stream_store_ok (snd (delete_user now saved name s))"
  by (auto simp: delete_user_def stream_store_ok_def loaded_ok_def defaults_present_def users_ok_def)

lemma change_password_ok:
  "stream_store_ok s \<Longrightarrow> stream_store_ok (snd (change_password random now saved name current new req s))"
proof -
  assume s: "stream_store_ok s"
  have "stream_store_ok (s\<lparr>sg_users := put name (u\<lparr>us_password_hash := h, us_must_change_password := False,
      us_token_version := us_token_version u + 1, us_updated_at := now\<rparr>) (sg_users s)\<rparr>)"
    if "get (sg_users s) name = Some u" "hash_password random new = Inr h" for u h
  proof -
    have "us_username u = name" "validate_username name = Inr ()" "1 \<le> us_token_version u"
      using s that(1) by (auto simp: stream_invariants)
    then show ?thesis
      using s hash_not_empty [OF that(2)]
        users_ok_put [of "sg_users s" "u\<lparr>us_password_hash := h, us_must_change_password := False,
          us_token_version := us_token_version u + 1, us_updated_at := now\<rparr>"]
      by (auto simp: stream_store_ok_def loaded_ok_def defaults_present_def)
  qed
  then show ?thesis using s by (auto simp: change_password_def Let_def split: sum.split option.split)
qed

subsection \<open>A store is opened in that state\<close>

lemma load_profiles_ok:
  "load_profiles s ps = Inr t \<Longrightarrow> loaded_ok s \<Longrightarrow> loaded_ok t \<and> sg_streams t = sg_streams s \<and> sg_path t = sg_path s"
proof (induction s ps rule: load_profiles.induct)
  case (2 s p ps)
  then show ?case
    by (auto simp: loaded_ok_def dest: normalize_profile_shape intro: profiles_ok_put streams_ok_more_profiles split: sum.splits)
qed simp

lemma load_users_ok:
  "load_users s us = Inr t \<Longrightarrow> loaded_ok s \<Longrightarrow> loaded_ok t \<and> sg_streams t = sg_streams s \<and> sg_path t = sg_path s"
proof (induction s us rule: load_users.induct)
  case (2 s u us)
  then show ?case
    using users_ok_put [of "sg_users s" "reload_user u"]
    by (auto simp: loaded_ok_def reload_user_def split: sum.splits if_splits)
qed simp

lemma load_streams_ok:
  "load_streams s cs = Inr t \<Longrightarrow> loaded_ok s \<Longrightarrow> defaults_present s \<Longrightarrow> loaded_ok t \<and> defaults_present t \<and> sg_path t = sg_path s"
proof (induction s cs rule: load_streams.induct)
  case (2 s c cs)
  then show ?case
    by (auto simp: loaded_ok_def defaults_present_def dest: normalize_config_shape intro: streams_ok_put split: sum.splits if_splits)
qed simp

lemma ensure_default_profiles_ok:
  assumes "loaded_ok s"
  shows "loaded_ok (ensure_default_profiles s) \<and> defaults_present (ensure_default_profiles s)"
proof -
  have "loaded_ok (ensure_profile p s)" if "profile_shape p" "loaded_ok s" for p s
    using that by (auto simp: ensure_profile_def loaded_ok_def intro: profiles_ok_put streams_ok_more_profiles)
  moreover have "has_key (sg_profiles (ensure_profile p s)) (pf_name p)"
    "has_key (sg_profiles s) k \<Longrightarrow> has_key (sg_profiles (ensure_profile p s)) k" for p s k
    by (simp_all add: ensure_profile_def)
  ultimately show ?thesis
    using assms default_profiles_shape by (metis defaults_present_def ensure_default_profiles_def)
qed

lemma ensure_default_keeps [simp]:
  "sg_users (ensure_default_profiles s) = sg_users s" "sg_path (ensure_default_profiles s) = sg_path s"
  "sg_streams (ensure_default_profiles s) = sg_streams s" "sg_states (ensure_default_profiles s) = sg_states s"
  "sg_auth_secret (ensure_default_profiles s) = sg_auth_secret s" "sg_file (ensure_default_profiles s) = sg_file s"
  "sg_logs (ensure_default_profiles s) = sg_logs s"
  by (simp_all add: ensure_default_profiles_def ensure_profile_def)

lemma loaded_ok_empty: "loaded_ok (empty_stream_store path stored)"
  by (simp add: loaded_ok_def profiles_ok_def streams_ok_def users_ok_def empty_stream_store_def)

lemma load_state_ok: "load_state readable (empty_stream_store path stored) = Inr s \<Longrightarrow> loaded_ok s"
proof -
  let ?e = "empty_stream_store path stored"
  assume l: "load_state readable ?e = Inr s"
  show "loaded_ok s"
  proof (cases "s = ?e")
    case False
    then obtain f :: persisted_state where "and_then (load_profiles ?e (ps_profiles f)) (\<lambda>s. and_then (load_users s (ps_users f)) (\<lambda>s.
        load_streams (ensure_default_profiles (s\<lparr>sg_auth_secret := ps_secret f\<rparr>)) (ps_streams f))) = Inr s"
      using l by (auto simp: load_state_def split: if_splits option.splits)
    then obtain s1 s2 where f: "load_profiles ?e (ps_profiles f) = Inr s1" "load_users s1 (ps_users f) = Inr s2"
      "load_streams (ensure_default_profiles (s2\<lparr>sg_auth_secret := ps_secret f\<rparr>)) (ps_streams f) = Inr s"
      unfolding and_then_Inr by blast
    have "loaded_ok s2" using load_profiles_ok [OF f(1) loaded_ok_empty] load_users_ok [OF f(2)] by blast
    then have "loaded_ok (s2\<lparr>sg_auth_secret := ps_secret f\<rparr>)" by (simp add: loaded_ok_def)
    then show ?thesis using ensure_default_profiles_ok load_streams_ok [OF f(3)] by blast
  qed (simp add: loaded_ok_empty)
qed

definition random_ok :: "octets option \<Rightarrow> bool" where
  "random_ok random \<longleftrightarrow> (\<forall>data. random = Some data \<longrightarrow> length data = 32)"

lemma new_stream_store_ok:
  assumes "new_stream_store random1 random2 now readable saved path stored = Inr s" and "random_ok random1"
  shows "stream_store_ok s"
proof -
  obtain s0 s1 s2 c1 c2 where l: "load_state readable (empty_stream_store path stored) = Inr s0"
    and e: "ensure_secret random1 (ensure_default_profiles s0) = Inr (c1, s1)" "ensure_admin random2 now s1 = Inr (c2, s2)"
    and s: "s = s2 \<or> s = snd (stream_save saved s2)"
    using assms(1) by (auto simp: new_stream_store_def ensure_auth_def and_then_Inr split: if_splits sum.splits prod.splits)
  let ?d = "ensure_default_profiles s0"
  have d: "loaded_ok ?d" "defaults_present ?d" using ensure_default_profiles_ok load_state_ok [OF l] by blast+
  have "encode64 data \<noteq> []" if "random1 = Some data" for data
    using that assms(2) length_encode64 [of data] by (auto simp: random_ok_def)
  then have "sg_auth_secret s1 \<noteq> []" and k: "sg_streams s1 = sg_streams ?d" "sg_profiles s1 = sg_profiles ?d"
    "sg_users s1 = sg_users ?d" "sg_states s1 = sg_states ?d"
    using e(1) by (auto simp: ensure_secret_def generate_secret_def split: if_splits option.splits)
  moreover have "users_ok (sg_users s2) \<and> has_key (sg_users s2) ''admin'' \<and> sg_streams s2 = sg_streams s1
      \<and> sg_profiles s2 = sg_profiles s1 \<and> sg_states s2 = sg_states s1 \<and> sg_auth_secret s2 = sg_auth_secret s1"
    using e(2) d(1) k
    by (auto simp: ensure_admin_def loaded_ok_def new_user_ok(1) intro: users_ok_new split: if_splits sum.splits)
  ultimately have "stream_store_ok s2" using d by (simp add: stream_store_ok_def loaded_ok_def defaults_present_def)
  then show ?thesis using s by auto
qed

subsection \<open>Reachable stores\<close>

inductive stream_step :: "stream_store \<Rightarrow> stream_store \<Rightarrow> bool" where
  upsert: "stream_step s (snd (upsert_stream now saved c s))"
| delete: "stream_step s (snd (delete_stream now saved i s))"
| set_state: "stream_step s (set_stream_state now i state s)"
| update_state: "stream_step s (snd (update_stream now i f s))"
| upsert_profile: "stream_step s (snd (upsert_profile now saved p s))"
| delete_profile: "stream_step s (snd (delete_profile now saved name s))"
| create_user: "stream_step s (snd (create_user random now saved name password s))"
| delete_user: "stream_step s (snd (delete_user now saved name s))"
| change_password: "stream_step s (snd (change_password random now saved name current new req s))"
| log: "stream_step s (append_log_code now i level code message s)"
| clear: "stream_step s (clear_logs now i s)"
| subscribe: "stream_step s (stream_subscribe c s)"
| unsubscribe: "stream_step s (stream_unsubscribe c s)"
| take_event: "stream_step s (s\<lparr>sg_subscribers := put c queue (sg_subscribers s)\<rparr>)"

inductive stream_reachable :: "stream_store \<Rightarrow> bool" where
  opened: "new_stream_store random1 random2 now readable saved path stored = Inr s \<Longrightarrow> random_ok random1 \<Longrightarrow> stream_reachable s"
| step: "stream_reachable s \<Longrightarrow> stream_step s t \<Longrightarrow> stream_reachable t"

lemma stream_step_ok: "stream_step s t \<Longrightarrow> stream_store_ok s \<Longrightarrow> stream_store_ok t"
proof (induction rule: stream_step.induct)
  case (clear s now i)
  then show ?case by (subst stream_store_ok_cong [of _ s]) (simp_all add: clear_logs_def)
next
  case (subscribe s c)
  then show ?case by (subst stream_store_ok_cong [of _ s]) (simp_all add: stream_subscribe_def)
next
  case (unsubscribe s c)
  then show ?case by (subst stream_store_ok_cong [of _ s]) (simp_all add: stream_unsubscribe_def)
next
  case (take_event s c queue)
  then show ?case by (subst stream_store_ok_cong [of _ s]) simp_all
qed (simp_all add: upsert_stream_ok delete_stream_ok state_change_ok upsert_profile_ok delete_profile_ok create_user_ok
    delete_user_ok change_password_ok)

lemma stream_reachable_ok: "stream_reachable s \<Longrightarrow> stream_store_ok s"
  by (induction rule: stream_reachable.induct) (auto intro: new_stream_store_ok stream_step_ok)

end
