(* ===== verification/StreamJobsProps.thy ===== *)
theory StreamJobsProps
  imports StreamWatch StreamStoreLaws
begin

text \<open>
  The stream manager as a transition system: a goroutine that has left a critical section and
  has not finished is an entry of a list, so that the sections of different goroutines
  interleave freely. The watchers only change the store and cancel processes.
\<close>

subsection \<open>Steps\<close>

record job_system =
  z_mgr :: job_manager
  z_starting :: "(string \<times> nat \<times> bool \<times> int) list"    \<comment> \<open>process made, state not yet updated\<close>
  z_waiting :: "(string \<times> nat) list"                   \<comment> \<open>goroutines in \<open>wait\<close>\<close>
  z_stopping :: "(string \<times> nat) list"                  \<comment> \<open>marked as stopping, not yet cancelled\<close>
  z_cancelled :: "(string \<times> nat) list"                 \<comment> \<open>cancelled by a stop, state not yet updated\<close>
  z_exited :: "(string \<times> bool \<times> string option) list"    \<comment> \<open>job removed, state not yet updated\<close>

definition start_begun :: "string \<Rightarrow> bool \<Rightarrow> stream_job \<Rightarrow> job_manager \<Rightarrow> job_system \<Rightarrow> job_system" where
  "start_begun i restarted job m z =
     z\<lparr>z_mgr := m, z_starting := (i, sj_token job, restarted, sj_pid job) # z_starting z\<rparr>"

inductive job_step :: "job_system \<Rightarrow> job_system \<Rightarrow> bool" where
  start_begins: "job_claim sp i False (z_mgr z) = (Inr job, m) \<Longrightarrow> job_step z (start_begun i False job m z)"
| start_refused: "job_step z (z\<lparr>z_mgr := set_stream now i (stream_refused e) (z_mgr z)\<rparr>)"
| start_ends: "(i, token, restarted, pid) \<in> set (z_starting z)
    \<Longrightarrow> job_step z (z\<lparr>z_mgr := set_stream now i (stream_started now restarted pid) (z_mgr z),
          z_starting := remove1 (i, token, restarted, pid) (z_starting z), z_waiting := (i, token) # z_waiting z\<rparr>)"
| stop_begins: "job_stop_claim i (z_mgr z) = (Inr job, m)
    \<Longrightarrow> job_step z (z\<lparr>z_mgr := m, z_stopping := (i, sj_token job) # z_stopping z\<rparr>)"
| stop_cancels: "(i, token) \<in> set (z_stopping z)
    \<Longrightarrow> job_step z (z\<lparr>z_mgr := cancel_job token (z_mgr z), z_stopping := remove1 (i, token) (z_stopping z),
          z_cancelled := (i, token) # z_cancelled z\<rparr>)"
| stop_ends: "(i, token) \<in> set (z_cancelled z)
    \<Longrightarrow> job_step z (z\<lparr>z_mgr := job_stop_publish now i (z_mgr z), z_cancelled := remove1 (i, token) (z_cancelled z)\<rparr>)"
| process_exits: "(i, token) \<in> set (z_waiting z) \<Longrightarrow> exit_claim i token (z_mgr z) = (current, m)
    \<Longrightarrow> job_step z (z\<lparr>z_mgr := m, z_waiting := remove1 (i, token) (z_waiting z),
          z_exited := (i, case current of None \<Rightarrow> False | Some job \<Rightarrow> sj_stopping job, err) # z_exited z\<rparr>)"
| exit_ends: "(i, stopping, err) \<in> set (z_exited z)
    \<Longrightarrow> job_step z (z\<lparr>z_mgr := exit_publish now i stopping err (z_mgr z), z_exited := remove1 (i, stopping, err) (z_exited z)\<rparr>)"
| restart_skipped: "(i, d) \<in> set (jm_sleeping (z_mgr z)) \<Longrightarrow> job_step z (z\<lparr>z_mgr := wake (i, d) (z_mgr z)\<rparr>)"
| restart_begins: "(i, d) \<in> set (jm_sleeping (z_mgr z)) \<Longrightarrow> job_claim sp i True (wake (i, d) (z_mgr z)) = (Inr job, m)
    \<Longrightarrow> job_step z (start_begun i True job m z)"
| restart_fails: "(i, d) \<in> set (jm_sleeping (z_mgr z))
    \<Longrightarrow> job_step z (z\<lparr>z_mgr := restart_failed w now i e (wake (i, d) (z_mgr z))\<rparr>)"
| watcher_kills: "job_step z (z\<lparr>z_mgr := cancel_job token (z_mgr z)\<rparr>)"
| store_changes: "stream_step (jm_store (z_mgr z)) s \<Longrightarrow> job_step z (z\<lparr>z_mgr := (z_mgr z)\<lparr>jm_store := s\<rparr>\<rparr>)"

definition initial_jobs :: "string \<Rightarrow> system_config \<Rightarrow> stream_store \<Rightarrow> job_system" where
  "initial_jobs path sys s = \<lparr>z_mgr = new_job_manager path sys s, z_starting = [], z_waiting = [], z_stopping = [],
     z_cancelled = [], z_exited = []\<rparr>"

inductive jobs_reachable :: "job_system \<Rightarrow> bool" where
  initial: "stream_reachable s \<Longrightarrow> jobs_reachable (initial_jobs path sys s)"
| next_step: "jobs_reachable z \<Longrightarrow> job_step z y \<Longrightarrow> jobs_reachable y"

subsection \<open>What the sections leave alone\<close>

lemma job_manager_keeps [simp]:
  "jm_jobs (cancel_job t m) = jm_jobs m" "jm_next (cancel_job t m) = jm_next m" "jm_done (cancel_job t m) = jm_done m"
  "jm_store (cancel_job t m) = jm_store m" "jm_restarts (cancel_job t m) = jm_restarts m" "jm_sleeping (cancel_job t m) = jm_sleeping m"
  "jm_jobs (wake x m) = jm_jobs m" "jm_next (wake x m) = jm_next m" "jm_done (wake x m) = jm_done m"
  "jm_store (wake x m) = jm_store m" "jm_restarts (wake x m) = jm_restarts m"
  "jm_jobs (job_stop_publish now i m) = jm_jobs m" "jm_next (job_stop_publish now i m) = jm_next m"
  "jm_done (job_stop_publish now i m) = jm_done m" "jm_sleeping (job_stop_publish now i m) = jm_sleeping m"
  by (simp_all add: cancel_job_def wake_def job_stop_publish_def)

lemma count_failure_keeps:
  assumes "count_failure i p now m = (n, m')"
  shows "jm_jobs m' = jm_jobs m" "jm_next m' = jm_next m" "jm_done m' = jm_done m" "jm_store m' = jm_store m"
    "jm_sleeping m' = jm_sleeping m" "jm_cancelled m' = jm_cancelled m"
  using assms by (auto simp: count_failure_def Let_def)

lemma maybe_restart_keeps [simp]:
  "jm_jobs (maybe_restart now i reason m) = jm_jobs m" "jm_next (maybe_restart now i reason m) = jm_next m"
  "jm_done (maybe_restart now i reason m) = jm_done m"
  by (auto simp: maybe_restart_def count_failure_keeps split: option.split prod.split)

lemma exit_publish_keeps [simp]:
  "jm_jobs (exit_publish now i manual_stop err m) = jm_jobs m" "jm_next (exit_publish now i manual_stop err m) = jm_next m"
  "jm_done (exit_publish now i manual_stop err m) = jm_done m"
  by (simp_all add: exit_publish_def split: prod.split)

lemma restart_failed_keeps [simp]:
  "jm_jobs (restart_failed w now i e m) = jm_jobs m" "jm_next (restart_failed w now i e m) = jm_next m"
  "jm_done (restart_failed w now i e m) = jm_done m"
  by (simp_all add: restart_failed_def)

lemma job_claim_Inr:
  assumes "job_claim sp i r m = (Inr job, m')"
  shows "get (jm_jobs m) i = None" "sj_token job = jm_next m" "\<not> sj_stopping job" "jm_jobs m' = put i job (jm_jobs m)"
    "jm_next m' = jm_next m + 1" "jm_done m' = jm_done m" "jm_store m' = jm_store m"
  using assms by (auto simp: job_claim_def Let_def has_key_def split: if_splits spawn.splits)

subsection \<open>One process per stream\<close>

definition job_token_of :: "job_manager \<Rightarrow> string \<Rightarrow> nat option" where
  "job_token_of m i = map_option sj_token (get (jm_jobs m) i)"

definition job_claimed :: "string \<Rightarrow> nat \<Rightarrow> job_manager \<Rightarrow> job_manager \<Rightarrow> bool" where
  "job_claimed i t m m' \<longleftrightarrow> (\<exists>sp r job. job_claim sp i r m = (Inr job, m') \<and> sj_token job = t)"

definition job_released :: "string \<Rightarrow> nat \<Rightarrow> job_manager \<Rightarrow> job_manager \<Rightarrow> bool" where
  "job_released i t m m' \<longleftrightarrow> job_token_of m i = Some t \<and> (\<exists>current. exit_claim i t m = (current, m'))"

interpretation stream_table: job_table job_token_of jm_next job_claimed job_released
proof unfold_locales
  show "job_claimed i t m m' \<Longrightarrow> job_token_of m i = None \<and> t = jm_next m \<and> jm_next m' = Suc t" for i t m m'
    by (auto simp: job_claimed_def job_token_of_def job_claim_Inr)
  show "job_claimed i t m m' \<Longrightarrow> job_token_of m' j = (if j = i then Some t else job_token_of m j)" for i t m m' j
    by (auto simp: job_claimed_def job_token_of_def job_claim_Inr)
  show "job_released i t m m' \<Longrightarrow> job_token_of m i = Some t \<and> jm_next m' = jm_next m
      \<and> (\<forall>j. job_token_of m' j = (if j = i then None else job_token_of m j))" for i t m m'
    by (auto simp: job_released_def job_token_of_def exit_claim_def split: option.splits)
qed

lemma job_token_cong: "jm_jobs m' = jm_jobs m \<Longrightarrow> job_token_of m' = job_token_of m"
  by (simp add: job_token_of_def fun_eq_iff)

definition stream_processes :: "job_system \<Rightarrow> (string \<times> nat) list" where
  "stream_processes z = map (\<lambda>(i, token, _). (i, token)) (z_starting z) @ z_waiting z"

text \<open>The table matches the processes, and a \<open>done\<close> channel is closed once, when its job leaves.\<close>

definition jobs_ok :: "job_system \<Rightarrow> bool" where
  "jobs_ok z \<longleftrightarrow> stream_table.matches (z_mgr z) (stream_processes z) \<and> distinct (jm_done (z_mgr z))
     \<and> (\<forall>t \<in> set (jm_done (z_mgr z)). stream_table.retired (z_mgr z) t)"

lemma jobs_ok_same:
  assumes "jobs_ok z" "job_token_of (z_mgr y) = job_token_of (z_mgr z)" "jm_next (z_mgr y) = jm_next (z_mgr z)"
    and "jm_done (z_mgr y) = jm_done (z_mgr z)" "set (stream_processes y) = set (stream_processes z)" "distinct (stream_processes y)"
  shows "jobs_ok y"
  using assms stream_table.matches_same [of "z_mgr z" "stream_processes z" "z_mgr y" "stream_processes y"]
    stream_table.retired_same [of "z_mgr y" "z_mgr z"]
  by (simp add: jobs_ok_def)

lemma jobs_ok_processes: "jobs_ok z \<Longrightarrow> distinct (stream_processes z)"
  by (simp add: jobs_ok_def stream_table.matches_def)

lemma jobs_ok_quiet:
  assumes "jobs_ok z" "jm_jobs (z_mgr y) = jm_jobs (z_mgr z)" "jm_next (z_mgr y) = jm_next (z_mgr z)"
    and "jm_done (z_mgr y) = jm_done (z_mgr z)" "z_starting y = z_starting z" "z_waiting y = z_waiting z"
  shows "jobs_ok y"
  using assms(3-) jobs_ok_processes [OF assms(1)] job_token_cong [OF assms(2)]
  by (intro jobs_ok_same [OF assms(1)]) (simp_all add: stream_processes_def)

lemma jobs_ok_start:
  assumes "jobs_ok z" "job_claim sp i r m = (Inr job, m')" "jm_jobs m = jm_jobs (z_mgr z)" "jm_next m = jm_next (z_mgr z)"
    and "jm_done m = jm_done (z_mgr z)"
  shows "jobs_ok (start_begun i r job m' z)"
proof -
  have c: "job_claimed i (sj_token job) m m'" using assms(2) by (auto simp: job_claimed_def)
  have z: "jobs_ok (z\<lparr>z_mgr := m\<rparr>)" using assms by (intro jobs_ok_quiet [OF assms(1)]) simp_all
  then have "stream_table.matches m (stream_processes z)" by (simp add: jobs_ok_def stream_processes_def)
  then have "stream_table.matches m' ((i, sj_token job) # stream_processes z)" using c by (rule stream_table.matches_claim)
  moreover have "stream_processes (start_begun i r job m' z) = (i, sj_token job) # stream_processes z"
    by (simp add: stream_processes_def start_begun_def)
  ultimately show ?thesis
    using z stream_table.retired_claim [OF c] job_claim_Inr(6) [OF assms(2)] by (simp add: jobs_ok_def) (simp add: start_begun_def)
qed

lemma jobs_ok_exit:
  assumes "jobs_ok z" "(i, token) \<in> set (z_waiting z)" "exit_claim i token (z_mgr z) = (current, m)"
  shows "jobs_ok (z\<lparr>z_mgr := m, z_waiting := remove1 (i, token) (z_waiting z), z_exited := e\<rparr>)" (is "jobs_ok ?z")
proof -
  have matches: "stream_table.matches (z_mgr z) (stream_processes z)" and d: "distinct (stream_processes z)"
    using assms(1) jobs_ok_processes by (simp_all add: jobs_ok_def)
  have t: "job_token_of (z_mgr z) i = Some token"
    using stream_table.own_token [OF matches, of i token] assms(2) by (simp add: stream_processes_def)
  then have r: "job_released i token (z_mgr z) m" using assms(3) by (auto simp: job_released_def)
  have "(i, token) \<notin> set (map (\<lambda>(i, token, _). (i, token)) (z_starting z))"
    using d assms(2) by (auto simp: stream_processes_def)
  then have p: "stream_processes ?z = remove1 (i, token) (stream_processes z)"
    by (simp add: stream_processes_def remove1_append)
  have dn: "jm_done m = jm_done (z_mgr z) @ [token]"
    using assms(3) t by (auto simp: exit_claim_def job_token_of_def)
  have "\<not> stream_table.retired (z_mgr z) token" using t by (auto simp: stream_table.retired_def)
  then have "token \<notin> set (jm_done (z_mgr z))" using assms(1) by (auto simp: jobs_ok_def)
  then show ?thesis
    using assms(1) stream_table.matches_release [OF matches r] stream_table.retired_release [OF matches r]
    by (simp add: jobs_ok_def p dn)
qed

lemma jobs_ok_step: "job_step z y \<Longrightarrow> jobs_ok z \<Longrightarrow> jobs_ok y"
proof (induction rule: job_step.induct)
  case (start_begins sp i z job m)
  show ?case by (rule jobs_ok_start [OF start_begins.prems start_begins.hyps]) simp_all
next
  case (restart_begins i d z sp job m)
  show ?case by (rule jobs_ok_start [OF restart_begins.prems restart_begins.hyps(2)]) simp_all
next
  case (process_exits i token z current m err)
  show ?case by (rule jobs_ok_exit [OF process_exits.prems process_exits.hyps])
next
  case (stop_begins i z job m)
  then have m: "jm_jobs m = put i (job\<lparr>sj_stopping := True\<rparr>) (jm_jobs (z_mgr z))" "jm_next m = jm_next (z_mgr z)"
    "jm_done m = jm_done (z_mgr z)" and g: "get (jm_jobs (z_mgr z)) i = Some job"
    by (auto simp: job_stop_claim_def split: option.splits)
  have "job_token_of m = job_token_of (z_mgr z)" by (auto simp: job_token_of_def m g fun_eq_iff)
  then show ?case
    using stop_begins.prems m jobs_ok_processes [OF stop_begins.prems]
    by (intro jobs_ok_same [OF stop_begins.prems]) (simp_all add: stream_processes_def)
next
  case (start_ends i token restarted pid z now)
  let ?y = "z\<lparr>z_mgr := set_stream now i (stream_started now restarted pid) (z_mgr z),
    z_starting := remove1 (i, token, restarted, pid) (z_starting z), z_waiting := (i, token) # z_waiting z\<rparr>"
  obtain as bs where s: "z_starting z = as @ (i, token, restarted, pid) # bs" "(i, token, restarted, pid) \<notin> set as"
    using start_ends.hyps by (meson split_list_first)
  then have "stream_processes z = map (\<lambda>(i, token, _). (i, token)) as @ (i, token) # map (\<lambda>(i, token, _). (i, token)) bs @ z_waiting z"
    "stream_processes ?y = map (\<lambda>(i, token, _). (i, token)) as @ map (\<lambda>(i, token, _). (i, token)) bs @ (i, token) # z_waiting z"
    by (simp_all add: stream_processes_def remove1_append)
  then have "set (stream_processes ?y) = set (stream_processes z)" "distinct (stream_processes ?y) = distinct (stream_processes z)"
    by auto
  moreover have "job_token_of (z_mgr ?y) = job_token_of (z_mgr z)" by (rule job_token_cong) simp
  ultimately show ?case
    using jobs_ok_processes [OF start_ends.prems] by (intro jobs_ok_same [OF start_ends.prems]) simp_all
qed (rule jobs_ok_quiet, assumption, simp_all)+

lemma jobs_reachable_ok: "jobs_reachable z \<Longrightarrow> jobs_ok z"
proof (induction rule: jobs_reachable.induct)
  case (initial s path sys)
  then show ?case
    by (simp add: jobs_ok_def stream_table.matches_def initial_jobs_def new_job_manager_def stream_processes_def job_token_of_def)
next
  case (next_step z y) then show ?case using jobs_ok_step by blast
qed

text \<open>
  C34: However the goroutines interleave, a stream has at most one ffmpeg process, the table of
  jobs holds exactly the streams with one, the goroutine waiting for a process finds the job of
  that process, and no \<open>done\<close> channel is closed twice, which would crash the daemon.
\<close>

theorem one_ffmpeg_per_stream:
  assumes "jobs_reachable z"
  shows "distinct (map fst (stream_processes z))
    \<and> (\<forall>i. has_key (jm_jobs (z_mgr z)) i \<longleftrightarrow> i \<in> fst ` set (stream_processes z))
    \<and> (\<forall>(i, token) \<in> set (z_waiting z). \<exists>job. fst (exit_claim i token (z_mgr z)) = Some job \<and> sj_token job = token)
    \<and> distinct (jm_done (z_mgr z))"
proof -
  have m: "stream_table.matches (z_mgr z) (stream_processes z)" and d: "distinct (jm_done (z_mgr z))"
    using jobs_reachable_ok [OF assms] by (simp_all add: jobs_ok_def)
  have "has_key (jm_jobs (z_mgr z)) i \<longleftrightarrow> i \<in> fst ` set (stream_processes z)" for i
    using stream_table.running_iff [OF m, of i] by (simp add: has_key_def job_token_of_def)
  moreover have "\<exists>job. fst (exit_claim i token (z_mgr z)) = Some job \<and> sj_token job = token"
    if "(i, token) \<in> set (z_waiting z)" for i token
    using stream_table.own_token [OF m, of i token] that
    by (auto simp: stream_processes_def job_token_of_def exit_claim_def)
  ultimately show ?thesis using d stream_table.one_per_name [OF m] by auto
qed

end
