(* ===== verification/StreamRestarts.thy ===== *)
theory StreamRestarts
  imports StreamJobsProps
begin

text \<open>
  How the stream manager ends and restarts processes: the limit on automatic restarts, what
  a crash leads to, and two races in which the reported state stays wrong.
\<close>

subsection \<open>The restart limit\<close>

definition failure_granted :: "string \<Rightarrow> restart_policy \<Rightarrow> gotime \<Rightarrow> job_manager \<Rightarrow> bool \<times> job_manager" where
  "failure_granted i policy now m = (case count_failure i policy now m of (n, m') \<Rightarrow> (n \<le> rp_max_attempts policy, m'))"

text \<open>The number of failures at the given times that are answered by a restart.\<close>

fun restarts_granted :: "string \<Rightarrow> restart_policy \<Rightarrow> gotime list \<Rightarrow> job_manager \<Rightarrow> nat" where
  "restarts_granted i policy [] m = 0"
| "restarts_granted i policy (t # ts) m = of_bool (fst (failure_granted i policy t m))
     + restarts_granted i policy ts (snd (failure_granted i policy t m))"

lemma count_failure_tracker:
  "fst (count_failure i policy now m)
     = rt_attempts (next_tracker (duration_seconds (rp_window_seconds policy)) now (tracker_of (jm_restarts m) i))"
  "tracker_of (jm_restarts (snd (count_failure i policy now m))) i
     = next_tracker (duration_seconds (rp_window_seconds policy)) now (tracker_of (jm_restarts m) i)"
  by (simp_all add: count_failure_def Let_def next_tracker_def window_over_def go_sub_greater tracker_of_def)

lemma failure_granted_pair:
  "failure_granted i policy now m
     = (fst (count_failure i policy now m) \<le> rp_max_attempts policy, snd (count_failure i policy now m))"
  by (simp add: failure_granted_def split: prod.split)

text \<open>A policy with a limit that is not negative, as all validated ones.\<close>

definition with_limit :: "restart_policy \<Rightarrow> restart_policy" where
  "with_limit p = p\<lparr>rp_max_attempts := max 0 (rp_max_attempts p)\<rparr>"

interpretation stream_limit: restart_limiter "failure_granted i (with_limit p)" "\<lambda>m. tracker_of (jm_restarts m) i"
    "duration_seconds (rp_window_seconds p)" "max 0 (rp_max_attempts p)" "\<lambda>t. \<not> is_zero t"
  for i p
proof -
  have w: "rp_window_seconds (with_limit p) = rp_window_seconds p" "rp_max_attempts (with_limit p) = max 0 (rp_max_attempts p)"
    by (simp_all add: with_limit_def)
  show "restart_limiter (failure_granted i (with_limit p)) (\<lambda>m. tracker_of (jm_restarts m) i)
      (duration_seconds (rp_window_seconds p)) (max 0 (rp_max_attempts p)) (\<lambda>t. \<not> is_zero t)"
    by unfold_locales (auto simp: failure_granted_pair count_failure_tracker w)
qed

lemma restarts_granted_limit: "restarts_granted i (with_limit p) ts m = stream_limit.granted i p ts m"
  by (induction ts arbitrary: m) simp_all


subsection \<open>States\<close>

abbreviation state_of :: "string \<Rightarrow> job_manager \<Rightarrow> stream_state" where
  "state_of i m \<equiv> stream_state_locked (jm_store m) i"

lemma stream_state_emit [simp]: "stream_state_locked (stream_emit e s) i = stream_state_locked s i"
  by (simp add: stream_state_locked_def)

lemma state_of_set_stream [simp]: "state_of j (set_stream now i f m) = (if j = i then f (state_of i m) else state_of j m)"
  by (simp add: set_stream_def update_stream_def Let_def stream_state_locked_def)

lemma state_of_log [simp]: "state_of j (log_stream now i l c x m) = state_of j m"
  by (simp add: log_stream_def stream_state_locked_def)

lemma streams_set_stream [simp]:
  "sg_streams (jm_store (set_stream now i f m)) = sg_streams (jm_store m)"
  "sg_profiles (jm_store (set_stream now i f m)) = sg_profiles (jm_store m)"
  "sg_streams (jm_store (log_stream now i l c x m)) = sg_streams (jm_store m)"
  "sg_profiles (jm_store (log_stream now i l c x m)) = sg_profiles (jm_store m)"
  by (simp_all add: set_stream_def update_stream_def Let_def log_stream_def)

lemma restart_policy_cong: "sg_streams (jm_store m') = sg_streams (jm_store m) \<Longrightarrow> restart_policy_of i m' = restart_policy_of i m"
  by (simp add: restart_policy_of_def get_stream_def split: option.split)

lemma start_args_cong:
  assumes "jm_store m' = jm_store m" "jm_sys m' = jm_sys m"
  shows "start_args i m' = start_args i m" "stream_enabled i m' = stream_enabled i m"
  unfolding start_args_def stream_enabled_def assms by simp_all

lemma jm_sys_wake [simp]: "jm_sys (wake x m) = jm_sys m"
  by (simp add: wake_def)

lemma maybe_restart_effect:
  fixes now reason
  assumes "restart_policy_of i m = Some p"
  defines "count \<equiv> rt_attempts (next_tracker (duration_seconds (rp_window_seconds p)) now (tracker_of (jm_restarts m) i))"
  shows "stt_status (state_of i (maybe_restart now i reason m)) = (if count \<le> rp_max_attempts p then ''restarting'' else ''flapping'')"
    and "jm_sleeping (maybe_restart now i reason m) = jm_sleeping m
      @ (if count \<le> rp_max_attempts p then [(i, duration_seconds (rp_backoff_seconds p))] else [])"
    and "stt_pid (state_of i (maybe_restart now i reason m)) = stt_pid (state_of i m)"
proof -
  obtain n m' where c: "count_failure i p now m = (n, m')" by fastforce
  have n: "n = count" using count_failure_tracker(1) [of i p now m] by (simp add: c count_def)
  note k = count_failure_keeps [OF c]
  show "stt_status (state_of i (maybe_restart now i reason m)) = (if count \<le> rp_max_attempts p then ''restarting'' else ''flapping'')"
    "jm_sleeping (maybe_restart now i reason m) = jm_sleeping m
      @ (if count \<le> rp_max_attempts p then [(i, duration_seconds (rp_backoff_seconds p))] else [])"
    "stt_pid (state_of i (maybe_restart now i reason m)) = stt_pid (state_of i m)"
    by (auto simp: maybe_restart_def assms(1) c n k stream_flapping_def stream_restarting_def)
qed

lemma exit_publish_failed:
  "exit_publish now i False (Some e) m = maybe_restart now i
     (stt_last_error (ended now False (Some e) (state_of i m))) (set_stream now i (ended now False (Some e)) m)"
  by (simp add: exit_publish_def set_stream_def update_stream_def Let_def)

lemma exit_publish_done: "manual_stop \<or> err = None \<Longrightarrow> exit_publish now i manual_stop err m = set_stream now i (ended now manual_stop err) m"
  by (auto simp: exit_publish_def set_stream_def update_stream_def Let_def)

text \<open>The manager once the waiting goroutine has taken its job out of the table.\<close>

definition job_left :: "string \<Rightarrow> nat \<Rightarrow> job_manager \<Rightarrow> job_manager" where
  "job_left i token m = m\<lparr>jm_jobs := del i (jm_jobs m), jm_done := jm_done m @ [token]\<rparr>"

lemma job_left_simps [simp]:
  "jm_jobs (job_left i token m) = del i (jm_jobs m)" "jm_done (job_left i token m) = jm_done m @ [token]"
  "jm_sleeping (job_left i token m) = jm_sleeping m" "jm_store (job_left i token m) = jm_store m"
  "jm_restarts (job_left i token m) = jm_restarts m"
  by (simp_all add: job_left_def)

lemma wait_stream_own:
  assumes "jobs_reachable z" "(i, token) \<in> set (z_waiting z)" "get (jm_jobs (z_mgr z)) i = Some job"
  shows "wait_stream now i token err (z_mgr z) = exit_publish now i (sj_stopping job) err (job_left i token (z_mgr z))"
proof -
  have "sj_token job = token"
    using stream_table.own_token [of "z_mgr z" "stream_processes z" i token] jobs_reachable_ok [OF assms(1)] assms(2,3)
    by (simp add: jobs_ok_def stream_processes_def job_token_of_def)
  then show ?thesis using assms(3) by (simp add: wait_stream_def exit_claim_def job_left_def)
qed

text \<open>
  C36: When the ffmpeg of a stream ends by itself with an error and the stream is to be restarted,
  its job is removed and its \<open>done\<close> channel closed, no process is reported any more, and either
  exactly one restart is scheduled, after the backoff of the policy and with the state
  ''restarting'', or the limit is reached and the state is ''flapping''. An exit without an
  error, or after a stop, leaves the stream stopped with nothing scheduled.
\<close>

theorem stream_exit_handled:
  assumes "jobs_reachable z" and "(i, token) \<in> set (z_waiting z)" and "get (jm_jobs (z_mgr z)) i = Some job"
  shows "let m = z_mgr z; m' = wait_stream now i token err m in
     \<not> has_key (jm_jobs m') i \<and> token \<in> set (jm_done m') \<and> stt_pid (state_of i m') = 0
     \<and> (sj_stopping job \<or> err = None \<longrightarrow> stt_status (state_of i m') = ''stopped'' \<and> jm_sleeping m' = jm_sleeping m)
     \<and> (\<forall>e p. \<not> sj_stopping job \<and> err = Some e \<and> restart_policy_of i m = Some p \<longrightarrow>
         (if rt_attempts (next_tracker (duration_seconds (rp_window_seconds p)) now (tracker_of (jm_restarts m) i)) \<le> rp_max_attempts p
          then stt_status (state_of i m') = ''restarting''
            \<and> jm_sleeping m' = jm_sleeping m @ [(i, duration_seconds (rp_backoff_seconds p))]
          else stt_status (state_of i m') = ''flapping'' \<and> jm_sleeping m' = jm_sleeping m))
     \<and> (\<forall>e. \<not> sj_stopping job \<and> err = Some e \<and> restart_policy_of i m = None \<longrightarrow>
         stt_status (state_of i m') = ''error'' \<and> jm_sleeping m' = jm_sleeping m)"
proof -
  let ?m = "z_mgr z"
  define m1 where "m1 = job_left i token ?m"
  note w = wait_stream_own [OF assms, of now err, folded m1_def]
  have m1: "jm_jobs m1 = del i (jm_jobs ?m)" "jm_done m1 = jm_done ?m @ [token]" "jm_sleeping m1 = jm_sleeping ?m"
    "jm_store m1 = jm_store ?m" "jm_restarts m1 = jm_restarts ?m"
    by (simp_all add: m1_def)
  have e: "stt_pid (ended now stop err st) = 0" for stop st by (simp add: ended_def Let_def split: option.split)
  have policy: "restart_policy_of i (set_stream now i f m1) = restart_policy_of i ?m" for f
    by (rule restart_policy_cong) (simp add: m1(4))
  have table: "\<not> has_key (jm_jobs (exit_publish now i (sj_stopping job) err m1)) i"
    "token \<in> set (jm_done (exit_publish now i (sj_stopping job) err m1))" by (simp_all add: m1)
  show ?thesis
  proof (cases "sj_stopping job \<or> err = None")
    case True
    have "stt_status (ended now (sj_stopping job) err st) = ''stopped''" for st
      using True by (auto simp: ended_def Let_def split: option.split)
    then show ?thesis
      using table e True unfolding Let_def w exit_publish_done [OF True] by (auto simp: m1)
  next
    case False
    then obtain x where x: "err = Some x" by auto
    let ?m2 = "set_stream now i (ended now False (Some x)) m1"
    have p: "exit_publish now i (sj_stopping job) err m1 = maybe_restart now i
        (stt_last_error (ended now False (Some x) (state_of i m1))) ?m2"
      using False x exit_publish_failed by simp
    show ?thesis
    proof (cases "restart_policy_of i ?m")
      case None
      then have "maybe_restart now i r ?m2 = ?m2" for r by (simp add: maybe_restart_def policy)
      then show ?thesis
        using table None False unfolding Let_def w p by (simp add: m1 ended_def Let_def x)
    next
      case (Some q)
      have q: "restart_policy_of i ?m2 = Some q" by (simp add: policy Some)
      note r = maybe_restart_effect [OF q, of now]
      show ?thesis
        using table Some False e [of False] unfolding Let_def w p by (simp add: r m1 x)
    qed
  qed
qed

subsection \<open>A stop that meets the exit of its process\<close>

text \<open>
  A stop cancels the process before it reports the state ''stopping'', so the process can end
  and be reported as stopped first. Then the stop is answered with success, no process, job,
  goroutine or restart is left, and the stream is shown as ''stopping'' until it is started again.
\<close>

theorem stream_stop_race:
  assumes "jobs_reachable z" and "(i, token) \<in> set (z_waiting z)" and "z_stopping z = []" and "z_cancelled z = []" and "z_exited z = []"
  shows "\<exists>y. job_step\<^sup>*\<^sup>* z y \<and> \<not> has_key (jm_jobs (z_mgr y)) i \<and> token \<in> set (jm_done (z_mgr y))
    \<and> z_starting y = z_starting z \<and> z_waiting y = remove1 (i, token) (z_waiting z)
    \<and> z_stopping y = [] \<and> z_cancelled y = [] \<and> z_exited y = [] \<and> jm_sleeping (z_mgr y) = jm_sleeping (z_mgr z)
    \<and> stt_status (state_of i (z_mgr y)) = ''stopping''"
proof -
  let ?m = "z_mgr z"
  obtain job where job: "get (jm_jobs ?m) i = Some job" "sj_token job = token"
    using stream_table.own_token [of ?m "stream_processes z" i token] jobs_reachable_ok [OF assms(1)] assms(2)
    by (auto simp: jobs_ok_def stream_processes_def job_token_of_def)
  let ?m1 = "?m\<lparr>jm_jobs := put i (job\<lparr>sj_stopping := True\<rparr>) (jm_jobs ?m), jm_restarts := del i (jm_restarts ?m)\<rparr>"
  let ?z1 = "z\<lparr>z_mgr := ?m1, z_stopping := (i, token) # z_stopping z\<rparr>"
  let ?m2 = "cancel_job token ?m1"
  let ?z2 = "?z1\<lparr>z_mgr := ?m2, z_stopping := remove1 (i, token) (z_stopping ?z1), z_cancelled := (i, token) # z_cancelled ?z1\<rparr>"
  let ?m3 = "?m2\<lparr>jm_jobs := del i (jm_jobs ?m2), jm_done := jm_done ?m2 @ [token]\<rparr>"
  let ?z3 = "?z2\<lparr>z_mgr := ?m3, z_waiting := remove1 (i, token) (z_waiting ?z2), z_exited := (i, True, Some []) # z_exited ?z2\<rparr>"
  let ?m4 = "exit_publish now i True (Some []) ?m3"
  let ?z4 = "?z3\<lparr>z_mgr := ?m4, z_exited := remove1 (i, True, Some []) (z_exited ?z3)\<rparr>"
  let ?m5 = "job_stop_publish now i ?m4"
  let ?z5 = "?z4\<lparr>z_mgr := ?m5, z_cancelled := remove1 (i, token) (z_cancelled ?z4)\<rparr>"
  have "job_step z ?z1" using stop_begins [of i z job ?m1] job by (simp add: job_stop_claim_def)
  moreover have "job_step ?z1 ?z2" using stop_cancels [of i token ?z1] by simp
  moreover have "exit_claim i token (z_mgr ?z2) = (Some (job\<lparr>sj_stopping := True\<rparr>), ?m3)"
    using job by (simp add: exit_claim_def cancel_job_def)
  then have "job_step ?z2 ?z3"
    using process_exits [of i token ?z2 "Some (job\<lparr>sj_stopping := True\<rparr>)" ?m3 "Some []"] assms(2) by simp
  moreover have "job_step ?z3 ?z4" using exit_ends [of i True "Some []" ?z3 now] by simp
  moreover have "job_step ?z4 ?z5" using stop_ends [of i token ?z4 now] by simp
  ultimately have "job_step\<^sup>*\<^sup>* z ?z5"
    by (meson converse_rtranclp_into_rtranclp rtranclp.rtrancl_refl)
  moreover have "stt_status (state_of i ?m5) = ''stopping''" by (simp add: job_stop_publish_def)
  moreover have "jm_sleeping ?m5 = jm_sleeping ?m" by (simp add: exit_publish_done)
  ultimately show ?thesis
    using assms(3-5) by (intro exI [of _ ?z5]) (simp add: has_key_def)
qed

subsection \<open>A restart that meets a start\<close>

text \<open>
  A stream that was started by hand while its restart was waiting keeps its process, but the
  waiting goroutine then fails to start it, counts that as one more failure and overwrites the
  state of the running stream with ''restarting'' or ''flapping''. A stop in the meantime, on
  the other hand, is refused as the stream does not run, and does not prevent the restart.
\<close>

theorem restart_overwrites_running:
  assumes "stream_enabled i m" and "restart_policy_of i m = Some p" and "start_args i m = Inr args"
  shows "(\<forall>job. get (jm_jobs m) i = Some job \<longrightarrow>
      get (jm_jobs (restart_wakes w now sp (i, d) m)) i = Some job
      \<and> stt_status (state_of i (restart_wakes w now sp (i, d) m)) \<in> {''restarting'', ''flapping''}
      \<and> stt_pid (state_of i (restart_wakes w now sp (i, d) m)) = stt_pid (state_of i m))
    \<and> (\<forall>pid. get (jm_jobs m) i = None \<longrightarrow> stop_stream now others i m = (Inl StreamNotRunning, m)
      \<and> has_key (jm_jobs (restart_wakes w now (Spawned pid) (i, d) m)) i
      \<and> stt_status (state_of i (restart_wakes w now (Spawned pid) (i, d) m)) = ''running'')"
proof -
  have a: "start_args i (wake (i, d) m) = Inr args" "stream_enabled i (wake (i, d) m)"
    using assms(1,3) start_args_cong [of "wake (i, d) m" m i] by simp_all
  have "restart_policy_of i (log_stream now i l c x (wake (i, d) m)) = Some p" for l c x
    using assms(2) restart_policy_cong [of "log_stream now i l c x (wake (i, d) m)" m i] by simp
  note r = maybe_restart_effect [OF this, of now]
  show ?thesis
  proof (intro conjI allI impI)
    fix job assume j: "get (jm_jobs m) i = Some job"
    then have s: "restart_wakes w now sp (i, d) m = restart_failed w now i StreamRunning (wake (i, d) m)"
      by (simp add: restart_wakes_def Let_def a start_stream_def job_claim_def has_key_def)
    show "get (jm_jobs (restart_wakes w now sp (i, d) m)) i = Some job"
      "stt_status (state_of i (restart_wakes w now sp (i, d) m)) \<in> {''restarting'', ''flapping''}"
      "stt_pid (state_of i (restart_wakes w now sp (i, d) m)) = stt_pid (state_of i m)"
      unfolding s by (simp_all add: j) (simp_all add: restart_failed_def r)
  next
    fix pid assume n: "get (jm_jobs m) i = None"
    show "stop_stream now others i m = (Inl StreamNotRunning, m)" by (simp add: stop_stream_def job_stop_claim_def n)
    show "has_key (jm_jobs (restart_wakes w now (Spawned pid) (i, d) m)) i"
      "stt_status (state_of i (restart_wakes w now (Spawned pid) (i, d) m)) = ''running''"
      by (simp_all add: restart_wakes_def Let_def a start_stream_def job_claim_def has_key_def n stream_started_def)
  qed
qed

end
