(* ===== verification/StreamWatchdog.thy ===== *)
theory StreamWatchdog
  imports StreamRestarts
begin

text \<open>
  When the watchdog kills an ffmpeg, and what a line of its log can change.
\<close>

subsection \<open>Memory over a run of ticks\<close>

type_synonym tick = "gotime \<times> stream_state \<times> int"

definition decide :: "watchdog_policy \<Rightarrow> gotime \<Rightarrow> gotime \<Rightarrow> tick \<Rightarrow> watchdog_decision" where
  "decide policy started_at since = (\<lambda>(now, st, memory). watchdog_action policy st memory started_at since now)"

text \<open>What the monitor remembers after the ticks, oldest first.\<close>

definition since_after :: "watchdog_policy \<Rightarrow> gotime \<Rightarrow> tick list \<Rightarrow> gotime" where
  "since_after policy started_at ticks = foldl (\<lambda>since t. wd_exceeded_since (decide policy started_at since t)) zero_time ticks"

fun no_alarm :: "watchdog_policy \<Rightarrow> gotime \<Rightarrow> gotime \<Rightarrow> tick list \<Rightarrow> bool" where
  "no_alarm policy started_at since [] = True"
| "no_alarm policy started_at since (t # ts) \<longleftrightarrow> wd_reason (decide policy started_at since t) = []
     \<and> no_alarm policy started_at (wd_exceeded_since (decide policy started_at since t)) ts"

definition over_limit :: "watchdog_policy \<Rightarrow> tick \<Rightarrow> bool" where
  "over_limit policy = (\<lambda>(_, _, memory). 0 < wp_max_memory_bytes policy \<and> wp_max_memory_bytes policy < memory)"

definition current_run :: "watchdog_policy \<Rightarrow> tick list \<Rightarrow> tick list" where
  "current_run policy ticks = takeWhile (over_limit policy) (rev ticks)"

lemma no_alarm_append:
  "no_alarm policy started_at since (ts @ [t]) \<longleftrightarrow> no_alarm policy started_at since ts
     \<and> wd_reason (decide policy started_at (foldl (\<lambda>since t. wd_exceeded_since (decide policy started_at since t)) since ts) t) = []"
  by (induction ts arbitrary: since) auto

lemma decide_quiet:
  assumes "wp_enabled policy" "wd_reason (decide policy started_at since t) = []"
  shows "wd_exceeded_since (decide policy started_at since t)
    = (if over_limit policy t then if is_zero since then fst t else since else zero_time)"
  using assms by (cases t) (auto simp: decide_def watchdog_action_def over_limit_def split: if_splits)

lemma since_after_run:
  "wp_enabled policy \<Longrightarrow> no_alarm policy started_at zero_time ticks \<Longrightarrow> \<forall>t \<in> set ticks. \<not> is_zero (fst t)
    \<Longrightarrow> since_after policy started_at ticks
      = (if current_run policy ticks = [] then zero_time else fst (last (current_run policy ticks)))"
proof (induction ticks rule: rev_induct)
  case (snoc t ts)
  have q: "no_alarm policy started_at zero_time ts" "wd_reason (decide policy started_at (since_after policy started_at ts) t) = []"
    using snoc.prems(2) by (simp_all add: no_alarm_append since_after_def)
  have "last (current_run policy ts) \<in> set ts" if "current_run policy ts \<noteq> []"
    using that set_takeWhileD [of "last (current_run policy ts)" "over_limit policy" "rev ts"]
    by (simp add: current_run_def)
  then have z: "is_zero (since_after policy started_at ts) \<longleftrightarrow> current_run policy ts = []"
    using snoc.IH [OF snoc.prems(1) q(1)] snoc.prems(3) by (auto simp: is_zero_def)
  have "since_after policy started_at (ts @ [t]) = wd_exceeded_since (decide policy started_at (since_after policy started_at ts) t)"
    by (simp add: since_after_def)
  then show ?case
    using decide_quiet [OF snoc.prems(1) q(2)] z snoc.IH [OF snoc.prems(1) q(1)] snoc.prems(3)
    by (simp add: current_run_def)
qed (simp add: since_after_def current_run_def)


text \<open>
  A progress timeout of more than 9223372036 seconds passes the validation, but its product
  with a second overflows to a negative duration for the next 9223372037 values, and the watchdog
  then kills the ffmpeg at its first tick, however recent the progress.
\<close>

theorem huge_timeout_kills:
  assumes "wp_enabled p" and "9223372037 \<le> wp_progress_timeout_seconds p" and "wp_progress_timeout_seconds p \<le> 18446744073"
    and "0 \<le> wp_max_memory_bytes p" and "1 \<le> wp_memory_grace_seconds p"
    and "last_progress st started_at \<le> now"
  shows "normalize_watchdog_policy (Some p) = Inr p \<and> wd_reason (watchdog_action p st memory started_at since now) \<noteq> []"
proof
  show "normalize_watchdog_policy (Some p) = Inr p"
    using assms(1,2,4,5) by (intro watchdog_fixed) (simp add: watchdog_shape_def)
  have "(wp_progress_timeout_seconds p * 1000000000 + 2 ^ 63) mod 2 ^ 64 = wp_progress_timeout_seconds p * 1000000000 + 2 ^ 63 - 2 ^ 64"
    using assms(2,3) by (intro mod_pos_pos_trivial [of "wp_progress_timeout_seconds p * 1000000000 + 2 ^ 63 - 2 ^ 64" "2 ^ 64",
      unfolded minus_mod_self2]) simp_all
  then have "duration_seconds (wp_progress_timeout_seconds p) < 0"
    using assms(3) by (simp add: duration_seconds_def wrap64_def)
  moreover have "0 \<le> go_sub now (last_progress st started_at)"
    using assms(6) by (simp add: go_sub_def gotime_arith)
  ultimately show "wd_reason (watchdog_action p st memory started_at since now) \<noteq> []"
    using assms(1) by (simp add: watchdog_action_def)
qed

subsection \<open>What a line of the log changes\<close>

text \<open>
  A line of ffmpeg's log never changes whether the stream counts as running, and never its
  job: all it can do is add one entry to the log and, if ffmpeg tagged it as a warning or worse,
  its text is of a known kind and is not the noise of lost packets, set the last error. A line
  of statistics does nothing at all.
\<close>

theorem log_line_effect:
  "let (level, message) = parse_ffmpeg_level line; st = state_of i m; m' = stderr_line now i line m;
       serious = (level \<noteq> ''info'' \<and> \<not> is_packet_loss_noise (fold_case message)
         \<and> classify_error message \<notin> {[], error_unknown})
   in if is_ffmpeg_stats_line line then m' = m
      else state_of i m' = (if serious then st\<lparr>stt_error_code := classify_error message, stt_last_error := message\<rparr> else st)
        \<and> (\<forall>j. j \<noteq> i \<longrightarrow> state_of j m' = state_of j m) \<and> jm_jobs m' = jm_jobs m \<and> jm_cancelled m' = jm_cancelled m
        \<and> jm_store m' = jm_store (log_stream now i
            (if is_packet_loss_noise (fold_case message) then ''warn'' else if serious then ''error'' else level)
            (if is_packet_loss_noise (fold_case message) then error_packet_loss
             else if level = ''info'' then [] else classify_error message) message
            (if serious then set_stream now i (\<lambda>st. st\<lparr>stt_error_code := classify_error message, stt_last_error := message\<rparr>) m else m))"
proof -
  obtain level message where p: "parse_ffmpeg_level line = (level, message)" by fastforce
  have l: "level = ''info'' \<or> level = ''warn'' \<or> level = ''error''"
    using p by (auto simp: parse_ffmpeg_level_def split: option.splits prod.splits if_splits)
  show ?thesis
    using l by (auto simp: stderr_line_def p Let_def)
qed

end
