(* ===== verification/StreamStoreProps.thy ===== *)
theory StreamStoreProps
  imports StreamStoreLaws
begin

text \<open>
  The properties of the stream store: its invariant in every reachable state, the round trip
  of the state file, what a change of password does to tokens, and the bounds of the log.
\<close>

subsection \<open>The invariant\<close>

lemma stream_profile_stored:
  assumes "stream_store_ok s" "get (sg_streams s) i = Some c"
  shows "\<exists>p. get_profile s (cf_profile_name c) = Some p \<and> pf_name p = cf_profile_name c \<and> profile_shape p"
proof -
  have "has_key (sg_profiles s) (cf_profile_name c)" using assms by (auto simp: stream_invariants)
  then obtain p where "get (sg_profiles s) (cf_profile_name c) = Some p" by (auto simp: has_key_iff)
  then show ?thesis using assms(1) by (auto simp: stream_invariants get_profile_def)
qed

text \<open>
  C27: In every store opened from any state file and changed by any operations, whether their
  saves succeed or not, every stream is well formed and has its profile, the default profiles
  and the account \<open>admin\<close> exist, every account can be logged into, and the signing secret is set.
\<close>

theorem stream_store_valid:
  assumes "stream_reachable s"
  shows "(\<forall>i c. get (sg_streams s) i = Some c \<longrightarrow> cf_id c = i \<and> config_shape c
      \<and> (\<exists>p. get_profile s (cf_profile_name c) = Some p \<and> pf_name p = cf_profile_name c \<and> profile_shape p))
    \<and> get_profile s ''h264_veryfast_4m'' \<noteq> None \<and> get_profile s ''h264_ultrafast_template_4m'' \<noteq> None
    \<and> get_user s ''admin'' \<noteq> None
    \<and> (\<forall>n u. get_user s n = Some u \<longrightarrow> us_username u = n \<and> validate_username n = Inr ()
        \<and> us_password_hash u \<noteq> [] \<and> 1 \<le> us_token_version u)
    \<and> sg_auth_secret s \<noteq> []"
proof -
  have ok: "stream_store_ok s" by (rule stream_reachable_ok [OF assms])
  note stream_profile_stored [OF ok]
  moreover have "get_profile s ''h264_veryfast_4m'' \<noteq> None" "get_profile s ''h264_ultrafast_template_4m'' \<noteq> None"
    "get_user s ''admin'' \<noteq> None" "sg_auth_secret s \<noteq> []"
    using ok by (auto simp: stream_store_ok_def defaults_present_def has_key_def get_profile_def get_user_def)
  ultimately show ?thesis using ok by (auto simp: stream_invariants get_user_def)
qed

subsection \<open>Saving and loading\<close>

lemma load_profiles_fixed:
  "\<forall>p \<in> set ps. profile_shape p \<Longrightarrow>
    load_profiles s ps = Inr (s\<lparr>sg_profiles := foldl (\<lambda>m p. put (pf_name p) p m) (sg_profiles s) ps\<rparr>)"
  by (induction ps arbitrary: s) (simp_all add: normalize_profile_fixed)

lemma load_users_fixed:
  "\<forall>u \<in> set us. validate_username (us_username u) = Inr () \<and> us_password_hash u \<noteq> [] \<and> 1 \<le> us_token_version u \<Longrightarrow>
    load_users s us = Inr (s\<lparr>sg_users := foldl (\<lambda>m u. put (us_username u) u m) (sg_users s) us\<rparr>)"
  by (induction us arbitrary: s) (simp_all add: reload_user_def)

lemma load_streams_fixed:
  "\<forall>c \<in> set cs. config_shape c \<and> has_key (sg_profiles s) (cf_profile_name c) \<Longrightarrow>
    load_streams s cs = Inr (s\<lparr>sg_streams := foldl (\<lambda>m c. put (cf_id c) c m) (sg_streams s) cs,
      sg_states := foldl (\<lambda>m c. put (cf_id c) stopped_stream m) (sg_states s) cs\<rparr>)"
  by (induction cs arbitrary: s) (simp_all add: normalize_config_fixed)

lemma rebuild_same:
  assumes "\<And>k v. get m k = Some v \<Longrightarrow> f v = k"
  shows "get (foldl (\<lambda>m x. put (f x) x m) [] (sorted_vals m)) k = get m k"
  using rebuild_map [of m f "\<lambda>x. x" k] assms by (simp add: option.map_ident)

lemma ensure_default_present: "defaults_present s \<Longrightarrow> ensure_default_profiles s = s"
  by (simp add: ensure_default_profiles_def ensure_profile_def defaults_present_def default_profiles_shape)

text \<open>The store that is read back from the state file of \<open>s\<close>.\<close>

definition reopened :: "stream_store \<Rightarrow> stream_store" where
  "reopened s = (empty_stream_store (sg_path s) (Some (persisted_of s)))
     \<lparr>sg_profiles := foldl (\<lambda>m p. put (pf_name p) p m) [] (sorted_vals (sg_profiles s)),
      sg_users := foldl (\<lambda>m u. put (us_username u) u m) [] (sorted_vals (sg_users s)), sg_auth_secret := sg_auth_secret s,
      sg_streams := foldl (\<lambda>m c. put (cf_id c) c m) [] (sorted_vals (sg_streams s)),
      sg_states := foldl (\<lambda>m c. put (cf_id c) stopped_stream m) [] (sorted_vals (sg_streams s))\<rparr>"

lemma reopened_maps:
  assumes "stream_store_ok s"
  shows "get (sg_profiles (reopened s)) n = get (sg_profiles s) n" "get (sg_users (reopened s)) n = get (sg_users s) n"
    "get (sg_streams (reopened s)) n = get (sg_streams s) n"
    "has_key (sg_profiles (reopened s)) n = has_key (sg_profiles s) n" "has_key (sg_users (reopened s)) n = has_key (sg_users s) n"
proof -
  show m: "get (sg_profiles (reopened s)) n = get (sg_profiles s) n" "get (sg_users (reopened s)) n = get (sg_users s) n"
    "get (sg_streams (reopened s)) n = get (sg_streams s) n"
    using assms by (auto simp: reopened_def stream_invariants intro!: rebuild_same)
  show "has_key (sg_profiles (reopened s)) n = has_key (sg_profiles s) n" "has_key (sg_users (reopened s)) n = has_key (sg_users s) n"
    by (simp_all add: has_key_def m)
qed

lemma reopened_defaults:
  assumes "stream_store_ok s" "sg_profiles u = sg_profiles (reopened s)"
  shows "ensure_default_profiles u = u"
  using assms reopened_maps(4) [OF assms(1)] by (auto intro!: ensure_default_present simp: stream_store_ok_def defaults_present_def)

lemma load_reopened:
  assumes "stream_store_ok s" "sg_path s \<noteq> []"
  shows "load_state True (empty_stream_store (sg_path s) (Some (persisted_of s))) = Inr (reopened s)"
proof -
  let ?ps = "sorted_vals (sg_profiles s)" and ?us = "sorted_vals (sg_users s)" and ?cs = "sorted_vals (sg_streams s)"
  define f where "f = persisted_of s"
  have f: "ps_profiles f = ?ps" "ps_users f = ?us" "ps_streams f = ?cs" "ps_secret f = sg_auth_secret s"
    by (simp_all add: f_def persisted_of_def sorted_profiles_def sorted_users_def)
  define e where "e = empty_stream_store (sg_path s) (Some f)"
  let ?t = "reopened s"
  have t: "?t = e\<lparr>sg_profiles := sg_profiles ?t, sg_users := sg_users ?t, sg_auth_secret := sg_auth_secret s,
      sg_streams := sg_streams ?t, sg_states := sg_states ?t\<rparr>"
    by (simp add: reopened_def e_def f_def)
  have "\<forall>p \<in> set ?ps. profile_shape p" using assms(1) by (auto simp: stream_invariants set_sorted_vals)
  then have l1: "load_profiles e ?ps = Inr (e\<lparr>sg_profiles := sg_profiles ?t\<rparr>)"
    using load_profiles_fixed [of ?ps e] by (simp add: reopened_def) (simp add: e_def empty_stream_store_def)
  have "\<forall>u \<in> set ?us. validate_username (us_username u) = Inr () \<and> us_password_hash u \<noteq> [] \<and> 1 \<le> us_token_version u"
    using assms(1) by (auto simp: stream_invariants set_sorted_vals)
  then have l2: "load_users (e\<lparr>sg_profiles := sg_profiles ?t\<rparr>) ?us = Inr (e\<lparr>sg_profiles := sg_profiles ?t, sg_users := sg_users ?t\<rparr>)"
    using load_users_fixed [of ?us "e\<lparr>sg_profiles := sg_profiles ?t\<rparr>"] by (simp add: reopened_def) (simp add: e_def empty_stream_store_def)
  let ?s = "e\<lparr>sg_profiles := sg_profiles ?t, sg_users := sg_users ?t, sg_auth_secret := sg_auth_secret s\<rparr>"
  have "\<forall>c \<in> set ?cs. config_shape c \<and> has_key (sg_profiles ?s) (cf_profile_name c)"
    using assms(1) by (auto simp: stream_invariants set_sorted_vals reopened_maps [OF assms(1)])
  then have "load_streams ?s ?cs = Inr ?t"
    using load_streams_fixed [of ?cs ?s] by (subst t) (simp add: reopened_def e_def empty_stream_store_def)
  then show ?thesis
    using assms l1 l2 f reopened_defaults [OF assms(1), of ?s] unfolding f_def [symmetric] e_def [symmetric]
    by (simp add: load_state_def) (simp add: e_def empty_stream_store_def)
qed


subsection \<open>Passwords and tokens\<close>

lemma change_password_Inr:
  assumes "fst (change_password random now saved name current new req s) = Inr pu"
  obtains u h where "get (sg_users s) name = Some u" "hash_password random new = Inr h"
    "validate_password new = Inr ()" "req \<Longrightarrow> verify_password (us_password_hash u) current"
    "sg_users (snd (change_password random now saved name current new req s)) = put name
       (u\<lparr>us_password_hash := h, us_must_change_password := False, us_token_version := us_token_version u + 1,
          us_updated_at := now\<rparr>) (sg_users s)"
  using assms that by (auto simp: change_password_def Let_def split: sum.splits option.splits if_splits)

lemma hash_verifies: "hash_password random password = Inr h \<Longrightarrow> verify_password h password"
  by (auto simp: hash_password_def verify_hash_text split: option.splits)


text \<open>
  Deleting an account makes its tokens useless, but an account created again under the
  same name starts with the same token version: a token of the deleted account that was
  issued before its first change of password is accepted again until it expires.
\<close>

theorem deleted_tokens_revive:
  assumes "verify_token_claims s c = Some u" and "us_token_version u = 1"
    and "fst (delete_user now1 saved1 (cl_subject c) s) = Inr True"
    and "fst (create_user random now2 saved2 (cl_subject c) password (snd (delete_user now1 saved1 (cl_subject c) s))) = Inr pu"
  shows "verify_token_claims (snd (delete_user now1 saved1 (cl_subject c) s)) c = None
    \<and> verify_token_claims (snd (create_user random now2 saved2 (cl_subject c) password
        (snd (delete_user now1 saved1 (cl_subject c) s)))) c \<noteq> None"
proof -
  let ?d = "snd (delete_user now1 saved1 (cl_subject c) s)"
  have v: "cl_token_version c = 1"
    using assms(1,2) by (auto simp: verify_token_claims_def split: option.splits if_splits)
  have d: "sg_users ?d = del (cl_subject c) (sg_users s)"
    using assms(3) by (auto simp: delete_user_def split: if_splits)
  obtain u' where u': "new_user random (cl_subject c) password False now2 = Inr u'"
    "sg_users (snd (create_user random now2 saved2 (cl_subject c) password ?d)) = put (us_username u') u' (sg_users ?d)"
    using assms(4) by (auto simp: create_user_def split: sum.splits if_splits)
  show ?thesis
    using new_user_ok [OF u'(1)] u'(2) by (simp add: verify_token_claims_def d v)
qed

subsection \<open>The log is bounded per stream\<close>

definition fresh_entry :: "gotime \<Rightarrow> (string, stream_config) gomap \<Rightarrow> log_entry \<Rightarrow> bool" where
  "fresh_entry now streams e \<longleftrightarrow> \<not> go_sub now (lg_time e) > duration_seconds (retention_of streams (lg_stream_id e))"

definition last_n :: "nat \<Rightarrow> 'a list \<Rightarrow> 'a list" where
  "last_n n xs = drop (length xs - n) xs"

lemma last_n_rev: "last_n n xs = rev (take n (rev xs))"
  by (simp add: last_n_def take_rev)

lemma prune_loop_unnamed: "filter (\<lambda>e. lg_stream_id e = []) (prune_loop now streams counts es) = filter (\<lambda>e. lg_stream_id e = []) es"
  by (induction now streams counts es rule: prune_loop.induct) (auto simp: Let_def)

lemma count_of_put [simp]: "count_of (put i n counts) j = (if j = i then n else count_of counts j)"
  by (simp add: count_of_def)

lemma prune_loop_named:
  "j \<noteq> [] \<Longrightarrow> filter (\<lambda>e. lg_stream_id e = j) (prune_loop now streams counts es)
    = take (nat (500 - count_of counts j)) (filter (\<lambda>e. lg_stream_id e = j \<and> fresh_entry now streams e) es)"
proof (induction now streams counts es rule: prune_loop.induct)
  case (2 now streams counts e es)
  have t: "take (nat (500 - n)) (x # xs) = x # take (nat (500 - (n + 1))) xs" if "n < 500" for n :: int and x :: log_entry and xs
  proof -
    have "nat (500 - n) = Suc (nat (500 - (n + 1)))" using that by simp
    then show ?thesis by simp
  qed
  show ?case
    using 2 t [of "count_of counts j"]
    by (auto simp: Let_def fresh_entry_def max_logs_per_stream_def)
qed simp

lemma prune_logs_exact:
  "filter (\<lambda>e. lg_stream_id e = j) (sg_logs (prune_logs now s))
      = (if j = [] then filter (\<lambda>e. lg_stream_id e = []) (sg_logs s)
         else last_n 500 (filter (\<lambda>e. lg_stream_id e = j \<and> fresh_entry now (sg_streams s) e) (sg_logs s)))"
  using prune_loop_unnamed prune_loop_named [of j now "sg_streams s" "[]"]
  by (simp add: prune_logs_def last_n_rev rev_filter flip: rev_filter) (simp add: count_of_def rev_filter)

text \<open>
  C30: After an entry is appended, the log holds of every stream exactly its newest 500 entries
  that are within the stream's own retention; how much other streams log makes no difference,
  and entries without a stream are all kept.
\<close>

theorem log_bounded_per_stream:
  "let es = sg_logs s @ [\<lparr>lg_stream_id = i, lg_time = now, lg_level = level, lg_code = code, lg_message = message\<rparr>]
   in filter (\<lambda>e. lg_stream_id e = j) (sg_logs (append_log_code now i level code message s))
      = (if j = [] then filter (\<lambda>e. lg_stream_id e = []) es
         else last_n 500 (filter (\<lambda>e. lg_stream_id e = j \<and> fresh_entry now (sg_streams s) e) es))"
  unfolding Let_def by (simp only: append_log_code_def Let_def stream_emit_keeps prune_logs_exact) (simp del: filter_append)

lemma logs_loop_filter:
  "length out \<le> limit \<Longrightarrow> logs_loop i limit es out = out @ take (limit - length out) (filter (\<lambda>e. i = [] \<or> lg_stream_id e = i) es)"
proof (induction i limit es out rule: logs_loop.induct)
  case (2 i limit e es out)
  show ?case
  proof (cases "length out < limit")
    case True
    then have "take (limit - length out) (e # xs) = e # take (limit - Suc (length out)) xs" for xs
      by (simp add: take_Cons' Suc_diff_Suc)
    then show ?thesis using 2 True by auto
  qed simp
qed simp

text \<open>
  \<open>Logs\<close> returns the newest entries of the stream, or of all streams, oldest first, at most
  as many as the limit asks for, and 200 when the limit is not between 1 and 500.
\<close>

theorem stream_logs_newest:
  "stream_logs i limit s = last_n (if 1 \<le> limit \<and> limit \<le> 500 then nat limit else 200)
     (if i = [] then sg_logs s else filter (\<lambda>e. lg_stream_id e = i) (sg_logs s))"
  by (auto simp: stream_logs_def logs_loop_filter last_n_rev rev_filter)

end
