(* ===== verification/StreamStoreDemo.thy ===== *)
theory StreamStoreDemo
  imports StreamStoreProps
begin

text \<open>
  The properties of the stream store at concrete stores: one opened without a state file and
  given a stream, and one with an account.
\<close>

lemmas demo_checks = validate_username_def validate_password_def username_char_def is_alnum_def

definition demo_policy :: restart_policy where
  "demo_policy = \<lparr>rp_enabled = True, rp_max_attempts = 2, rp_window_seconds = 60, rp_backoff_seconds = 5\<rparr>"

definition demo_config :: stream_config where
  "demo_config = \<lparr>cf_id = ''news'', cf_name = ''News'', cf_input_url = ''udp://239.0.0.1:5000'',
     cf_output_url = ''udp://239.0.0.2:5000'', cf_source_type = ''multicast'', cf_profile_name = ''h264_veryfast_4m'',
     cf_video_map = [], cf_audio_map = [], cf_audio_maps = [], cf_disable_audio = False,
     cf_logo = \<lparr>sl_enabled = False, sl_path = [], sl_x = 0, sl_y = 0\<rparr>, cf_options = [(''preset'', ''fast'')],
     cf_log_retention_seconds = 60, cf_log_level = [], cf_keep_stats = False, cf_enabled = True,
     cf_restart = Some demo_policy, cf_watchdog = Some default_watchdog_policy\<rparr>"

lemma demo_config_shape: "config_shape demo_config"
  by (simp add: config_shape_def demo_config_def demo_policy_def restart_shape_def watchdog_shape_def
      default_watchdog_policy_def variable_name_def name_char_def is_alnum_def is_digit_def)

lemma store_opens:
  assumes "path \<noteq> []"
  shows "\<exists>s. new_stream_store (Some (replicate 32 0)) (Some [1, 2]) now True True path None = Inr s \<and> sg_path s = path"
proof -
  have "\<exists>u. new_user (Some [1, 2]) ''admin'' ''123456'' True now = Inr u"
    by (simp add: new_user_def demo_checks hash_password_def)
  then obtain u where u: "new_user (Some [1, 2]) ''admin'' ''123456'' True now = Inr u" by blast
  have "load_state True (empty_stream_store path None) = Inr (empty_stream_store path None)"
    using assms by (simp add: load_state_def empty_stream_store_def)
  then show ?thesis
    using u assms
    by (simp add: new_stream_store_def ensure_auth_def ensure_secret_def ensure_admin_def generate_secret_def
        empty_stream_store_def stream_save_def has_key_def)
qed

lemma demo_store_reachable:
  obtains s where "stream_reachable s" "sg_path s = ''state.json''" "get (sg_streams s) ''news'' = Some demo_config"
proof -
  obtain s0 where s0: "new_stream_store (Some (replicate 32 0)) (Some [1, 2]) (Nanos 5) True True ''state.json'' None = Inr s0"
    "sg_path s0 = ''state.json''" using store_opens [of "''state.json''" "Nanos 5"] by blast
  have r: "stream_reachable s0" using stream_reachable.opened [OF s0(1)] by (simp add: random_ok_def)
  have "has_key (sg_profiles s0) (cf_profile_name demo_config)"
    using stream_reachable_ok [OF r] by (simp add: stream_store_ok_def defaults_present_def demo_config_def)
  then have "get (sg_streams (snd (upsert_stream (Nanos 6) True demo_config s0))) ''news'' = Some demo_config"
    by (simp add: upsert_stream_def normalize_config_fixed [OF demo_config_shape] Let_def) (simp add: demo_config_def)
  moreover have "sg_path (snd (upsert_stream (Nanos 6) True demo_config s0)) = ''state.json''"
    using s0(2) by (simp add: upsert_stream_def normalize_config_fixed [OF demo_config_shape] Let_def)
  ultimately show ?thesis using that stream_reachable.step [OF r stream_step.upsert] by blast
qed

theorem stream_store_valid_witness:
  "\<exists>s p. stream_reachable s \<and> get (sg_streams s) ''news'' = Some demo_config
     \<and> get_profile s ''h264_veryfast_4m'' = Some p \<and> profile_shape p"
proof -
  obtain s where s: "stream_reachable s" "get (sg_streams s) ''news'' = Some demo_config" by (rule demo_store_reachable)
  have "cf_profile_name demo_config = ''h264_veryfast_4m''" by (simp add: demo_config_def)
  then show ?thesis using stream_store_valid [OF s(1)] s by fastforce
qed


definition demo_user :: user where
  "demo_user = \<lparr>us_username = ''bob'', us_password_hash = hash_text [7] ''secret'', us_must_change_password = True,
     us_created_at = Nanos 1, us_updated_at = Nanos 1, us_token_version = 1\<rparr>"

definition demo_users :: stream_store where
  "demo_users = (empty_stream_store [] None)\<lparr>sg_users := [(''bob'', demo_user)]\<rparr>"

definition demo_claims :: claims where
  "demo_claims = \<lparr>cl_subject = ''bob'', cl_type = ''access'', cl_token_version = 1, cl_expires_at = Nanos 99\<rparr>"


theorem deleted_tokens_revive_witness:
  "let d = snd (delete_user (Nanos 3) True ''bob'' demo_users);
       t = snd (create_user (Some [9]) (Nanos 4) True ''bob'' ''another'' d)
   in verify_token_claims d demo_claims = None \<and> verify_token_claims t demo_claims \<noteq> None"
proof -
  have v: "verify_token_claims demo_users demo_claims = Some demo_user" "us_token_version demo_user = 1"
    by (simp_all add: verify_token_claims_def demo_users_def demo_claims_def demo_user_def get_def)
  have d: "fst (delete_user (Nanos 3) True (cl_subject demo_claims) demo_users) = Inr True"
    by (simp add: delete_user_def demo_users_def demo_claims_def has_key_def get_def save_announce_def stream_save_def
        empty_stream_store_def)
  have "fst (create_user (Some [9]) (Nanos 4) True (cl_subject demo_claims) ''another''
      (snd (delete_user (Nanos 3) True (cl_subject demo_claims) demo_users))) \<noteq> Inl e" for e
    by (simp add: create_user_def delete_user_def demo_users_def demo_claims_def has_key_def get_def save_announce_def
        stream_save_def empty_stream_store_def new_user_def demo_checks hash_password_def stream_emit_def del_def)
  then obtain pu where "fst (create_user (Some [9]) (Nanos 4) True (cl_subject demo_claims) ''another''
      (snd (delete_user (Nanos 3) True (cl_subject demo_claims) demo_users))) = Inr pu"
    by (cases "fst (create_user (Some [9]) (Nanos 4) True (cl_subject demo_claims) ''another''
      (snd (delete_user (Nanos 3) True (cl_subject demo_claims) demo_users)))") auto
  from deleted_tokens_revive [OF v d this] show ?thesis by (simp add: demo_claims_def Let_def)
qed

end
