(* ===== verification/StreamDemo.thy ===== *)
theory StreamDemo
  imports StreamWatchdog StreamStoreDemo
begin

text \<open>
  The properties of the stream manager applied to a manager with one running stream, reached
  from a store that was opened without a state file, and to concrete ticks of a watchdog.
\<close>

subsection \<open>A running stream\<close>

lemma running_stream:
  obtains z job where "jobs_reachable z" "z_waiting z = [(''news'', 0)]" "z_starting z = []" "z_stopping z = []"
    "z_cancelled z = []" "z_exited z = []" "get (jm_jobs (z_mgr z)) ''news'' = Some job" "\<not> sj_stopping job"
    "restart_policy_of ''news'' (z_mgr z) = Some demo_policy" "jm_sleeping (z_mgr z) = []" "jm_restarts (z_mgr z) = []"
proof -
  obtain s where s: "stream_reachable s" "sg_path s = ''state.json''" "get (sg_streams s) ''news'' = Some demo_config"
    by (rule demo_store_reachable)
  let ?z0 = "initial_jobs ''ffmpeg'' sample_system s"
  let ?job = "\<lparr>sj_token = 0, sj_pid = 7, sj_stopping = False\<rparr>"
  let ?m = "(z_mgr ?z0)\<lparr>jm_jobs := [(''news'', ?job)], jm_next := 1\<rparr>"
  let ?z1 = "start_begun ''news'' False ?job ?m ?z0"
  let ?z2 = "?z1\<lparr>z_mgr := set_stream (Nanos 5) ''news'' (stream_started (Nanos 5) False 7) (z_mgr ?z1),
    z_starting := remove1 (''news'', 0, False, 7) (z_starting ?z1), z_waiting := (''news'', 0) # z_waiting ?z1\<rparr>"
  have "job_claim (Spawned 7) ''news'' False (z_mgr ?z0) = (Inr ?job, ?m)"
    by (simp add: job_claim_def initial_jobs_def new_job_manager_def has_key_def put_def del_def Let_def)
  then have "job_step ?z0 ?z1" by (rule start_begins)
  moreover have "job_step ?z1 ?z2"
    using start_ends [of "''news''" 0 False 7 ?z1] by (simp add: start_begun_def)
  ultimately have r: "jobs_reachable ?z2"
    using jobs_reachable.initial [OF s(1)] jobs_reachable.next_step by blast
  have "restart_policy_of ''news'' (z_mgr ?z2) = restart_policy_of ''news'' (z_mgr ?z0)"
    by (rule restart_policy_cong) (simp add: start_begun_def)
  also have "\<dots> = Some demo_policy"
    using s(3) by (simp add: restart_policy_of_def get_stream_def initial_jobs_def new_job_manager_def demo_config_def demo_policy_def)
  finally show ?thesis
    by (intro that [OF r, of ?job]) (simp_all add: start_begun_def initial_jobs_def new_job_manager_def get_def)
qed

theorem one_ffmpeg_per_stream_witness:
  "\<exists>z. jobs_reachable z \<and> stream_processes z = [(''news'', 0)] \<and> has_key (jm_jobs (z_mgr z)) ''news''
     \<and> distinct (jm_done (z_mgr z))"
proof -
  obtain z job where z: "jobs_reachable z" "z_waiting z = [(''news'', 0)]" "z_starting z = []" by (rule running_stream)
  show ?thesis using one_ffmpeg_per_stream [OF z(1)] z by (intro exI [of _ z]) (simp add: stream_processes_def)
qed


theorem stream_exit_handled_witness:
  "\<exists>z m'. jobs_reachable z \<and> m' = wait_stream (Nanos 9) ''news'' 0 (Some ''exit status 1'') (z_mgr z)
     \<and> \<not> has_key (jm_jobs m') ''news'' \<and> stt_status (state_of ''news'' m') = ''restarting''
     \<and> jm_sleeping m' = [(''news'', 5000000000)]"
proof -
  obtain z job where z: "jobs_reachable z" "z_waiting z = [(''news'', 0)]" "get (jm_jobs (z_mgr z)) ''news'' = Some job"
    "\<not> sj_stopping job" "restart_policy_of ''news'' (z_mgr z) = Some demo_policy" "jm_sleeping (z_mgr z) = []"
    "jm_restarts (z_mgr z) = []" by (rule running_stream)
  have "rt_attempts (next_tracker (duration_seconds (rp_window_seconds demo_policy)) (Nanos 9) (tracker_of (jm_restarts (z_mgr z)) ''news''))
      \<le> rp_max_attempts demo_policy"
    by (simp add: z(7) next_tracker_def window_over_def tracker_of_def zero_tracker_def is_zero_def get_def demo_policy_def)
  moreover have "duration_seconds (rp_backoff_seconds demo_policy) = 5000000000"
    by (simp add: demo_policy_def duration_seconds_def wrap64_def)
  ultimately show ?thesis
    using stream_exit_handled [OF z(1), of "''news''" 0 job "Nanos 9" "Some ''exit status 1''"] z
    by (intro exI [of _ z] exI [of _ "wait_stream (Nanos 9) ''news'' 0 (Some ''exit status 1'') (z_mgr z)"]) (simp add: Let_def)
qed

theorem stream_stop_race_witness:
  "\<exists>z y. jobs_reachable z \<and> job_step\<^sup>*\<^sup>* z y \<and> jm_jobs (z_mgr z) \<noteq> [] \<and> \<not> has_key (jm_jobs (z_mgr y)) ''news''
     \<and> stream_processes y = [] \<and> stt_status (state_of ''news'' (z_mgr y)) = ''stopping''"
proof -
  obtain z job where z: "jobs_reachable z" "z_waiting z = [(''news'', 0)]" "z_starting z = []" "z_stopping z = []"
    "z_cancelled z = []" "z_exited z = []" "get (jm_jobs (z_mgr z)) ''news'' = Some job" by (rule running_stream)
  obtain y where "job_step\<^sup>*\<^sup>* z y" "\<not> has_key (jm_jobs (z_mgr y)) ''news''" "z_starting y = z_starting z"
    "z_waiting y = remove1 (''news'', 0) (z_waiting z)" "stt_status (state_of ''news'' (z_mgr y)) = ''stopping''"
    using stream_stop_race [OF z(1), of "''news''" 0] z by auto
  then show ?thesis using z by (intro exI [of _ z] exI [of _ y]) (auto simp: stream_processes_def)
qed

subsection \<open>A restart that meets a start\<close>

definition demo_manager :: job_manager where
  "demo_manager = new_job_manager ''ffmpeg'' sample_system ((empty_stream_store [] None)
     \<lparr>sg_streams := [(''news'', demo_config)], sg_profiles := [(''h264_veryfast_4m'', h264_veryfast_4m)]\<rparr>)"

lemma demo_valid: "validate_input (ffmpeg_stream demo_config) = Inr ()" "validate_url (fs_output_url (ffmpeg_stream demo_config)) = Inr ()"
  by code_simp+

lemma demo_args: "\<exists>args. start_args ''news'' demo_manager = Inr args"
proof -
  have c: "get_stream (jm_store demo_manager) ''news'' = Some \<lparr>sv_config = demo_config, sv_state = stopped_stream\<rparr>"
    by (simp add: demo_manager_def new_job_manager_def get_stream_def get_def stream_state_locked_def empty_stream_store_def)
  have p: "get_profile (jm_store demo_manager) (cf_profile_name demo_config) = Some h264_veryfast_4m"
    by (simp add: demo_manager_def new_job_manager_def get_profile_def get_def demo_config_def)
  have "\<exists>args. standard_args (ffmpeg_stream demo_config) h264_veryfast_4m sys = Inr args" for sys
    using demo_valid by (intro standard_ok) (simp_all add: h264_veryfast_4m_def zero_profile_def ffmpeg_stream_def demo_config_def)
  then obtain args where "standard_args (ffmpeg_stream demo_config) h264_veryfast_4m
      (with_log_level (jm_sys demo_manager) (cf_log_level demo_config)) = Inr args" by blast
  then have "build_args (ffmpeg_stream demo_config) h264_veryfast_4m
      (with_log_level (jm_sys demo_manager) (cf_log_level demo_config)) = Inr args"
    using demo_valid by (simp add: build_args_def) (simp add: h264_veryfast_4m_def zero_profile_def)
  then show ?thesis using c p by (simp add: start_args_def)
qed

theorem restart_overwrites_running_witness:
  "let job = \<lparr>sj_token = 0, sj_pid = 7, sj_stopping = False\<rparr>;
       m = demo_manager\<lparr>jm_jobs := [(''news'', job)]\<rparr>;
       m' = restart_wakes \<lparr>et_quote = (\<lambda>x. x), et_url = []\<rparr> (Nanos 9) (Spawned 8) (''news'', 5) m
   in get (jm_jobs m') ''news'' = Some job \<and> stt_status (state_of ''news'' m') \<in> {''restarting'', ''flapping''}"
proof -
  let ?job = "\<lparr>sj_token = 0, sj_pid = 7, sj_stopping = False\<rparr>"
  let ?m = "demo_manager\<lparr>jm_jobs := [(''news'', ?job)]\<rparr>"
  obtain args where "start_args ''news'' ?m = Inr args"
    using demo_args start_args_cong(1) [of ?m demo_manager "''news''"] by auto
  moreover have "stream_enabled ''news'' ?m" "restart_policy_of ''news'' ?m = Some demo_policy"
    by (simp_all add: stream_enabled_def restart_policy_of_def get_stream_def demo_manager_def new_job_manager_def get_def
        demo_config_def demo_policy_def)
  ultimately show ?thesis
    using restart_overwrites_running [of "''news''" ?m demo_policy args
        "\<lparr>et_quote = (\<lambda>x. x), et_url = []\<rparr>" "Nanos 9" "Spawned 8" 5] by (simp add: Let_def get_def)
qed

subsection \<open>The watchdog\<close>

definition demo_watchdog :: watchdog_policy where
  "demo_watchdog = \<lparr>wp_enabled = True, wp_progress_timeout_seconds = 120, wp_max_memory_bytes = 100, wp_memory_grace_seconds = 30\<rparr>"


theorem huge_timeout_kills_witness:
  "wd_reason (watchdog_action \<lparr>wp_enabled = True, wp_progress_timeout_seconds = 9999999999, wp_max_memory_bytes = 0,
     wp_memory_grace_seconds = 30\<rparr> stopped_stream 0 (Nanos 5) zero_time (Nanos 5)) \<noteq> []"
  using huge_timeout_kills [of "\<lparr>wp_enabled = True, wp_progress_timeout_seconds = 9999999999, wp_max_memory_bytes = 0,
     wp_memory_grace_seconds = 30\<rparr>" stopped_stream "Nanos 5" "Nanos 5" 0 zero_time]
  by (simp add: last_progress_def stopped_stream_def)

end
