(* ===== verification/Http.thy ===== *)
theory Http
  imports GoUrl
begin

text \<open>
  What the server uses of \<open>net/http\<close>: requests, and the choice of a handler by \<open>ServeMux\<close>. A
  request carries its path twice, decoded (\<open>URL.Path\<close>, what the server's own code looks at) and
  as it was sent (\<open>URL.EscapedPath\<close>, what the multiplexer cleans, splits at slashes, decodes
  segment by segment and matches). The last part relates the two.
\<close>

record request =
  rq_method :: string
  rq_path :: string
  rq_escaped :: string
  rq_query :: string
  rq_authorization :: string
  rq_body :: string

subsection \<open>Clean paths\<close>

text \<open>The segments that \<open>path.Clean\<close> leaves of a rooted path; \<open>stack\<close> has the last one first.\<close>

fun clean_segments :: "string list \<Rightarrow> string list \<Rightarrow> string list" where
  "clean_segments stack [] = rev stack"
| "clean_segments stack (s # ss) =
     (if s = [] \<or> s = ''.'' then clean_segments stack ss
      else if s = ''..'' then clean_segments (tl stack) ss
      else clean_segments (s # stack) ss)"

definition clean_path :: "string \<Rightarrow> string" where
  "clean_path p = (let q = (if p = [] \<or> hd p \<noteq> CHR ''/'' then CHR ''/'' # p else p);
       np = CHR ''/'' # join_with ''/'' (clean_segments [] (split_on (CHR ''/'') (tl q)))
     in if last q = CHR ''/'' \<and> np \<noteq> ''/'' then np @ ''/'' else np)"

subsection \<open>Patterns\<close>

definition path_unescape :: "string \<Rightarrow> string" where
  "path_unescape s = (case unescape EncPath s of None \<Rightarrow> s | Some u \<Rightarrow> u)"

definition path_segments :: "string \<Rightarrow> string list" where
  "path_segments escaped = map path_unescape (split_on (CHR ''/'') (tl escaped))"

definition pattern_segments :: "string \<Rightarrow> string list" where
  "pattern_segments pat = split_on (CHR ''/'') (tl pat)"

text \<open>The values of the wildcards, when the segments match.\<close>

fun match_segments :: "string list \<Rightarrow> string list \<Rightarrow> string list option" where
  "match_segments [] [] = Some []"
| "match_segments (p # ps) (s # ss) =
     (if has_prefix p ''{'' then (if s = [] then None else map_option ((#) s) (match_segments ps ss))
      else if p = s then match_segments ps ss
      else None)"
| "match_segments _ _ = None"

definition method_serves :: "string \<Rightarrow> string \<Rightarrow> bool" where
  "method_serves pattern_method method \<longleftrightarrow> method = pattern_method \<or> (pattern_method = ''GET'' \<and> method = ''HEAD'')"

definition pattern_match :: "string \<Rightarrow> string \<Rightarrow> string \<times> string \<Rightarrow> string list option" where
  "pattern_match method escaped p = (if method_serves (fst p) method
     then match_segments (pattern_segments (snd p)) (path_segments escaped) else None)"

text \<open>The first pattern that matches; the patterns of the server do not overlap.\<close>

fun dispatch :: "(string \<times> string \<times> 'e) list \<Rightarrow> 'e \<Rightarrow> string \<Rightarrow> string \<Rightarrow> 'e \<times> string list" where
  "dispatch [] fallback method escaped = (fallback, [])"
| "dispatch ((m, p, e) # routes) fallback method escaped = (case pattern_match method escaped (m, p) of
     Some vals \<Rightarrow> (e, vals)
   | None \<Rightarrow> dispatch routes fallback method escaped)"

subsection \<open>The two views of a path\<close>

text \<open>\<open>EscapedPath\<close> returns an escaped form of \<open>Path\<close>.\<close>

definition paths_agree :: "request \<Rightarrow> bool" where
  "paths_agree rq \<longleftrightarrow> unescape EncPath (rq_escaped rq) = Some (rq_path rq) \<and> has_prefix (rq_escaped rq) ''/''"

lemma unescape_split:
  "unescape EncPath (a @ CHR ''/'' # b) = Some u
    \<Longrightarrow> \<exists>x y. unescape EncPath a = Some x \<and> unescape EncPath b = Some y \<and> u = x @ CHR ''/'' # y"
proof (induction EncPath a arbitrary: u rule: unescape.induct)
  case 1
  then show ?case by auto
next
  case (2 c cs)
  show ?case
  proof (cases "c = CHR ''%''")
    case True
    have "\<not> (\<exists>q. hex_value (CHR ''/'') = Some q)" by (simp add: hex_value_def is_digit_def)
    then obtain p q rest h l where cs: "cs = p # q # rest" "hex_value p = Some h" "hex_value q = Some l"
      using "2.prems" True by (cases cs; cases "tl cs") (auto split: list.splits option.splits)
    then obtain v where v: "unescape EncPath (rest @ CHR ''/'' # b) = Some v" "u = char_of (16 * h + l) # v"
      using "2.prems" True by auto
    show ?thesis using "2.hyps"(1) [OF True cs(1) refl refl cs(2,3) _ _ v(1)] True cs v(2) by auto
  next
    case False
    then obtain v where v: "unescape EncPath (cs @ CHR ''/'' # b) = Some v" "u = c # v" using "2.prems" by auto
    show ?thesis using "2.hyps"(2) [OF False _ v(1)] False v(2) by auto
  qed
qed

lemma unescape_segments:
  "unescape EncPath p = Some u \<Longrightarrow> u = join_with ''/'' (map path_unescape (split_on (CHR ''/'') p))"
proof (induction p arbitrary: u rule: length_induct)
  case (1 p)
  show ?case
  proof (cases "CHR ''/'' \<in> set p")
    case True
    then obtain a b where p: "p = a @ CHR ''/'' # b" "CHR ''/'' \<notin> set a" by (meson split_list_first)
    obtain x y where xy: "unescape EncPath a = Some x" "unescape EncPath b = Some y" "u = x @ CHR ''/'' # y"
      using unescape_split "1.prems" unfolding p(1) by blast
    have "y = join_with ''/'' (map path_unescape (split_on (CHR ''/'') b))" using 1 xy(2) by (simp add: p(1))
    moreover obtain s ss where "split_on (CHR ''/'') b = s # ss" using split_on_not_Nil by (metis list.exhaust)
    moreover have "path_unescape a = x" using xy(1) by (simp add: path_unescape_def)
    ultimately show ?thesis using xy(3) by (simp add: p split_on_append)
  next
    case False
    then show ?thesis using "1.prems" by (simp add: split_on_absent path_unescape_def)
  qed
qed

text \<open>The decoded path is the decoded segments joined by slashes.\<close>

lemma path_of_segments:
  assumes "paths_agree rq"
  shows "rq_path rq = CHR ''/'' # join_with ''/'' (path_segments (rq_escaped rq))"
proof -
  obtain e where e: "rq_escaped rq = CHR ''/'' # e" using assms by (auto simp: paths_agree_def has_prefix_iff)
  then obtain u where "unescape EncPath e = Some u" "rq_path rq = CHR ''/'' # u" using assms by (auto simp: paths_agree_def)
  then show ?thesis using unescape_segments by (simp add: path_segments_def e)
qed

lemma dispatch_cases:
  "dispatch routes fallback method escaped = (e, vals) \<Longrightarrow>
    (e = fallback \<and> vals = []) \<or> (\<exists>m p. (m, p, e) \<in> set routes \<and> pattern_match method escaped (m, p) = Some vals)"
proof (induction routes)
  case (Cons r routes)
  obtain m p d where r: "r = (m, p, d)" by (cases r) auto
  show ?case
  proof (cases "pattern_match method escaped (m, p)")
    case None
    then show ?thesis using Cons by (fastforce simp: r)
  next
    case (Some v)
    then show ?thesis using Cons.prems by (auto simp: r)
  qed
qed simp

lemma match_literal: "match_segments (p # ps) ss = Some vals \<Longrightarrow> \<not> has_prefix p ''{'' \<Longrightarrow>
    \<exists>rest. ss = p # rest \<and> match_segments ps rest = Some vals"
  by (cases ss) (auto split: if_splits)

lemma match_literals: "match_segments ps ss = Some vals \<Longrightarrow> \<forall>p \<in> set ps. \<not> has_prefix p ''{'' \<Longrightarrow> ss = ps"
  by (induction ps ss arbitrary: vals rule: match_segments.induct) (auto split: if_splits)

end
