(* ===== verification/AppConfig.thy ===== *)
theory AppConfig
  imports GoNetLaws FfmpegArgs
begin

text \<open>
  The configuration of the daemon (\<open>internal/config/config.go\<close>), the commands that change it
  (\<open>cmd/neotranscoder/main.go\<close>) and what \<open>init\<close> makes of it
  (\<open>internal/installer/installer.go\<close>). The text of a JSON document is not modelled: a
  \<open>config_object\<close> is the document as its members, \<open>None\<close> where a member is missing. Which
  members \<open>Marshal\<close> leaves out and what \<open>Unmarshal\<close> keeps follows from the tags of the structs.
\<close>

subsection \<open>Data\<close>

record server_config =
  sc_bind :: string
  sc_port :: int

record udp_config =
  uc_buffer_size :: int
  uc_fifo_size :: int
  uc_overrun_nonfatal :: bool
  uc_reuse :: bool
  uc_pkt_size :: int

record probe_config =
  pb_analyze_duration :: int
  pb_probe_size :: int

record ffmpeg_config =
  fc_path :: string
  fc_ffprobe_path :: string
  fc_log_level :: string
  fc_udp :: udp_config
  fc_probe :: probe_config

record srt_config =
  rc_worker_path :: string
  rc_state_path :: string
  rc_master_key_path :: string
  rc_audit_dir :: string
  rc_audit_retention_days :: int

record logs_config =
  lc_level :: string
  lc_path :: string

record app_config =
  ac_server :: server_config
  ac_ffmpeg :: ffmpeg_config
  ac_srt :: srt_config
  ac_storage_path :: string
  ac_logs :: logs_config

definition default_config :: app_config where
  "default_config = \<lparr>ac_server = \<lparr>sc_bind = ''0.0.0.0'', sc_port = 8080\<rparr>,
     ac_ffmpeg = \<lparr>fc_path = ''/usr/bin/ffmpeg'', fc_ffprobe_path = ''/usr/bin/ffprobe'', fc_log_level = ''warning'',
       fc_udp = \<lparr>uc_buffer_size = 8388608, uc_fifo_size = 100000000, uc_overrun_nonfatal = True, uc_reuse = True,
         uc_pkt_size = 1316\<rparr>,
       fc_probe = \<lparr>pb_analyze_duration = 10000000, pb_probe_size = 20000000\<rparr>\<rparr>,
     ac_srt = \<lparr>rc_worker_path = ''/usr/local/lib/neotranscoder/neotranscoder-srt-worker'',
       rc_state_path = ''/var/lib/neotranscoder/srt-state.json'', rc_master_key_path = ''/var/lib/neotranscoder/srt-master.key'',
       rc_audit_dir = ''/var/log/neotranscoder/srt-audit'', rc_audit_retention_days = 90\<rparr>,
     ac_storage_path = ''/var/lib/neotranscoder/state.json'',
     ac_logs = \<lparr>lc_level = ''info'', lc_path = ''/var/log/neotranscoder/neotranscoder.log''\<rparr>\<rparr>"

datatype setting_error =
    PortOutOfRange | BindNotAnAddress | SettingRequired string | RetentionTooShort
  | ConfigNotReadable string | ConfigNotParsed string | ConfigNotWritten string

definition validate_config :: "app_config \<Rightarrow> (setting_error, unit) result" where
  "validate_config c =
     (if sc_port (ac_server c) < 1 \<or> sc_port (ac_server c) > 65535 then Inl PortOutOfRange
      else if parse_ip (sc_bind (ac_server c)) = None then Inl BindNotAnAddress
      else if fc_path (ac_ffmpeg c) = [] then Inl (SettingRequired ''ffmpeg.path'')
      else if fc_ffprobe_path (ac_ffmpeg c) = [] then Inl (SettingRequired ''ffmpeg.ffprobe_path'')
      else if rc_worker_path (ac_srt c) = [] then Inl (SettingRequired ''srt.worker_path'')
      else if rc_state_path (ac_srt c) = [] then Inl (SettingRequired ''srt.state_path'')
      else if rc_master_key_path (ac_srt c) = [] then Inl (SettingRequired ''srt.master_key_path'')
      else if rc_audit_dir (ac_srt c) = [] then Inl (SettingRequired ''srt.audit_dir'')
      else if rc_audit_retention_days (ac_srt c) < 1 then Inl RetentionTooShort
      else if ac_storage_path c = [] then Inl (SettingRequired ''storage.path'')
      else if lc_level (ac_logs c) = [] then Inl (SettingRequired ''logs.level'')
      else Inr ())"

definition addr :: "app_config \<Rightarrow> string" where
  "addr c = sc_bind (ac_server c) @ '':'' @ itoa (sc_port (ac_server c))"

subsection \<open>The document\<close>

record config_object =
  jo_bind :: "string option"
  jo_port :: "int option"
  jo_ffmpeg_path :: "string option"
  jo_ffprobe_path :: "string option"
  jo_ffmpeg_log_level :: "string option"
  jo_buffer_size :: "int option"
  jo_fifo_size :: "int option"
  jo_overrun_nonfatal :: "bool option"
  jo_reuse :: "bool option"
  jo_pkt_size :: "int option"
  jo_analyze_duration :: "int option"
  jo_probe_size :: "int option"
  jo_worker_path :: "string option"
  jo_state_path :: "string option"
  jo_master_key_path :: "string option"
  jo_audit_dir :: "string option"
  jo_audit_retention_days :: "int option"
  jo_storage_path :: "string option"
  jo_log_level :: "string option"
  jo_log_path :: "string option"

text \<open>A member tagged \<open>omitempty\<close> is left out when it holds the zero value of its type.\<close>

definition omit_empty :: "'a \<Rightarrow> 'a \<Rightarrow> 'a option" where
  "omit_empty zero v = (if v = zero then None else Some v)"

definition marshal_config :: "app_config \<Rightarrow> config_object" where
  "marshal_config c = (let f = ac_ffmpeg c; u = fc_udp f; p = fc_probe f; r = ac_srt c in
     \<lparr>jo_bind = Some (sc_bind (ac_server c)), jo_port = Some (sc_port (ac_server c)),
      jo_ffmpeg_path = Some (fc_path f), jo_ffprobe_path = Some (fc_ffprobe_path f),
      jo_ffmpeg_log_level = omit_empty [] (fc_log_level f),
      jo_buffer_size = omit_empty 0 (uc_buffer_size u), jo_fifo_size = omit_empty 0 (uc_fifo_size u),
      jo_overrun_nonfatal = omit_empty False (uc_overrun_nonfatal u), jo_reuse = omit_empty False (uc_reuse u),
      jo_pkt_size = omit_empty 0 (uc_pkt_size u),
      jo_analyze_duration = omit_empty 0 (pb_analyze_duration p), jo_probe_size = omit_empty 0 (pb_probe_size p),
      jo_worker_path = Some (rc_worker_path r), jo_state_path = Some (rc_state_path r),
      jo_master_key_path = Some (rc_master_key_path r), jo_audit_dir = Some (rc_audit_dir r),
      jo_audit_retention_days = Some (rc_audit_retention_days r), jo_storage_path = Some (ac_storage_path c),
      jo_log_level = Some (lc_level (ac_logs c)), jo_log_path = Some (lc_path (ac_logs c))\<rparr>)"

text \<open>Unmarshalling into a struct that already has values keeps those of the missing members.\<close>

definition member_or :: "'a \<Rightarrow> 'a option \<Rightarrow> 'a" where
  "member_or old member = (case member of None \<Rightarrow> old | Some v \<Rightarrow> v)"

definition unmarshal_config :: "config_object \<Rightarrow> app_config \<Rightarrow> app_config" where
  "unmarshal_config j c = (let s = ac_server c; f = ac_ffmpeg c; u = fc_udp f; p = fc_probe f; r = ac_srt c in
     \<lparr>ac_server = \<lparr>sc_bind = member_or (sc_bind s) (jo_bind j), sc_port = member_or (sc_port s) (jo_port j)\<rparr>,
      ac_ffmpeg = \<lparr>fc_path = member_or (fc_path f) (jo_ffmpeg_path j),
        fc_ffprobe_path = member_or (fc_ffprobe_path f) (jo_ffprobe_path j),
        fc_log_level = member_or (fc_log_level f) (jo_ffmpeg_log_level j),
        fc_udp = \<lparr>uc_buffer_size = member_or (uc_buffer_size u) (jo_buffer_size j),
          uc_fifo_size = member_or (uc_fifo_size u) (jo_fifo_size j),
          uc_overrun_nonfatal = member_or (uc_overrun_nonfatal u) (jo_overrun_nonfatal j),
          uc_reuse = member_or (uc_reuse u) (jo_reuse j), uc_pkt_size = member_or (uc_pkt_size u) (jo_pkt_size j)\<rparr>,
        fc_probe = \<lparr>pb_analyze_duration = member_or (pb_analyze_duration p) (jo_analyze_duration j),
          pb_probe_size = member_or (pb_probe_size p) (jo_probe_size j)\<rparr>\<rparr>,
      ac_srt = \<lparr>rc_worker_path = member_or (rc_worker_path r) (jo_worker_path j),
        rc_state_path = member_or (rc_state_path r) (jo_state_path j),
        rc_master_key_path = member_or (rc_master_key_path r) (jo_master_key_path j),
        rc_audit_dir = member_or (rc_audit_dir r) (jo_audit_dir j),
        rc_audit_retention_days = member_or (rc_audit_retention_days r) (jo_audit_retention_days j)\<rparr>,
      ac_storage_path = member_or (ac_storage_path c) (jo_storage_path j),
      ac_logs = \<lparr>lc_level = member_or (lc_level (ac_logs c)) (jo_log_level j),
        lc_path = member_or (lc_path (ac_logs c)) (jo_log_path j)\<rparr>\<rparr>)"

text \<open>What reading the file gives: the outcomes of the system and of the JSON parser.\<close>

datatype config_file = NoConfigFile | UnreadableConfig string | UnparsableConfig string | ConfigFile config_object

definition load_config :: "config_file \<Rightarrow> (setting_error, app_config) result" where
  "load_config f = (case f of
     NoConfigFile \<Rightarrow> Inr default_config
   | UnreadableConfig e \<Rightarrow> Inl (ConfigNotReadable e)
   | UnparsableConfig e \<Rightarrow> Inl (ConfigNotParsed e)
   | ConfigFile j \<Rightarrow> (let c = unmarshal_config j default_config in
       and_then (validate_config c) (\<lambda>_. Inr c)))"

text \<open>\<open>failure\<close> is the error of making the directory or writing the file, if any.\<close>

definition write_config :: "string option \<Rightarrow> app_config \<Rightarrow> config_file \<Rightarrow> (setting_error, unit) result \<times> config_file" where
  "write_config failure c f = (case validate_config c of
     Inl e \<Rightarrow> (Inl e, f)
   | Inr _ \<Rightarrow> (case failure of
       Some e \<Rightarrow> (Inl (ConfigNotWritten e), f)
     | None \<Rightarrow> (Inr (), ConfigFile (marshal_config c))))"

definition write_default :: "string option \<Rightarrow> config_file \<Rightarrow> (setting_error, unit) result \<times> config_file" where
  "write_default failure f = write_config failure default_config f"

subsection \<open>The commands\<close>

text \<open>
  The \<open>config\<close> command: its exit code and the file afterwards. The parser of the flags is
  \<open>parse_flags\<close>: the values of \<open>--bind\<close> and \<open>--port\<close>, or \<open>None\<close> for an error.
\<close>

definition set_server :: "string \<Rightarrow> int \<Rightarrow> app_config \<Rightarrow> app_config" where
  "set_server bind port c = (let s = ac_server c in c\<lparr>ac_server :=
     \<lparr>sc_bind = (if bind \<noteq> [] then bind else sc_bind s), sc_port = (if port \<noteq> 0 then port else sc_port s)\<rparr>\<rparr>)"

definition exit_code :: "(setting_error, unit) result \<times> config_file \<Rightarrow> nat \<times> config_file" where
  "exit_code r = (case r of (Inl _, f) \<Rightarrow> (1, f) | (Inr _, f) \<Rightarrow> (0, f))"

definition run_config :: "(string list \<Rightarrow> (string \<times> int) option) \<Rightarrow> string option \<Rightarrow> string list \<Rightarrow> config_file \<Rightarrow> nat \<times> config_file" where
  "run_config parse_flags failure args f = (case args of
     [] \<Rightarrow> (2, f)
   | command # rest \<Rightarrow> (case parse_flags rest of
       None \<Rightarrow> (2, f)
     | Some (bind, port) \<Rightarrow>
         if command = ''validate'' then (if is_ok (load_config f) then 0 else 1, f)
         else if command = ''write-default'' then exit_code (write_default failure f)
         else if command = ''set-server'' then (case load_config f of
             Inl _ \<Rightarrow> (1, f)
           | Inr c \<Rightarrow> exit_code (write_config failure (set_server bind port c) f))
         else (2, f)))"

datatype command = Serve | Version | Doctor | Init | ConfigCommand | Script string

definition run_command :: "string list \<Rightarrow> (command \<times> string list) option" where
  "run_command args = (case (if args = [] then [''serve''] else args) of
     [] \<Rightarrow> None
   | name # rest \<Rightarrow>
       if name = ''serve'' then Some (Serve, rest)
       else if name = ''version'' then Some (Version, rest)
       else if name = ''doctor'' then Some (Doctor, rest)
       else if name = ''init'' then Some (Init, rest)
       else if name = ''config'' then Some (ConfigCommand, rest)
       else if name = ''uninstall'' then Some (Script ''/usr/local/lib/neotranscoder/uninstall.sh'', rest)
       else if name = ''update'' then Some (Script ''/usr/local/lib/neotranscoder/update.sh'', rest)
       else None)"

datatype log_level = LevelDebug | LevelInfo | LevelWarn | LevelError

definition parse_level :: "string \<Rightarrow> log_level" where
  "parse_level level = (let l = to_lower level in
     if l = ''debug'' then LevelDebug
     else if l = ''warn'' \<or> l = ''warning'' then LevelWarn
     else if l = ''error'' then LevelError
     else LevelInfo)"

subsection \<open>Installation\<close>

definition validate_port :: "int \<Rightarrow> bool" where
  "validate_port port \<longleftrightarrow> \<not> (port < 1 \<or> port > 65535)"

datatype prompt_error = InvalidPort | ReadFailed string

text \<open>
  The prompt for the port, line by line. \<open>failure\<close> is the error that ends the input
  instead of its end, if any; the line read until then is lost with it.
\<close>

function prompt_port :: "int \<Rightarrow> string option \<Rightarrow> string \<Rightarrow> (prompt_error, int) result" where
  "prompt_port fallback failure input = (case cut input (byte 10) of (line, rest, found) \<Rightarrow>
     if \<not> found \<and> failure \<noteq> None then Inl (ReadFailed (the failure))
     else let l = trim_space line in
       if l = [] then Inr fallback
       else (case parse_int64 l of
         Some port \<Rightarrow>
           if validate_port port then Inr port
           else if \<not> found then Inl InvalidPort
           else prompt_port fallback failure rest
       | None \<Rightarrow> if \<not> found then Inl InvalidPort else prompt_port fallback failure rest))"
  by pat_completeness auto
termination
  by (relation "measure (\<lambda>(_, _, input). length input)") (auto dest!: cut_found [OF sym])

definition installer_worker_path :: string where
  "installer_worker_path = ''/usr/local/lib/neotranscoder/neotranscoder-srt-worker''"

definition installed_config :: "bool \<Rightarrow> config_file \<Rightarrow> app_config" where
  "installed_config force f = (if force then default_config
     else (case load_config f of Inr existing \<Rightarrow> existing | Inl _ \<Rightarrow> default_config))"

definition install_config :: "string option \<Rightarrow> int \<Rightarrow> bool \<Rightarrow> config_file \<Rightarrow> (setting_error, unit) result \<times> config_file" where
  "install_config failure port force f = (let c = installed_config force f; r = ac_srt c;
       worker = (if rc_worker_path r = [] \<or> rc_worker_path r = ''/opt/neotranscoder/bin/neotranscoder-srt-worker''
         then installer_worker_path else rc_worker_path r)
     in write_config failure (c\<lparr>ac_srt := r\<lparr>rc_worker_path := worker\<rparr>,
          ac_server := \<lparr>sc_bind = ''0.0.0.0'', sc_port = port\<rparr>\<rparr>) f)"

text \<open>What the daemon hands to ffmpeg's command line (\<open>internal/server/server.go\<close>).\<close>

definition system_config_from :: "ffmpeg_config \<Rightarrow> system_config" where
  "system_config_from c = \<lparr>sc_udp_fifo_size = uc_fifo_size (fc_udp c), sc_udp_buffer_size = uc_buffer_size (fc_udp c),
     sc_udp_overrun_nonfatal = uc_overrun_nonfatal (fc_udp c), sc_udp_reuse = uc_reuse (fc_udp c),
     sc_pkt_size = uc_pkt_size (fc_udp c), sc_analyze_duration = pb_analyze_duration (fc_probe c),
     sc_probe_size = pb_probe_size (fc_probe c), sc_log_level = fc_log_level c\<rparr>"

end
