(* ===== verification/Doctor.thy ===== *)
theory Doctor
  imports AppConfig
begin

text \<open>
  The checks of the installation (\<open>internal/doctor/doctor.go\<close>) and the command that prints them
  (\<open>cmd/neotranscoder/main.go\<close>). What the system answers is in \<open>doctor_env\<close>; the directories
  come from \<open>filepath.Dir\<close>, which is modelled with \<open>filepath.Clean\<close>.
\<close>

subsection \<open>Paths\<close>

text \<open>The parts that \<open>filepath.Clean\<close> leaves, the last one first while it works.\<close>

fun clean_parts :: "bool \<Rightarrow> string list \<Rightarrow> string list \<Rightarrow> string list" where
  "clean_parts rooted done_parts [] = rev done_parts"
| "clean_parts rooted done_parts (s # ss) =
     (if s = [] \<or> s = ''.'' then clean_parts rooted done_parts ss
      else if s = ''..'' then
        (if done_parts \<noteq> [] \<and> hd done_parts \<noteq> ''..'' then clean_parts rooted (tl done_parts) ss
         else if rooted then clean_parts rooted done_parts ss
         else clean_parts rooted (s # done_parts) ss)
      else clean_parts rooted (s # done_parts) ss)"

definition filepath_clean :: "string \<Rightarrow> string" where
  "filepath_clean p = (let rooted = has_prefix p ''/'';
       body = join_with ''/'' (clean_parts rooted [] (split_on (CHR ''/'') p))
     in if rooted then CHR ''/'' # body else if body = [] then ''.'' else body)"

definition filepath_dir :: "string \<Rightarrow> string" where
  "filepath_dir p = filepath_clean (rev (dropWhile (\<lambda>c. c \<noteq> CHR ''/'') (rev p)))"

definition filepath_join :: "string \<Rightarrow> string \<Rightarrow> string" where
  "filepath_join a b = (if a = [] then (if b = [] then [] else filepath_clean b) else filepath_clean (a @ ''/'' @ b))"

subsection \<open>Checks\<close>

record check =
  ck_name :: string
  ck_ok :: bool
  ck_detail :: string

text \<open>Each answer is the text of an error, if there is one.\<close>

record doctor_env =
  de_look_path :: "string \<Rightarrow> string option"
  de_run :: "string \<Rightarrow> string list \<Rightarrow> string option"
  de_make_dir :: "string \<Rightarrow> string option"
  de_write :: "string \<Rightarrow> string option"

definition failed_check :: "string \<Rightarrow> string \<Rightarrow> check" where
  "failed_check name detail = \<lparr>ck_name = name, ck_ok = False, ck_detail = detail\<rparr>"

definition file_executable :: "doctor_env \<Rightarrow> string \<Rightarrow> string \<Rightarrow> check" where
  "file_executable env name path =
     (if path = [] then failed_check name ''path is empty''
      else (case de_look_path env path of
        Some e \<Rightarrow> failed_check name e
      | None \<Rightarrow> \<lparr>ck_name = name, ck_ok = True, ck_detail = path\<rparr>))"

definition executable_runs :: "doctor_env \<Rightarrow> string \<Rightarrow> string \<Rightarrow> string list \<Rightarrow> check" where
  "executable_runs env name path args = (let base = file_executable env name path in
     if \<not> ck_ok base then base
     else (case de_run env path args of
       Some e \<Rightarrow> failed_check name (path @ '': '' @ e)
     | None \<Rightarrow> \<lparr>ck_name = name, ck_ok = True, ck_detail = path @ '' runnable''\<rparr>))"

definition dir_writable :: "doctor_env \<Rightarrow> string \<Rightarrow> string \<Rightarrow> check" where
  "dir_writable env name path =
     (if path = [] then failed_check name ''path is empty''
      else (case de_make_dir env path of
        Some e \<Rightarrow> failed_check name e
      | None \<Rightarrow> (case de_write env (filepath_join path ''.neotranscoder-write-check'') of
          Some e \<Rightarrow> failed_check name e
        | None \<Rightarrow> \<lparr>ck_name = name, ck_ok = True, ck_detail = path @ '' writable''\<rparr>)))"

definition run_checks :: "doctor_env \<Rightarrow> app_config \<Rightarrow> check list" where
  "run_checks env c =
     [file_executable env ''ffmpeg'' (fc_path (ac_ffmpeg c)),
      file_executable env ''ffprobe'' (fc_ffprobe_path (ac_ffmpeg c)),
      executable_runs env ''srt_worker'' (rc_worker_path (ac_srt c)) [''version''],
      dir_writable env ''storage_dir'' (filepath_dir (ac_storage_path c)),
      dir_writable env ''log_dir'' (filepath_dir (lc_path (ac_logs c))),
      dir_writable env ''srt_state_dir'' (filepath_dir (rc_state_path (ac_srt c))),
      dir_writable env ''srt_audit_dir'' (rc_audit_dir (ac_srt c))]"

definition has_failure :: "check list \<Rightarrow> bool" where
  "has_failure checks \<longleftrightarrow> list_ex (\<lambda>c. \<not> ck_ok c) checks"

text \<open>The report, a line for each check, and whether one failed.\<close>

definition pad_right :: "nat \<Rightarrow> string \<Rightarrow> string" where
  "pad_right n s = s @ replicate (n - length s) (CHR '' '')"

definition check_line :: "check \<Rightarrow> string" where
  "check_line c = pad_right 12 (ck_name c) @ '' '' @ pad_right 4 (if ck_ok c then ''ok'' else ''fail'') @ '' '' @ ck_detail c @ [byte 10]"

definition print_doctor :: "check list \<Rightarrow> string \<times> bool" where
  "print_doctor checks = (concat (map check_line checks), has_failure checks)"

definition run_doctor :: "doctor_env \<Rightarrow> bool \<Rightarrow> config_file \<Rightarrow> nat" where
  "run_doctor env flags_ok f = (if \<not> flags_ok then 2
     else (case load_config f of Inl _ \<Rightarrow> 1 | Inr c \<Rightarrow> if snd (print_doctor (run_checks env c)) then 1 else 0))"

subsection \<open>A configuration without a log file\<close>

text \<open>
  \<open>filepath.Dir\<close> never answers with the empty path, so the check for an empty path is not
  reached for the three directories that come from it: a configuration without a log file,
  which is valid, is checked by writing into the working directory.
\<close>

lemma filepath_dir_not_empty: "filepath_dir p \<noteq> []"
  by (simp add: filepath_dir_def filepath_clean_def Let_def)

lemma no_log_file_checks_working_directory:
  assumes "lc_path (ac_logs c) = []"
  shows "dir_writable env ''log_dir'' ''.'' \<in> set (run_checks env c)"
  using assms by (simp add: run_checks_def filepath_dir_def filepath_clean_def has_prefix_def)

lemma doctor_succeeds_iff:
  "run_doctor env True f = 0 \<longleftrightarrow> (\<exists>c. load_config f = Inr c \<and> (\<forall>k \<in> set (run_checks env c). ck_ok k))"
  by (auto simp: run_doctor_def print_doctor_def has_failure_def list_ex_iff split: sum.split)

end
