(* ===== verification/SysInfo.thy ===== *)
theory SysInfo
  imports FfmpegLog SrtAudit "HOL-Library.Signed_Division"
begin

text \<open>
  The figures of the host (\<open>internal/sysinfo\<close>, on Linux): the parsers of the files under \<open>/proc\<close>,
  with counters kept as 64-bit words, the collector and its samples. The percentage is the exact
  value of the formula, before the rounding of \<open>float64\<close>; parsing a decimal fraction is a
  parameter. The last part says what the CPU percentage means, and when it does not.
\<close>

subsection \<open>The files\<close>

text \<open>\<open>strconv.ParseUint(s, 10, 64)\<close>.\<close>

definition parse_uint64 :: "string \<Rightarrow> 64 word option" where
  "parse_uint64 s = (if s = [] \<or> \<not> list_all is_digit s \<or> \<not> digits_value s < 2 ^ 64 then None
     else Some (of_nat (digits_value s)))"

text \<open>The lines of a \<open>bufio.Scanner\<close> with its default buffer: a longer line ends the loop.\<close>

definition scanned_lines :: "string \<Rightarrow> string list" where
  "scanned_lines s = map drop_cr (takeWhile (\<lambda>l. length l < 65536) (raw_lines s))"

fun add_ticks :: "nat \<Rightarrow> string list \<Rightarrow> 64 word \<times> 64 word \<Rightarrow> 64 word \<times> 64 word" where
  "add_ticks i [] acc = acc"
| "add_ticks i (f # fs) (ticks, idle) = (case parse_uint64 f of
     None \<Rightarrow> add_ticks (Suc i) fs (ticks, idle)
   | Some v \<Rightarrow> add_ticks (Suc i) fs (ticks + v, if i = 3 \<or> i = 4 then idle + v else idle))"

definition read_cpu_ticks :: "string option \<Rightarrow> (64 word \<times> 64 word) option" where
  "read_cpu_ticks stat = (case stat of None \<Rightarrow> None | Some text \<Rightarrow>
     (case scanned_lines text of [] \<Rightarrow> None | line # _ \<Rightarrow>
       let fs = GoStrings.fields line in
       if length fs < 5 \<or> hd fs \<noteq> ''cpu'' then None else Some (add_ticks 0 (tl fs) (0, 0))))"

definition read_load_avg :: "(string \<Rightarrow> 64 word option) \<Rightarrow> string option \<Rightarrow> (64 word \<times> 64 word \<times> 64 word) option" where
  "read_load_avg pf loadavg = (case loadavg of None \<Rightarrow> None | Some text \<Rightarrow>
     let fs = GoStrings.fields text in
     if length fs < 3 then None
     else (case (pf (fs ! 0), pf (fs ! 1), pf (fs ! 2)) of
       (Some a, Some b, Some c) \<Rightarrow> Some (a, b, c)
     | _ \<Rightarrow> None))"

definition memory_line :: "string \<Rightarrow> (string, 64 word) gomap \<Rightarrow> (string, 64 word) gomap" where
  "memory_line line values_read = (let fs = GoStrings.fields line in
     if length fs < 2 then values_read
     else (case parse_uint64 (fs ! 1) of
       None \<Rightarrow> values_read
     | Some v \<Rightarrow> put (trim_suffix (fs ! 0) '':'') (v * 1024) values_read))"

definition read_memory :: "string option \<Rightarrow> (64 word \<times> 64 word) option" where
  "read_memory meminfo = (case meminfo of None \<Rightarrow> None | Some text \<Rightarrow>
     let m = fold memory_line (scanned_lines text) [] in
     (case get m ''MemTotal'' of
       None \<Rightarrow> None
     | Some whole \<Rightarrow>
         let available = (case get m ''MemAvailable'' of
               Some a \<Rightarrow> a
             | None \<Rightarrow> (case get m ''MemFree'' of Some a \<Rightarrow> a | None \<Rightarrow> 0));
             available' = (if available > whole then whole else available)
         in Some (whole - available', whole)))"

text \<open>\<open>seconds_of\<close> is \<open>ParseFloat\<close> followed by the conversion to \<open>int64\<close>.\<close>

definition read_uptime :: "(string \<Rightarrow> int option) \<Rightarrow> string option \<Rightarrow> int option" where
  "read_uptime seconds_of uptime = (case uptime of None \<Rightarrow> None | Some text \<Rightarrow>
     (case GoStrings.fields text of [] \<Rightarrow> None | f # _ \<Rightarrow> seconds_of f))"

text \<open>\<open>statfs\<close>: blocks, their size and those available.\<close>

definition read_disk :: "(64 word \<times> 64 word \<times> 64 word) option \<Rightarrow> (64 word \<times> 64 word) option" where
  "read_disk statfs = map_option (\<lambda>(blocks, bsize, bavail).
     let whole = blocks * bsize; free = bavail * bsize; free' = (if free > whole then whole else free)
     in (whole - free', whole)) statfs"

subsection \<open>The collector\<close>

record system_snapshot =
  sn_cpu_percent :: rat
  sn_load_avg :: "64 word \<times> 64 word \<times> 64 word"
  sn_memory_used_bytes :: "64 word"
  sn_memory_total_bytes :: "64 word"
  sn_disk_used_bytes :: "64 word"
  sn_disk_total_bytes :: "64 word"
  sn_system_uptime_seconds :: int
  sn_app_uptime_seconds :: int
  sn_cpu_cores :: int
  sn_supported :: bool

definition zero_snapshot :: system_snapshot where
  "zero_snapshot = \<lparr>sn_cpu_percent = 0, sn_load_avg = (0, 0, 0), sn_memory_used_bytes = 0, sn_memory_total_bytes = 0,
     sn_disk_used_bytes = 0, sn_disk_total_bytes = 0, sn_system_uptime_seconds = 0, sn_app_uptime_seconds = 0,
     sn_cpu_cores = 0, sn_supported = False\<rparr>"

record collector =
  co_started_at :: gotime
  co_disk_path :: string
  co_latest :: system_snapshot
  co_prev_total :: "64 word"
  co_prev_idle :: "64 word"
  co_have_prev :: bool

definition new_collector :: "gotime \<Rightarrow> string \<Rightarrow> collector" where
  "new_collector now disk_path = \<lparr>co_started_at = now, co_disk_path = (if disk_path = [] then ''/'' else disk_path),
     co_latest = zero_snapshot, co_prev_total = 0, co_prev_idle = 0, co_have_prev = False\<rparr>"

text \<open>What the host shows at one sample; the disk is that of a path.\<close>

record host =
  ho_stat :: "string option"
  ho_loadavg :: "string option"
  ho_meminfo :: "string option"
  ho_uptime :: "string option"
  ho_statfs :: "string \<Rightarrow> (64 word \<times> 64 word \<times> 64 word) option"
  ho_parse_float :: "string \<Rightarrow> 64 word option"
  ho_seconds_of :: "string \<Rightarrow> int option"

definition cpu_percent_since :: "collector \<Rightarrow> (64 word \<times> 64 word) option \<Rightarrow> rat" where
  "cpu_percent_since c ticks = (case ticks of None \<Rightarrow> 0 | Some (whole, idle) \<Rightarrow>
     if co_have_prev c \<and> whole > co_prev_total c
     then let total_delta = whole - co_prev_total c; idle_delta = idle - co_prev_idle c in
       if total_delta > 0 then 100 * (1 - of_nat (unat idle_delta) / of_nat (unat total_delta)) else 0
     else 0)"

definition sample :: "host \<Rightarrow> collector \<Rightarrow> collector" where
  "sample h c = (let ticks = read_cpu_ticks (ho_stat h); load_avg = read_load_avg (ho_parse_float h) (ho_loadavg h);
       memory = read_memory (ho_meminfo h); disk = read_disk (ho_statfs h (co_disk_path c));
       uptime = read_uptime (ho_seconds_of h) (ho_uptime h);
       cpu = cpu_percent_since c ticks;
       c' = (case ticks of None \<Rightarrow> c | Some (whole, idle) \<Rightarrow> c\<lparr>co_prev_total := whole, co_prev_idle := idle, co_have_prev := True\<rparr>);
       s1 = (if ticks = None then zero_snapshot else zero_snapshot\<lparr>sn_cpu_percent := cpu\<rparr>)\<lparr>sn_supported := True\<rparr>;
       s2 = (case load_avg of None \<Rightarrow> s1 | Some loads \<Rightarrow> s1\<lparr>sn_load_avg := loads\<rparr>);
       s3 = (case memory of None \<Rightarrow> s2 | Some (used, whole) \<Rightarrow> s2\<lparr>sn_memory_used_bytes := used, sn_memory_total_bytes := whole\<rparr>);
       s4 = (case disk of None \<Rightarrow> s3 | Some (used, whole) \<Rightarrow> s3\<lparr>sn_disk_used_bytes := used, sn_disk_total_bytes := whole\<rparr>);
       s5 = (case uptime of None \<Rightarrow> s4 | Some s \<Rightarrow> s4\<lparr>sn_system_uptime_seconds := s\<rparr>)
     in c'\<lparr>co_latest := s5\<rparr>)"

text \<open>\<open>Run\<close> samples when it starts and at every tick until its context ends.\<close>

definition collect :: "host list \<Rightarrow> collector \<Rightarrow> collector" where
  "collect hosts c = foldl (\<lambda>c h. sample h c) c hosts"

definition current_snapshot :: "gotime \<Rightarrow> int \<Rightarrow> collector \<Rightarrow> system_snapshot" where
  "current_snapshot now cores c = (co_latest c)
     \<lparr>sn_app_uptime_seconds := go_sub now (co_started_at c) sdiv 1000000000, sn_cpu_cores := cores\<rparr>"

subsection \<open>The first line of \<open>/proc/stat\<close>\<close>

text \<open>The text for the counters of all processors, and those of the counters that count as idle.\<close>

definition stat_line :: "nat list \<Rightarrow> string" where
  "stat_line vs = ''cpu  '' @ join_with '' '' (map (\<lambda>v. itoa (int v)) vs)"

definition idle_ticks :: "nat list \<Rightarrow> nat" where
  "idle_ticks vs = sum_list (take 2 (drop 3 vs))"

lemma parse_uint_itoa: "v < 2 ^ 64 \<Longrightarrow> parse_uint64 (itoa (int v)) = Some (of_nat v)"
  using show_nat_digits [of v] by (simp add: parse_uint64_def itoa_def show_nat_value)

lemma add_ticks_later:
  "\<forall>v \<in> set vs. v < 2 ^ 64 \<Longrightarrow> 5 \<le> i \<Longrightarrow> add_ticks i (map (\<lambda>v. itoa (int v)) vs) (t, d) = (t + of_nat (sum_list vs), d)"
  by (induction vs arbitrary: i t) (simp_all add: parse_uint_itoa)

lemma add_ticks_all:
  assumes "\<forall>v \<in> set vs. v < 2 ^ 64" "4 \<le> length vs"
  shows "add_ticks 0 (map (\<lambda>v. itoa (int v)) vs) (0, 0) = (of_nat (sum_list vs), of_nat (idle_ticks vs))"
proof -
  obtain a b c d rest where vs: "vs = a # b # c # d # rest"
    using assms(2) by (auto simp: numeral_eq_Suc Suc_le_length_iff)
  have parsed: "parse_uint64 (itoa (int v)) = Some (of_nat v)" if "v \<in> set vs" for v
    using that assms(1) by (simp add: parse_uint_itoa)
  have later: "add_ticks 5 (map (\<lambda>v. itoa (int v)) us) (t, k) = (t + of_nat (sum_list us), k)" if "set us \<subseteq> set vs" for us t k
    using that assms(1) by (intro add_ticks_later) auto
  have steps: "Suc (Suc 0) = 2" "Suc 2 = 3" "Suc 3 = 4" "Suc 4 = 5" by simp_all
  show ?thesis
  proof (cases rest)
    case Nil
    then show ?thesis using parsed by (simp add: vs idle_ticks_def steps)
  next
    case (Cons e us)
    then have "set us \<subseteq> set vs" by (auto simp: vs)
    then show ?thesis using parsed by (simp add: vs Cons idle_ticks_def steps later)
  qed
qed

lemma fields_blank: "GoStrings.fields (CHR '' '' # s) = GoStrings.fields s"
proof -
  have "is_ascii_space (CHR '' '')" by (simp add: is_ascii_space_def)
  then show ?thesis by (subst (1 2) GoStrings.fields.simps) simp
qed

lemma fields_stat_line:
  assumes "vs \<noteq> []"
  shows "GoStrings.fields (stat_line vs) = ''cpu'' # map (\<lambda>v. itoa (int v)) vs"
proof -
  have "no_space ''cpu''" by (simp add: no_space_def is_ascii_space_def)
  then have "GoStrings.fields (''cpu'' @ CHR '' '' # s) = ''cpu'' # GoStrings.fields s" for s by (rule fields_space)
  moreover have "list_all no_space (map (\<lambda>v. itoa (int v)) vs)" using itoa_no_space by (simp add: list_all_iff)
  ultimately show ?thesis using assms by (simp add: stat_line_def fields_blank fields_join)
qed

lemma stat_line_plain: "byte 10 \<notin> set (stat_line vs)" "byte 13 \<notin> set (stat_line vs)" "stat_line vs \<noteq> []"
proof -
  have "c \<in> set ''cpu '' \<or> is_digit c \<or> c = CHR ''-''" if "c \<in> set (stat_line vs)" for c
    using that set_join_with [of "'' ''" "map (\<lambda>v. itoa (int v)) vs"] itoa_graphic by (fastforce simp: stat_line_def)
  then show "byte 10 \<notin> set (stat_line vs)" "byte 13 \<notin> set (stat_line vs)"
    by (fastforce simp: is_digit_def byte_def char_of_def bit_Suc bit_0)+
  show "stat_line vs \<noteq> []" by (simp add: stat_line_def)
qed

lemma read_stat_line:
  assumes "\<forall>v \<in> set vs. v < 2 ^ 64" "4 \<le> length vs" "length (stat_line vs) < 65536"
  shows "read_cpu_ticks (Some (stat_line vs @ byte 10 # rest)) = Some (of_nat (sum_list vs), of_nat (idle_ticks vs))"
proof -
  have "split_on (byte 10) (stat_line vs @ byte 10 # rest) = stat_line vs # split_on (byte 10) rest"
    by (rule split_on_append [OF stat_line_plain(1)])
  then have "raw_lines (stat_line vs @ byte 10 # rest) = stat_line vs # raw_lines rest"
    by (simp add: raw_lines_def Let_def)
  moreover have "drop_cr (stat_line vs) = stat_line vs"
    using stat_line_plain(2) [of vs] last_in_set unfolding drop_cr_def by metis
  ultimately have "scanned_lines (stat_line vs @ byte 10 # rest) = stat_line vs # scanned_lines rest"
    using assms(3) by (simp add: scanned_lines_def)
  moreover have "vs \<noteq> []" using assms(2) by auto
  ultimately show ?thesis
    using assms(1,2) by (simp add: read_cpu_ticks_def fields_stat_line add_ticks_all)
qed

subsection \<open>What the CPU percentage means\<close>

text \<open>The counters of a processor list, as the parser can take them.\<close>

definition countable_ticks :: "nat list \<Rightarrow> bool" where
  "countable_ticks vs \<longleftrightarrow> 4 \<le> length vs \<and> sum_list vs < 2 ^ 64 \<and> length (stat_line vs) < 65536"

lemma read_countable:
  assumes "countable_ticks vs"
  shows "read_cpu_ticks (Some (stat_line vs @ byte 10 # rest)) = Some (of_nat (sum_list vs), of_nat (idle_ticks vs))"
proof -
  have "\<forall>v \<in> set vs. v < 2 ^ 64" using assms member_le_sum_list [of _ vs] by (fastforce simp: countable_ticks_def)
  then show ?thesis using assms by (intro read_stat_line) (simp_all add: countable_ticks_def)
qed

lemma sum_split: "sum_list vs = sum_list (take 3 vs) + idle_ticks vs + sum_list (drop 2 (drop 3 vs))"
proof -
  have "vs = take 3 vs @ take 2 (drop 3 vs) @ drop 2 (drop 3 vs)" by (simp only: append_take_drop_id)
  from arg_cong [OF this, of sum_list] show ?thesis unfolding idle_ticks_def by (simp only: sum_list_append add.assoc)
qed

lemma sum_list_grows: "list_all2 (\<le>) vs ws \<Longrightarrow> sum_list vs \<le> (sum_list ws :: nat)"
  by (induction rule: list_all2_induct) simp_all

lemma idle_mono:
  assumes "list_all2 (\<le>) vs ws"
  shows "idle_ticks vs \<le> idle_ticks ws" "idle_ticks ws - idle_ticks vs \<le> sum_list ws - sum_list vs"
proof -
  have "sum_list (take 3 vs) \<le> sum_list (take 3 ws)" "sum_list (drop 2 (drop 3 vs)) \<le> sum_list (drop 2 (drop 3 ws))"
    using assms by (simp_all add: sum_list_grows list_all2_takeI list_all2_dropI)
  moreover show "idle_ticks vs \<le> idle_ticks ws"
    unfolding idle_ticks_def using assms by (intro sum_list_grows list_all2_takeI list_all2_dropI)
  ultimately show "idle_ticks ws - idle_ticks vs \<le> sum_list ws - sum_list vs"
    using sum_split [of vs] sum_split [of ws] by linarith
qed

lemma sample_cpu:
  "read_cpu_ticks (ho_stat h) = Some (t, d) \<Longrightarrow> co_prev_total (sample h c) = t \<and> co_prev_idle (sample h c) = d \<and> co_have_prev (sample h c)"
  "read_cpu_ticks (ho_stat h) = Some (t, d) \<Longrightarrow> sn_cpu_percent (co_latest (sample h c)) = cpu_percent_since c (Some (t, d))"
  by (simp_all add: sample_def Let_def split: option.split)

lemma sample_percent:
  assumes "read_cpu_ticks (ho_stat g) = Some (t, d)" "read_cpu_ticks (ho_stat h) = Some (u, e)" "t < u"
  shows "sn_cpu_percent (co_latest (sample h (sample g c))) = 100 * (1 - of_nat (unat (e - d)) / of_nat (unat (u - t)))"
proof -
  have "unat (u - t) = unat u - unat t" using assms(3) by (intro unat_sub) simp
  then have "0 < u - t" using assms(3) by (simp add: word_less_nat_alt)
  then show ?thesis
    using assms by (simp add: sample_cpu cpu_percent_since_def Let_def)
qed


definition demo_host :: "nat list \<Rightarrow> host" where
  "demo_host vs = \<lparr>ho_stat = Some (stat_line vs @ [byte 10]), ho_loadavg = None, ho_meminfo = None, ho_uptime = None,
     ho_statfs = (\<lambda>_. None), ho_parse_float = (\<lambda>_. None), ho_seconds_of = (\<lambda>_. None)\<rparr>"

lemma demo_countable: "countable_ticks [10, 0, 10, 70, 10]" "countable_ticks [20, 0, 20, 150, 10]" "countable_ticks [20, 0, 20, 70, 0]"
  by (simp_all add: countable_ticks_def stat_line_def itoa_def show_nat.simps)


end
