(* ===== verification/Server.thy ===== *)
theory Server
  imports Http Auth Doctor SysInfo StreamJobs SrtManager
begin

text \<open>
  The HTTP server (\<open>internal/server/server.go\<close>): authentication, the choice of a handler, and the
  handlers over the two stores and the two managers. A handler is a function from the request
  and the server to the response and the server afterwards. What comes from outside is in
  \<open>http_env\<close>: the clock, read once for a request, randomness, JSON, the outcomes of saves, of
  processes and of the audit log, and what other goroutines do while a handler waits. Bodies of
  responses are the values that are encoded; errors are the values whose texts are written.
\<close>

subsection \<open>State\<close>

datatype srt_open_error = MasterKeyFailed key_error | AuditStoreFailed audit_error | SrtStoreFailed store_error

record server =
  srv_cfg :: app_config
  srv_jobs :: job_manager
  srv_srt :: manager
  srv_srt_error :: "srt_open_error option"
  srv_sys :: collector

record json_codec =
  js_credentials :: "string \<Rightarrow> (string, string \<times> string) result"
  js_refresh_token :: "string \<Rightarrow> (string, string) result"
  js_passwords :: "string \<Rightarrow> (string, string \<times> string) result"
  js_password :: "string \<Rightarrow> (string, string) result"
  js_input_url :: "string \<Rightarrow> (string, string) result"
  js_profile :: "string \<Rightarrow> (string, profile) result"
  js_stream :: "string \<Rightarrow> (string, stream_config) result"
  js_relay :: "string \<Rightarrow> (string, relay) result"
  js_client :: "string \<Rightarrow> (string, client) result"
  js_probed :: "string \<Rightarrow> (string, string) result"
  js_claims_enc :: "claims \<Rightarrow> octets option"
  js_claims_dec :: "octets \<Rightarrow> claims option"

record http_env =
  en_now :: gotime
  en_random :: "octets option"
  en_saved :: bool
  en_json :: json_codec
  en_spawn :: spawn
  en_others :: "job_manager \<Rightarrow> job_manager"
  en_delivered :: bool
  en_srt_spawn :: "string \<Rightarrow> spawn_env"
  en_turns :: "string \<Rightarrow> (gotime \<times> (manager \<Rightarrow> manager)) list"
  en_audit_enc :: audit_enc
  en_audit_dec :: audit_dec
  en_operator_audit :: audit_env
  en_warning_audit :: audit_env
  en_audit_dir :: bool
  en_audit_file :: "string \<Rightarrow> bool"
  en_ffprobe :: "string \<Rightarrow> string list \<Rightarrow> (string, string) result"
  en_doctor :: doctor_env
  en_cores :: int
  en_static :: "string \<Rightarrow> bool"
  en_channel :: nat

datatype failure =
    Said string | BadBody string | FromAuth auth_error | FromStreams stream_error | FromJobs job_error
  | FromArgs args_error | FromSrt store_error | FromManager manager_error | FromAudit audit_error | FromProbe string
  | SrtUnavailable srt_open_error

datatype answer =
    NoContent | Failed failure | Redirect string | Page string | Health | Required
  | TokenPair string string gotime gotime bool public_user | ValidUser public_user
  | Account public_user | Accounts "public_user list" | Checks "check list" | EventStream
  | System system_snapshot | Probed string | LogEntries "log_entry list" | ProfileAnswer profile | Profiles "profile list"
  | StreamAnswer stream_view | StreamViews "stream_view list" | CommandLine string "string list"
  | RelayAnswer relay_view | RelayViews "relay_view list" | ClientList "client list" | Credential client_credential
  | Sessions "session list" | AuditEvents "audit_event list"

record response =
  rs_status :: nat
  rs_body :: answer
  rs_warning :: "string option"

definition reply :: "nat \<Rightarrow> answer \<Rightarrow> response" where
  "reply status body = \<lparr>rs_status = status, rs_body = body, rs_warning = None\<rparr>"

definition write_error :: "nat \<Rightarrow> failure \<Rightarrow> response" where
  "write_error status f = reply status (Failed f)"

abbreviation streams_of :: "server \<Rightarrow> stream_store" where
  "streams_of srv \<equiv> jm_store (srv_jobs srv)"

abbreviation relays_of :: "server \<Rightarrow> store" where
  "relays_of srv \<equiv> mgr_store (srv_srt srv)"

definition on_streams :: "('a \<times> stream_store) \<Rightarrow> server \<Rightarrow> 'a \<times> server" where
  "on_streams r srv = (fst r, srv\<lparr>srv_jobs := (srv_jobs srv)\<lparr>jm_store := snd r\<rparr>\<rparr>)"

definition on_jobs :: "('a \<times> job_manager) \<Rightarrow> server \<Rightarrow> 'a \<times> server" where
  "on_jobs r srv = (fst r, srv\<lparr>srv_jobs := snd r\<rparr>)"

definition on_relays :: "('a \<times> store) \<Rightarrow> server \<Rightarrow> 'a \<times> server" where
  "on_relays r srv = (fst r, srv\<lparr>srv_srt := (srv_srt srv)\<lparr>mgr_store := snd r\<rparr>\<rparr>)"

text \<open>
  How most handlers end: an error is written with its status, an answer with status 200; and
  how a deletion ends.
\<close>

definition finish :: "nat \<Rightarrow> ('e \<Rightarrow> failure) \<Rightarrow> ('a \<Rightarrow> answer) \<Rightarrow> ('e, 'a) result \<times> server \<Rightarrow> response \<times> server" where
  "finish status wrap body r = (case r of
     (Inl e, srv) \<Rightarrow> (write_error status (wrap e), srv)
   | (Inr a, srv) \<Rightarrow> (reply 200 (body a), srv))"

definition finish_delete :: "nat \<Rightarrow> ('e \<Rightarrow> failure) \<Rightarrow> string \<Rightarrow> ('e, bool) result \<times> server \<Rightarrow> response \<times> server" where
  "finish_delete status wrap what r = (case r of
     (Inl e, srv) \<Rightarrow> (write_error status (wrap e), srv)
   | (Inr deleted, srv) \<Rightarrow> (if deleted then reply 204 NoContent else write_error 404 (Said (what @ '' not found'')), srv))"

definition read_json :: "('a \<Rightarrow> response \<times> server) \<Rightarrow> server \<Rightarrow> (string, 'a) result \<Rightarrow> response \<times> server" where
  "read_json handler srv body = (case body of Inl e \<Rightarrow> (write_error 400 (BadBody e), srv) | Inr v \<Rightarrow> handler v)"

definition query_limit :: "request \<Rightarrow> int" where
  "query_limit rq = (let value = query_get (parse_query (rq_query rq)) ''limit'' in
     if value = [] then 200 else (case parse_int64 value of None \<Rightarrow> 200 | Some limit \<Rightarrow> limit))"

subsection \<open>Authentication\<close>

definition bearer_token :: "request \<Rightarrow> string" where
  "bearer_token rq = (let header = rq_authorization rq;
       token = (if has_prefix header ''Bearer '' then trim_prefix header ''Bearer '' else [])
     in if token = [] \<and> rq_path rq = ''/api/events'' then query_get (parse_query (rq_query rq)) ''access_token'' else token)"

definition user_from_request :: "http_env \<Rightarrow> string \<Rightarrow> request \<Rightarrow> server \<Rightarrow> (failure, user) result" where
  "user_from_request env kind rq srv =
     (if bearer_token rq = [] then Inl (Said ''missing bearer token'')
      else (case verify_token (js_claims_dec (en_json env)) (sg_auth_secret (streams_of srv)) (bearer_token rq) kind (en_now env) of
        Inl e \<Rightarrow> Inl (FromAuth e)
      | Inr c \<Rightarrow> (case verify_token_claims (streams_of srv) c of
          None \<Rightarrow> Inl (Said ''invalid bearer token'')
        | Some u \<Rightarrow> Inr u)))"

definition open_path :: "string \<Rightarrow> bool" where
  "open_path p \<longleftrightarrow> p = ''/api/health'' \<or> p = ''/api/auth/required'' \<or> p = ''/api/auth/login'' \<or> p = ''/api/auth/refresh''
     \<or> \<not> has_prefix p ''/api/''"

definition write_token_pair :: "http_env \<Rightarrow> user \<Rightarrow> server \<Rightarrow> response" where
  "write_token_pair env u srv =
     (let secret = sg_auth_secret (streams_of srv);
          access_expires = time_add (en_now env) access_token_ttl;
          refresh_expires = time_add (en_now env) refresh_token_ttl;
          issue = (\<lambda>kind expires. issue_token (js_claims_enc (en_json env)) secret
            \<lparr>cl_subject = us_username u, cl_type = kind, cl_token_version = us_token_version u, cl_expires_at = expires\<rparr>)
      in (case issue ''access'' access_expires of
        Inl e \<Rightarrow> write_error 500 (FromAuth e)
      | Inr access \<Rightarrow> (case issue ''refresh'' refresh_expires of
          Inl e \<Rightarrow> write_error 500 (FromAuth e)
        | Inr refresh \<Rightarrow> reply 200
            (TokenPair access refresh access_expires refresh_expires (us_must_change_password u) (public u)))))"

definition login :: "http_env \<Rightarrow> request \<Rightarrow> server \<Rightarrow> response \<times> server" where
  "login env rq srv = read_json (\<lambda>(name, password). (case authenticate (streams_of srv) name password of
       None \<Rightarrow> write_error 401 (Said ''invalid username or password'')
     | Some u \<Rightarrow> write_token_pair env u srv, srv)) srv (js_credentials (en_json env) (rq_body rq))"

definition refresh_tokens :: "http_env \<Rightarrow> request \<Rightarrow> server \<Rightarrow> response \<times> server" where
  "refresh_tokens env rq srv = read_json (\<lambda>token.
     (case verify_token (js_claims_dec (en_json env)) (sg_auth_secret (streams_of srv)) token ''refresh'' (en_now env) of
       Inl e \<Rightarrow> write_error 401 (FromAuth e)
     | Inr c \<Rightarrow> (case verify_token_claims (streams_of srv) c of
         None \<Rightarrow> write_error 401 (Said ''invalid refresh token'')
       | Some u \<Rightarrow> write_token_pair env u srv), srv)) srv (js_refresh_token (en_json env) (rq_body rq))"

definition with_user :: "http_env \<Rightarrow> request \<Rightarrow> (user \<Rightarrow> response \<times> server) \<Rightarrow> server \<Rightarrow> response \<times> server" where
  "with_user env rq handler srv = (case user_from_request env ''access'' rq srv of
     Inl f \<Rightarrow> (write_error 401 f, srv)
   | Inr u \<Rightarrow> handler u)"

definition verify_user :: "http_env \<Rightarrow> request \<Rightarrow> server \<Rightarrow> response \<times> server" where
  "verify_user env rq srv = with_user env rq (\<lambda>u. (reply 200 (ValidUser (public u)), srv)) srv"

subsection \<open>Accounts\<close>

definition change_own_password :: "http_env \<Rightarrow> request \<Rightarrow> server \<Rightarrow> response \<times> server" where
  "change_own_password env rq srv = with_user env rq (\<lambda>u. read_json (\<lambda>(current, new).
     finish 400 FromStreams Account (on_streams
       (change_password (en_random env) (en_now env) (en_saved env) (us_username u) current new True (streams_of srv)) srv))
     srv (js_passwords (en_json env) (rq_body rq))) srv"

definition post_user :: "http_env \<Rightarrow> request \<Rightarrow> server \<Rightarrow> response \<times> server" where
  "post_user env rq srv = read_json (\<lambda>(name, password).
     (case on_streams (create_user (en_random env) (en_now env) (en_saved env) name password (streams_of srv)) srv of
       (Inl e, srv') \<Rightarrow> (write_error 400 (FromStreams e), srv')
     | (Inr u, srv') \<Rightarrow> (reply 201 (Account u), srv'))) srv (js_credentials (en_json env) (rq_body rq))"

definition change_user_password :: "http_env \<Rightarrow> string \<Rightarrow> request \<Rightarrow> server \<Rightarrow> response \<times> server" where
  "change_user_password env name rq srv = read_json (\<lambda>password.
     finish 400 FromStreams Account (on_streams
       (change_password (en_random env) (en_now env) (en_saved env) name [] password False (streams_of srv)) srv))
     srv (js_password (en_json env) (rq_body rq))"

definition remove_user :: "http_env \<Rightarrow> string \<Rightarrow> server \<Rightarrow> response \<times> server" where
  "remove_user env name srv = finish_delete 400 FromStreams ''user''
     (on_streams (delete_user (en_now env) (en_saved env) name (streams_of srv)) srv)"

subsection \<open>Status\<close>

definition doctor :: "http_env \<Rightarrow> server \<Rightarrow> response \<times> server" where
  "doctor env srv = (let checks = run_checks (en_doctor env) (srv_cfg srv) in
     (reply (if has_failure checks then 503 else 200) (Checks checks), srv))"

text \<open>The probe runs ffprobe on the given URL (\<open>internal/probe/probe.go\<close>); its report is kept as text.\<close>

definition ffprobe_args :: "string \<Rightarrow> string list" where
  "ffprobe_args input_url = [''-v'', ''error'', ''-print_format'', ''json'', ''-show_format'', ''-show_streams'', input_url]"

definition run_probe :: "http_env \<Rightarrow> string \<Rightarrow> string \<Rightarrow> (string, string) result" where
  "run_probe env path input_url = (case en_ffprobe env path (ffprobe_args input_url) of
     Inl e \<Rightarrow> Inl (''ffprobe: '' @ e)
   | Inr report \<Rightarrow> js_probed (en_json env) report)"

definition probe :: "http_env \<Rightarrow> request \<Rightarrow> server \<Rightarrow> response \<times> server" where
  "probe env rq srv = read_json (\<lambda>input_url. finish 400 FromProbe Probed
     (run_probe env (fc_ffprobe_path (ac_ffmpeg (srv_cfg srv))) input_url, srv)) srv (js_input_url (en_json env) (rq_body rq))"

text \<open>The event stream subscribes to both stores; its end, and one event, are below.\<close>

definition open_events :: "http_env \<Rightarrow> server \<Rightarrow> response \<times> server" where
  "open_events env srv = (reply 200 EventStream,
     snd (on_relays ((), subscribe (en_channel env) (relays_of srv))
       (snd (on_streams ((), stream_subscribe (en_channel env) (streams_of srv)) srv))))"

definition close_events :: "nat \<Rightarrow> server \<Rightarrow> server" where
  "close_events c srv = snd (on_relays ((), unsubscribe c (relays_of srv))
     (snd (on_streams ((), stream_unsubscribe c (streams_of srv)) srv)))"

definition write_sse :: "string \<Rightarrow> string \<Rightarrow> string" where
  "write_sse type data = ''event: '' @ type @ [byte 10] @ ''data: '' @ data @ [byte 10, byte 10]"

text \<open>The loop takes an event from either channel, as the runtime chooses.\<close>

definition next_stream_event :: "(stream_event \<Rightarrow> string) \<Rightarrow> nat \<Rightarrow> server \<Rightarrow> (string \<times> server) option" where
  "next_stream_event enc c srv = (case get (sg_subscribers (streams_of srv)) c of
     Some (e # queue) \<Rightarrow> Some (write_sse (se_type e) (enc e), snd (on_streams ((), (streams_of srv)
       \<lparr>sg_subscribers := put c queue (sg_subscribers (streams_of srv))\<rparr>) srv))
   | _ \<Rightarrow> None)"

definition next_srt_event :: "(event \<Rightarrow> string) \<Rightarrow> nat \<Rightarrow> server \<Rightarrow> (string \<times> server) option" where
  "next_srt_event enc c srv = (case get (sto_subscribers (relays_of srv)) c of
     Some (e # queue) \<Rightarrow> Some (write_sse (e_type e) (enc e), snd (on_relays ((), (relays_of srv)
       \<lparr>sto_subscribers := put c queue (sto_subscribers (relays_of srv))\<rparr>) srv))
   | _ \<Rightarrow> None)"

subsection \<open>Profiles and streams\<close>

definition show_profile :: "string \<Rightarrow> server \<Rightarrow> response \<times> server" where
  "show_profile name srv = (case get_profile (streams_of srv) name of
     None \<Rightarrow> (write_error 404 (Said ''profile not found''), srv)
   | Some p \<Rightarrow> (reply 200 (ProfileAnswer p), srv))"

definition save_profile :: "http_env \<Rightarrow> string \<Rightarrow> request \<Rightarrow> server \<Rightarrow> response \<times> server" where
  "save_profile env name rq srv = read_json (\<lambda>p.
     finish 400 FromStreams ProfileAnswer (on_streams (upsert_profile (en_now env) (en_saved env)
       (if name \<noteq> [] then p\<lparr>pf_name := name\<rparr> else p) (streams_of srv)) srv)) srv (js_profile (en_json env) (rq_body rq))"

definition remove_profile :: "http_env \<Rightarrow> string \<Rightarrow> server \<Rightarrow> response \<times> server" where
  "remove_profile env name srv = finish_delete 400 FromStreams ''profile''
     (on_streams (delete_profile (en_now env) (en_saved env) name (streams_of srv)) srv)"

definition show_stream :: "string \<Rightarrow> server \<Rightarrow> response \<times> server" where
  "show_stream i srv = (case get_stream (streams_of srv) i of
     None \<Rightarrow> (write_error 404 (Said ''stream not found''), srv)
   | Some view \<Rightarrow> (reply 200 (StreamAnswer view), srv))"

definition save_stream :: "http_env \<Rightarrow> string \<Rightarrow> request \<Rightarrow> server \<Rightarrow> response \<times> server" where
  "save_stream env i rq srv = read_json (\<lambda>c.
     finish 400 FromStreams StreamAnswer (on_streams (upsert_stream (en_now env) (en_saved env)
       (if i \<noteq> [] then c\<lparr>cf_id := i\<rparr> else c) (streams_of srv)) srv)) srv (js_stream (en_json env) (rq_body rq))"

definition stop_job :: "http_env \<Rightarrow> string \<Rightarrow> server \<Rightarrow> (job_error, unit) result \<times> server" where
  "stop_job env i srv = on_jobs (stop_stream (en_now env) (en_others env) i (srv_jobs srv)) srv"

definition start_job :: "http_env \<Rightarrow> string \<Rightarrow> server \<Rightarrow> (job_error, stream_job) result \<times> server" where
  "start_job env i srv = on_jobs (start_stream (en_now env) (en_spawn env) i False (srv_jobs srv)) srv"

definition remove_stream :: "http_env \<Rightarrow> string \<Rightarrow> server \<Rightarrow> response \<times> server" where
  "remove_stream env i srv = (let srv' = snd (stop_job env i srv) in
     finish_delete 500 FromStreams ''stream'' (on_streams (delete_stream (en_now env) (en_saved env) i (streams_of srv')) srv'))"

text \<open>An error of the manager has status 400, and success shows the stream.\<close>

definition then_show :: "string \<Rightarrow> (job_error, 'a) result \<times> server \<Rightarrow> response \<times> server" where
  "then_show i r = (case r of
     (Inl e, srv) \<Rightarrow> (write_error 400 (FromJobs e), srv)
   | (Inr _, srv) \<Rightarrow> show_stream i srv)"

definition start_handler :: "http_env \<Rightarrow> string \<Rightarrow> server \<Rightarrow> response \<times> server" where
  "start_handler env i srv = then_show i (start_job env i srv)"

definition stop_handler :: "http_env \<Rightarrow> string \<Rightarrow> server \<Rightarrow> response \<times> server" where
  "stop_handler env i srv = then_show i (stop_job env i srv)"

definition restart_handler :: "http_env \<Rightarrow> string \<Rightarrow> server \<Rightarrow> response \<times> server" where
  "restart_handler env i srv = then_show i (start_job env i (snd (stop_job env i srv)))"

definition ffmpeg_command :: "string \<Rightarrow> server \<Rightarrow> response \<times> server" where
  "ffmpeg_command i srv = (case get_stream (streams_of srv) i of
     None \<Rightarrow> (write_error 404 (Said ''stream not found''), srv)
   | Some view \<Rightarrow> (case get_profile (streams_of srv) (cf_profile_name (sv_config view)) of
       None \<Rightarrow> (write_error 400 (Said ''profile not found''), srv)
     | Some p \<Rightarrow> finish 400 FromArgs (CommandLine (fc_path (ac_ffmpeg (srv_cfg srv))))
         (build_args (ffmpeg_stream (sv_config view)) p
           (with_log_level (system_config_from (ac_ffmpeg (srv_cfg srv))) (cf_log_level (sv_config view))), srv)))"

definition drop_logs :: "http_env \<Rightarrow> string \<Rightarrow> server \<Rightarrow> response \<times> server" where
  "drop_logs env i srv = (reply 204 NoContent, snd (on_streams ((), clear_logs (en_now env) i (streams_of srv)) srv))"

end
