(* ===== verification/ServerSrt.thy ===== *)
theory ServerSrt
  imports Server
begin

text \<open>
  The handlers of the SRT API (\<open>internal/server/server.go\<close>, from \<open>listSRTRelays\<close> on). A change of a
  relay or a client is applied by restarting the workers that run: \<open>None\<close> is a restart that has
  not ended within the turns given for it, which \<open>SrtManagerProps\<close> bounds.
\<close>

subsection \<open>Applying a change\<close>

definition error_of :: "('e, 'a) result \<Rightarrow> 'e option" where
  "error_of r = (case r of Inl e \<Rightarrow> Some e | Inr _ \<Rightarrow> None)"

text \<open>A running worker is restarted when its relay is enabled and stopped otherwise.\<close>

definition apply_relay :: "http_env \<Rightarrow> bool \<Rightarrow> string \<Rightarrow> manager \<Rightarrow> (manager_error option \<times> manager) option" where
  "apply_relay env enabled i m =
     (if enabled then map_option (\<lambda>(r, m'). (error_of r, m'))
        (restart_relay (en_now env) (en_delivered env) (en_srt_spawn env i) i (en_turns env i) m)
      else (case stop_relay (en_now env) (en_delivered env) i m of (r, m') \<Rightarrow> Some (error_of r, m')))"

text \<open>The loop over the relays of a client, which ends at the first error.\<close>

fun restart_each :: "http_env \<Rightarrow> string list \<Rightarrow> string list \<Rightarrow> manager \<Rightarrow> (string option \<times> manager) option" where
  "restart_each env seen [] m = Some (None, m)"
| "restart_each env seen (i # ids) m =
     (if i \<in> set seen \<or> \<not> is_running i m then restart_each env seen ids m
      else (case get_relay (en_now env) (mgr_store m) i of
        None \<Rightarrow> restart_each env (i # seen) ids m
      | Some view \<Rightarrow> (case apply_relay env (r_enabled (v_config view)) i m of
          None \<Rightarrow> None
        | Some (Some e, m') \<Rightarrow> Some (Some (''relay '' @ i @ '': '' @ manager_error_text e), m')
        | Some (None, m') \<Rightarrow> restart_each env (i # seen) ids m')))"

definition restart_srt_relays :: "http_env \<Rightarrow> string list \<Rightarrow> server \<Rightarrow> (string option \<times> server) option" where
  "restart_srt_relays env ids srv =
     map_option (\<lambda>(e, m). (e, srv\<lparr>srv_srt := m\<rparr>)) (restart_each env [] ids (srv_srt srv))"

definition restart_client_relays :: "http_env \<Rightarrow> client option \<Rightarrow> client \<Rightarrow> server \<Rightarrow> (string option \<times> server) option" where
  "restart_client_relays env previous current srv = restart_srt_relays env
     (c_allowed_relay_ids current @ (case previous of None \<Rightarrow> [] | Some p \<Rightarrow> c_allowed_relay_ids p)) srv"

definition record_event :: "http_env \<Rightarrow> audit_env \<Rightarrow> audit_event \<Rightarrow> server \<Rightarrow> server" where
  "record_event env aenv event srv = snd (on_relays (record_audit (en_audit_enc env) aenv event (relays_of srv)) srv)"

definition record_operator :: "http_env \<Rightarrow> user option \<Rightarrow> audit_event \<Rightarrow> server \<Rightarrow> server" where
  "record_operator env user event srv = record_event env (en_operator_audit env)
     (case user of None \<Rightarrow> event | Some u \<Rightarrow> event\<lparr>a_actor := us_username u\<rparr>) srv"

text \<open>A failed application is reported in a header of the response, and in the audit log.\<close>

definition apply_warning :: "http_env \<Rightarrow> string \<Rightarrow> string \<Rightarrow> string \<Rightarrow> response \<Rightarrow> server \<Rightarrow> response \<times> server" where
  "apply_warning env relay client e rs srv =
     (rs\<lparr>rs_warning := Some (''configuration persisted but running SRT relay restart failed: '' @ e)\<rparr>,
      record_event env (en_warning_audit env) (zero_audit_event\<lparr>a_type := ''configuration_apply_failed'', a_level := ''error'',
        a_relay_id := relay, a_client_id := client, a_reason := e\<rparr>) srv)"

definition warn_unless_applied :: "http_env \<Rightarrow> string \<Rightarrow> string \<Rightarrow> response \<Rightarrow> (string option \<times> server) option \<Rightarrow> (response \<times> server) option" where
  "warn_unless_applied env relay client rs applied = map_option (\<lambda>(e, srv). case e of
     None \<Rightarrow> (rs, srv)
   | Some text \<Rightarrow> apply_warning env relay client text rs srv) applied"

definition apply_to :: "http_env \<Rightarrow> bool \<Rightarrow> string \<Rightarrow> server \<Rightarrow> (string option \<times> server) option" where
  "apply_to env enabled i srv = map_option (\<lambda>(e, m). (map_option manager_error_text e, srv\<lparr>srv_srt := m\<rparr>))
     (apply_relay env enabled i (srv_srt srv))"

subsection \<open>Relays\<close>

definition show_relay :: "http_env \<Rightarrow> string \<Rightarrow> server \<Rightarrow> response \<times> server" where
  "show_relay env i srv = (case get_relay (en_now env) (relays_of srv) i of
     None \<Rightarrow> (write_error 404 (Said ''SRT relay not found''), srv)
   | Some view \<Rightarrow> (reply 200 (RelayAnswer view), srv))"

definition save_relay :: "http_env \<Rightarrow> user option \<Rightarrow> string \<Rightarrow> request \<Rightarrow> server \<Rightarrow> (response \<times> server) option" where
  "save_relay env user i rq srv = (case js_relay (en_json env) (rq_body rq) of
     Inl e \<Rightarrow> Some (write_error 400 (BadBody e), srv)
   | Inr body \<Rightarrow>
       let r = (if i \<noteq> [] then body\<lparr>r_id := i\<rparr> else body);
           was_running = is_running (r_id r) (srv_srt srv)
       in (case on_relays (upsert_relay (en_now env) (en_saved env) r (relays_of srv)) srv of
         (Inl e, srv1) \<Rightarrow> Some (write_error 400 (FromSrt e), srv1)
       | (Inr view, srv1) \<Rightarrow>
           let c = v_config view; rs = reply 200 (RelayAnswer view);
               srv2 = record_operator env user (zero_audit_event\<lparr>a_type := ''relay_config_saved'', a_relay_id := r_id c,
                 a_details := [(''name'', DString (r_name c)), (''listen_port'', DInt (r_port c))]\<rparr>) srv1
           in if was_running then warn_unless_applied env (r_id c) [] rs (apply_to env (r_enabled c) (r_id c) srv2)
              else Some (rs, srv2)))"

definition remove_relay :: "http_env \<Rightarrow> user option \<Rightarrow> string \<Rightarrow> server \<Rightarrow> response \<times> server" where
  "remove_relay env user i srv =
     (if is_running i (srv_srt srv) then (write_error 400 (Said ''relay must be stopped before deletion''), srv)
      else (case on_relays (delete_relay (en_now env) (en_saved env) i (relays_of srv)) srv of
        (Inl e, srv1) \<Rightarrow> (write_error 400 (FromSrt e), srv1)
      | (Inr deleted, srv1) \<Rightarrow>
          if \<not> deleted then (write_error 404 (Said ''SRT relay not found''), srv1)
          else (reply 204 NoContent, record_operator env user
            (zero_audit_event\<lparr>a_type := ''relay_config_deleted'', a_relay_id := i, a_level := ''warning''\<rparr>) srv1)))"

text \<open>After a start, a stop or a restart: its error, or the audit record and the relay.\<close>

definition then_show_relay :: "http_env \<Rightarrow> user option \<Rightarrow> string \<Rightarrow> string \<Rightarrow> (manager_error, 'a) result \<times> manager
    \<Rightarrow> server \<Rightarrow> response \<times> server" where
  "then_show_relay env user i type r srv = (case r of
     (Inl e, m) \<Rightarrow> (write_error 400 (FromManager e), srv\<lparr>srv_srt := m\<rparr>)
   | (Inr _, m) \<Rightarrow> show_relay env i
       (record_operator env user (zero_audit_event\<lparr>a_type := type, a_relay_id := i\<rparr>) (srv\<lparr>srv_srt := m\<rparr>)))"

definition start_relay_handler :: "http_env \<Rightarrow> user option \<Rightarrow> string \<Rightarrow> server \<Rightarrow> response \<times> server" where
  "start_relay_handler env user i srv = then_show_relay env user i ''relay_started''
     (start_relay (en_now env) (en_srt_spawn env i) i False (srv_srt srv)) srv"

definition stop_relay_handler :: "http_env \<Rightarrow> user option \<Rightarrow> string \<Rightarrow> server \<Rightarrow> response \<times> server" where
  "stop_relay_handler env user i srv = then_show_relay env user i ''relay_stopped''
     (stop_relay (en_now env) (en_delivered env) i (srv_srt srv)) srv"

definition restart_relay_handler :: "http_env \<Rightarrow> user option \<Rightarrow> string \<Rightarrow> server \<Rightarrow> (response \<times> server) option" where
  "restart_relay_handler env user i srv = map_option (\<lambda>r. then_show_relay env user i ''relay_restarted'' r srv)
     (restart_relay (en_now env) (en_delivered env) (en_srt_spawn env i) i (en_turns env i) (srv_srt srv))"

definition rotate_relay_handler :: "http_env \<Rightarrow> user option \<Rightarrow> string \<Rightarrow> server \<Rightarrow> (response \<times> server) option" where
  "rotate_relay_handler env user i srv =
     (if get_relay (en_now env) (relays_of srv) i = None then Some (write_error 404 (Said ''SRT relay not found''), srv)
      else (case on_relays (rotate_relay_key (en_now env) (en_saved env) i (relays_of srv)) srv of
        (Inl e, srv1) \<Rightarrow> Some (write_error 400 (FromSrt e), srv1)
      | (Inr view, srv1) \<Rightarrow>
          let rs = reply 200 (RelayAnswer view);
              srv2 = record_operator env user
                (zero_audit_event\<lparr>a_type := ''relay_key_rotated'', a_relay_id := i, a_level := ''warning''\<rparr>) srv1
          in if is_running i (srv_srt srv2) then warn_unless_applied env i [] rs (apply_to env True i srv2)
             else Some (rs, srv2)))"

subsection \<open>Clients\<close>

text \<open>
  \<open>strings.Contains(err.Error(), "already exists")\<close>: the text of the error for an existing client
  has it, and so have those that quote a relay of the request, when its name has it. The text of
  a failed save comes from the system and is taken not to have it.
\<close>

fun says_already_exists :: "store_error \<Rightarrow> bool" where
  "says_already_exists ClientExists = True"
| "says_already_exists (ClientInvalid (RelayUnknown i)) = contains_str i ''already exists''"
| "says_already_exists (ClientInvalid (RelayNotListener i)) = contains_str i ''already exists''"
| "says_already_exists _ = False"

definition save_client :: "http_env \<Rightarrow> user option \<Rightarrow> string \<Rightarrow> request \<Rightarrow> server \<Rightarrow> (response \<times> server) option" where
  "save_client env user i rq srv = (case js_client (en_json env) (rq_body rq) of
     Inl e \<Rightarrow> Some (write_error 400 (BadBody e), srv)
   | Inr body \<Rightarrow>
       let c = (if i \<noteq> [] then body\<lparr>c_id := i\<rparr> else body); previous = get_client (relays_of srv) (c_id c)
       in (case on_relays ((if i = [] then create_client else upsert_client) (en_now env) (en_saved env) c (relays_of srv)) srv of
         (Inl e, srv1) \<Rightarrow> Some (write_error (if i = [] \<and> says_already_exists e then 409 else 400) (FromSrt e), srv1)
       | (Inr credential, srv1) \<Rightarrow>
           let saved = cc_client credential;
               srv2 = record_operator env user (zero_audit_event\<lparr>a_type := ''client_config_saved'', a_client_id := c_id saved,
                 a_details := [(''allowed_relays'', DStrings (c_allowed_relay_ids saved)),
                   (''allowed_cidrs'', DStrings (c_allowed_cidrs saved)), (''encryption_mode'', DString (c_encryption_mode saved))]\<rparr>) srv1
           in warn_unless_applied env [] (c_id saved) (reply (if i = [] then 201 else 200) (Credential credential))
                (restart_client_relays env previous saved srv2)))"

definition rotate_client_handler :: "http_env \<Rightarrow> user option \<Rightarrow> string \<Rightarrow> server \<Rightarrow> (response \<times> server) option" where
  "rotate_client_handler env user i srv =
     (if get_client (relays_of srv) i = None then Some (write_error 404 (Said ''SRT client not found''), srv)
      else (case on_relays (rotate_client_key (en_now env) (en_saved env) i (relays_of srv)) srv of
        (Inl e, srv1) \<Rightarrow> Some (write_error 400 (FromSrt e), srv1)
      | (Inr credential, srv1) \<Rightarrow>
          warn_unless_applied env [] (c_id (cc_client credential)) (reply 200 (Credential credential))
            (restart_srt_relays env (c_allowed_relay_ids (cc_client credential))
              (record_operator env user (zero_audit_event\<lparr>a_type := ''client_key_rotated'', a_client_id := i, a_level := ''warning''\<rparr>) srv1))))"

definition remove_client :: "http_env \<Rightarrow> user option \<Rightarrow> string \<Rightarrow> server \<Rightarrow> (response \<times> server) option" where
  "remove_client env user i srv = (case on_relays (delete_client (en_now env) (en_saved env) i (relays_of srv)) srv of
     (Inl e, srv1) \<Rightarrow> Some (write_error 400 (FromSrt e), srv1)
   | (Inr deleted, srv1) \<Rightarrow>
       if \<not> deleted then Some (write_error 404 (Said ''SRT client not found''), srv1)
       else warn_unless_applied env [] i (reply 204 NoContent)
         (restart_srt_relays env (case get_client (relays_of srv) i of None \<Rightarrow> [] | Some c \<Rightarrow> c_allowed_relay_ids c)
           (record_operator env user (zero_audit_event\<lparr>a_type := ''client_deleted'', a_client_id := i, a_level := ''warning''\<rparr>) srv1)))"

subsection \<open>Sessions and audit\<close>

definition list_sessions_handler :: "request \<Rightarrow> server \<Rightarrow> response \<times> server" where
  "list_sessions_handler rq srv = (reply 200 (Sessions
     (list_sessions (query_get (parse_query (rq_query rq)) ''active'' = ''true'') (relays_of srv))), srv)"

definition audit_filter_of :: "request \<Rightarrow> int \<Rightarrow> audit_filter" where
  "audit_filter_of rq limit = (let q = parse_query (rq_query rq) in
     \<lparr>f_relay_id = query_get q ''relay_id'', f_client_id = query_get q ''client_id'', f_type = query_get q ''type'', f_limit = limit\<rparr>)"

definition list_audit_handler :: "http_env \<Rightarrow> request \<Rightarrow> server \<Rightarrow> response \<times> server" where
  "list_audit_handler env rq srv = finish 500 FromAudit AuditEvents
     (audit_list (en_audit_dec env) (en_audit_dir env) (en_audit_file env) (audit_filter_of rq (query_limit rq))
       (sto_audit (relays_of srv)), srv)"

definition clear_audit_handler :: "http_env \<Rightarrow> user option \<Rightarrow> request \<Rightarrow> server \<Rightarrow> response \<times> server" where
  "clear_audit_handler env user rq srv = (let f = audit_filter_of rq 0 in
     (case audit_clear (en_audit_dec env) (en_audit_dir env) (en_audit_file env) f (sto_audit (relays_of srv)) of (cleared, err, dir) \<Rightarrow>
       let srv1 = snd (on_relays ((), (relays_of srv)\<lparr>sto_audit := dir\<rparr>) srv) in
       (case err of
         Some e \<Rightarrow> (write_error 500 (FromAudit e), srv1)
       | None \<Rightarrow> (reply 204 NoContent, record_operator env user (zero_audit_event\<lparr>a_type := ''audit_cleared'', a_level := ''warning'',
           a_relay_id := f_relay_id f, a_client_id := f_client_id f,
           a_details := [(''type'', DString (f_type f)), (''cleared'', DInt (int cleared))]\<rparr>) srv1))))"

end
