(* ===== verification/ServerRoutes.thy ===== *)
theory ServerRoutes
  imports ServerSrt
begin

text \<open>
  The routes of the server, the middleware in front of them, and the life of the server
  (\<open>internal/server/server.go\<close>: \<open>New\<close>, \<open>Run\<close>, \<open>handler\<close>, \<open>withSRT\<close>, \<open>auth\<close>, \<open>web\<close>).
\<close>

subsection \<open>Routes\<close>

datatype main_endpoint =
    GetHealth | GetRequired | PostLogin | PostRefresh | GetVerify | PostChangePassword | GetDoctor | GetEvents | GetMetrics
  | GetSystem | GetLogs | DeleteLogs | GetUsers | PostUser | PutUserPassword | DeleteUser | PostProbe | GetProfiles
  | SaveProfile | GetProfile | DeleteProfile | GetStreams | SaveStream | GetStream | DeleteStream | StartStream | StopStream
  | RestartStream | GetCommand | GetStreamLogs | DeleteStreamLogs

datatype srt_endpoint =
    GetRelays | SaveRelay | GetRelay | DeleteRelay | StartRelay | StopRelay | RestartRelay | RotateRelay
  | GetClients | SaveClient | DeleteClient | RotateClient | GetSessions | GetAudit | DeleteAudit

datatype endpoint = Main main_endpoint | WithSrt srt_endpoint | Web

definition routes :: "(string \<times> string \<times> endpoint) list" where
  "routes =
     [(''GET'', ''/api/health'', Main GetHealth),
      (''GET'', ''/api/auth/required'', Main GetRequired),
      (''POST'', ''/api/auth/login'', Main PostLogin),
      (''POST'', ''/api/auth/refresh'', Main PostRefresh),
      (''GET'', ''/api/auth/verify'', Main GetVerify),
      (''POST'', ''/api/auth/change-password'', Main PostChangePassword),
      (''GET'', ''/api/doctor'', Main GetDoctor),
      (''GET'', ''/api/events'', Main GetEvents),
      (''GET'', ''/api/metrics'', Main GetMetrics),
      (''GET'', ''/api/system'', Main GetSystem),
      (''GET'', ''/api/logs'', Main GetLogs),
      (''DELETE'', ''/api/logs'', Main DeleteLogs),
      (''GET'', ''/api/users'', Main GetUsers),
      (''POST'', ''/api/users'', Main PostUser),
      (''PUT'', ''/api/users/{username}/password'', Main PutUserPassword),
      (''DELETE'', ''/api/users/{username}'', Main DeleteUser),
      (''POST'', ''/api/probe'', Main PostProbe),
      (''GET'', ''/api/profiles'', Main GetProfiles),
      (''POST'', ''/api/profiles'', Main SaveProfile),
      (''GET'', ''/api/profiles/{name}'', Main GetProfile),
      (''PUT'', ''/api/profiles/{name}'', Main SaveProfile),
      (''DELETE'', ''/api/profiles/{name}'', Main DeleteProfile),
      (''GET'', ''/api/streams'', Main GetStreams),
      (''POST'', ''/api/streams'', Main SaveStream),
      (''GET'', ''/api/streams/{id}'', Main GetStream),
      (''PUT'', ''/api/streams/{id}'', Main SaveStream),
      (''DELETE'', ''/api/streams/{id}'', Main DeleteStream),
      (''POST'', ''/api/streams/{id}/start'', Main StartStream),
      (''POST'', ''/api/streams/{id}/stop'', Main StopStream),
      (''POST'', ''/api/streams/{id}/restart'', Main RestartStream),
      (''GET'', ''/api/streams/{id}/ffmpeg-command'', Main GetCommand),
      (''GET'', ''/api/streams/{id}/logs'', Main GetStreamLogs),
      (''DELETE'', ''/api/streams/{id}/logs'', Main DeleteStreamLogs),
      (''GET'', ''/api/srt/relays'', WithSrt GetRelays),
      (''POST'', ''/api/srt/relays'', WithSrt SaveRelay),
      (''GET'', ''/api/srt/relays/{id}'', WithSrt GetRelay),
      (''PUT'', ''/api/srt/relays/{id}'', WithSrt SaveRelay),
      (''DELETE'', ''/api/srt/relays/{id}'', WithSrt DeleteRelay),
      (''POST'', ''/api/srt/relays/{id}/start'', WithSrt StartRelay),
      (''POST'', ''/api/srt/relays/{id}/stop'', WithSrt StopRelay),
      (''POST'', ''/api/srt/relays/{id}/restart'', WithSrt RestartRelay),
      (''POST'', ''/api/srt/relays/{id}/rotate-key'', WithSrt RotateRelay),
      (''GET'', ''/api/srt/clients'', WithSrt GetClients),
      (''POST'', ''/api/srt/clients'', WithSrt SaveClient),
      (''PUT'', ''/api/srt/clients/{id}'', WithSrt SaveClient),
      (''DELETE'', ''/api/srt/clients/{id}'', WithSrt DeleteClient),
      (''POST'', ''/api/srt/clients/{id}/rotate-key'', WithSrt RotateClient),
      (''GET'', ''/api/srt/sessions'', WithSrt GetSessions),
      (''GET'', ''/api/srt/audit'', WithSrt GetAudit),
      (''DELETE'', ''/api/srt/audit'', WithSrt DeleteAudit)]"

subsection \<open>Handlers\<close>

fun main_handler :: "http_env \<Rightarrow> main_endpoint \<Rightarrow> string \<Rightarrow> request \<Rightarrow> server \<Rightarrow> response \<times> server" where
  "main_handler env GetHealth v rq srv = (reply 200 Health, srv)"
| "main_handler env GetRequired v rq srv = (reply 200 Required, srv)"
| "main_handler env PostLogin v rq srv = login env rq srv"
| "main_handler env PostRefresh v rq srv = refresh_tokens env rq srv"
| "main_handler env GetVerify v rq srv = verify_user env rq srv"
| "main_handler env PostChangePassword v rq srv = change_own_password env rq srv"
| "main_handler env GetDoctor v rq srv = doctor env srv"
| "main_handler env GetEvents v rq srv = open_events env srv"
| "main_handler env GetMetrics v rq srv = (reply 200 (StreamViews (list_streams (streams_of srv))), srv)"
| "main_handler env GetSystem v rq srv = (reply 200 (System (current_snapshot (en_now env) (en_cores env) (srv_sys srv))), srv)"
| "main_handler env GetLogs v rq srv = (reply 200 (LogEntries (stream_logs [] (query_limit rq) (streams_of srv))), srv)"
| "main_handler env DeleteLogs v rq srv = drop_logs env [] srv"
| "main_handler env GetUsers v rq srv = (reply 200 (Accounts (list_users (streams_of srv))), srv)"
| "main_handler env PostUser v rq srv = post_user env rq srv"
| "main_handler env PutUserPassword v rq srv = change_user_password env v rq srv"
| "main_handler env DeleteUser v rq srv = remove_user env v srv"
| "main_handler env PostProbe v rq srv = probe env rq srv"
| "main_handler env GetProfiles v rq srv = (reply 200 (Profiles (list_profiles (streams_of srv))), srv)"
| "main_handler env SaveProfile v rq srv = save_profile env v rq srv"
| "main_handler env GetProfile v rq srv = show_profile v srv"
| "main_handler env DeleteProfile v rq srv = remove_profile env v srv"
| "main_handler env GetStreams v rq srv = (reply 200 (StreamViews (list_streams (streams_of srv))), srv)"
| "main_handler env SaveStream v rq srv = save_stream env v rq srv"
| "main_handler env GetStream v rq srv = show_stream v srv"
| "main_handler env DeleteStream v rq srv = remove_stream env v srv"
| "main_handler env StartStream v rq srv = start_handler env v srv"
| "main_handler env StopStream v rq srv = stop_handler env v srv"
| "main_handler env RestartStream v rq srv = restart_handler env v srv"
| "main_handler env GetCommand v rq srv = ffmpeg_command v srv"
| "main_handler env GetStreamLogs v rq srv = (reply 200 (LogEntries (stream_logs v (query_limit rq) (streams_of srv))), srv)"
| "main_handler env DeleteStreamLogs v rq srv = drop_logs env v srv"

fun srt_handler :: "http_env \<Rightarrow> user option \<Rightarrow> srt_endpoint \<Rightarrow> string \<Rightarrow> request \<Rightarrow> server \<Rightarrow> (response \<times> server) option" where
  "srt_handler env user GetRelays v rq srv = Some (reply 200 (RelayViews (list_relays (en_now env) (relays_of srv))), srv)"
| "srt_handler env user SaveRelay v rq srv = save_relay env user v rq srv"
| "srt_handler env user GetRelay v rq srv = Some (show_relay env v srv)"
| "srt_handler env user DeleteRelay v rq srv = Some (remove_relay env user v srv)"
| "srt_handler env user StartRelay v rq srv = Some (start_relay_handler env user v srv)"
| "srt_handler env user StopRelay v rq srv = Some (stop_relay_handler env user v srv)"
| "srt_handler env user RestartRelay v rq srv = restart_relay_handler env user v srv"
| "srt_handler env user RotateRelay v rq srv = rotate_relay_handler env user v srv"
| "srt_handler env user GetClients v rq srv = Some (reply 200 (ClientList (list_clients (relays_of srv))), srv)"
| "srt_handler env user SaveClient v rq srv = save_client env user v rq srv"
| "srt_handler env user DeleteClient v rq srv = remove_client env user v srv"
| "srt_handler env user RotateClient v rq srv = rotate_client_handler env user v srv"
| "srt_handler env user GetSessions v rq srv = Some (list_sessions_handler rq srv)"
| "srt_handler env user GetAudit v rq srv = Some (list_audit_handler env rq srv)"
| "srt_handler env user DeleteAudit v rq srv = Some (clear_audit_handler env user rq srv)"

definition with_srt :: "server \<Rightarrow> (response \<times> server) option \<Rightarrow> (response \<times> server) option" where
  "with_srt srv next = (case srv_srt_error srv of
     Some e \<Rightarrow> Some (write_error 503 (SrtUnavailable e), srv)
   | None \<Rightarrow> next)"

text \<open>The files of the user interface; every other path shows its start page.\<close>

definition web :: "http_env \<Rightarrow> request \<Rightarrow> response" where
  "web env rq = (let path = trim_prefix (rq_path rq) ''/'' in
     if path \<noteq> [] \<and> en_static env path then reply 200 (Page (rq_path rq)) else reply 200 (Page ''/''))"

definition handle :: "http_env \<Rightarrow> user option \<Rightarrow> endpoint \<Rightarrow> string list \<Rightarrow> request \<Rightarrow> server \<Rightarrow> (response \<times> server) option" where
  "handle env user e vals rq srv = (let v = (case vals of [] \<Rightarrow> [] | x # _ \<Rightarrow> x) in
     case e of
       Main m \<Rightarrow> Some (main_handler env m v rq srv)
     | WithSrt m \<Rightarrow> with_srt srv (srt_handler env user m v rq srv)
     | Web \<Rightarrow> Some (web env rq, srv))"

text \<open>The multiplexer: a path that is not clean is redirected, except for \<open>CONNECT\<close>.\<close>

definition serve_mux :: "http_env \<Rightarrow> user option \<Rightarrow> request \<Rightarrow> server \<Rightarrow> (response \<times> server) option" where
  "serve_mux env user rq srv =
     (if rq_method rq \<noteq> ''CONNECT'' \<and> clean_path (rq_escaped rq) \<noteq> rq_escaped rq
      then Some (reply 301 (Redirect (clean_path (rq_escaped rq))), srv)
      else (case dispatch routes Web (rq_method rq) (rq_escaped rq) of (e, vals) \<Rightarrow> handle env user e vals rq srv))"

definition serve :: "http_env \<Rightarrow> request \<Rightarrow> server \<Rightarrow> (response \<times> server) option" where
  "serve env rq srv =
     (if open_path (rq_path rq) then serve_mux env None rq srv
      else (case user_from_request env ''access'' rq srv of
        Inl f \<Rightarrow> Some (write_error 401 f, srv)
      | Inr u \<Rightarrow> serve_mux env (Some u) rq srv))"

subsection \<open>Start and shutdown\<close>

text \<open>
  The stores as they are opened: the key file, the state file and the outcomes of the system
  are arguments. When the SRT store cannot be opened the server runs with an empty one in a
  temporary directory and refuses the SRT API.
\<close>

definition open_srt_store :: "gotime \<Rightarrow> srt_config \<Rightarrow> file_read \<Rightarrow> octets option \<Rightarrow> bool \<Rightarrow> audit_dir \<Rightarrow> bool \<Rightarrow> persisted option
    \<Rightarrow> (srt_open_error, store) result" where
  "open_srt_store now c key_file random writable dir readable state =
     (case fst (load_or_create_master_key (rc_master_key_path c) key_file random writable) of
       Inl e \<Rightarrow> Inl (MasterKeyFailed e)
     | Inr key \<Rightarrow> (case new_audit_store (rc_audit_dir c) (rc_audit_retention_days c) of
         Inl e \<Rightarrow> Inl (AuditStoreFailed e)
       | Inr retention \<Rightarrow> (case new_store now (rc_state_path c) key retention dir readable state of
           Inl e \<Rightarrow> Inl (SrtStoreFailed e)
         | Inr s \<Rightarrow> Inr s)))"

definition new_ephemeral_store :: "bool \<Rightarrow> octets option \<Rightarrow> store option" where
  "new_ephemeral_store made random = (if \<not> made then None
     else map_option (\<lambda>key. empty_store [] key 1 [] None) random)"

datatype server_error = StreamStoreFailed stream_error | FallbackFailed

definition new_server :: "gotime \<Rightarrow> app_config \<Rightarrow> (stream_error, stream_store) result \<Rightarrow> (srt_open_error, store) result \<Rightarrow> store option
    \<Rightarrow> (server_error, server) result" where
  "new_server now cfg stream_store srt_store fallback = (case stream_store of
     Inl e \<Rightarrow> Inl (StreamStoreFailed e)
   | Inr s \<Rightarrow>
       let server = (\<lambda>srt err. \<lparr>srv_cfg = cfg,
             srv_jobs = new_job_manager (fc_path (ac_ffmpeg cfg)) (system_config_from (ac_ffmpeg cfg)) s,
             srv_srt = new_manager (rc_worker_path (ac_srt cfg)) srt, srv_srt_error = err,
             srv_sys = new_collector now []\<rparr>)
       in (case srt_store of
         Inr srt \<Rightarrow> Inr (server srt None)
       | Inl e \<Rightarrow> (case fallback of None \<Rightarrow> Inl FallbackFailed | Some srt \<Rightarrow> Inr (server srt (Some e)))))"

definition start_server :: "http_env \<Rightarrow> server \<Rightarrow> server" where
  "start_server env srv = (if srv_srt_error srv = None
     then srv\<lparr>srv_srt := start_enabled (en_now env) (en_srt_spawn env) (srv_srt srv)\<rparr> else srv)"

definition shutdown :: "http_env \<Rightarrow> server \<Rightarrow> server" where
  "shutdown env srv = srv\<lparr>srv_jobs := stop_all_streams (en_now env) (\<lambda>_. en_others env) (srv_jobs srv),
     srv_srt := stop_all (en_now env) (\<lambda>_. en_delivered env) (srv_srt srv)\<rparr>"

end
