(* ===== verification/ServerStores.thy ===== *)
theory ServerStores
  imports ServerRoutes SrtStoreProps StreamStoreLaws
begin

text \<open>
  The stores of a running server: every request, whatever its path and body and whoever sent
  it, changes them only by their own operations, so that what holds in every reachable store
  holds in every server. The interference of other goroutines is taken to do the same.
\<close>

subsection \<open>Changes by the operations of the stores\<close>

definition streams_go :: "job_manager \<Rightarrow> job_manager \<Rightarrow> bool" where
  "streams_go m m' \<longleftrightarrow> stream_step\<^sup>*\<^sup>* (jm_store m) (jm_store m')"

definition relays_go :: "audit_enc \<Rightarrow> manager \<Rightarrow> manager \<Rightarrow> bool" where
  "relays_go enc m m' \<longleftrightarrow> (store_step enc)\<^sup>*\<^sup>* (mgr_store m) (mgr_store m')"

definition stores_go :: "audit_enc \<Rightarrow> server \<Rightarrow> server \<Rightarrow> bool" where
  "stores_go enc srv srv' \<longleftrightarrow> streams_go (srv_jobs srv) (srv_jobs srv') \<and> relays_go enc (srv_srt srv) (srv_srt srv')"

definition benign :: "audit_enc \<Rightarrow> http_env \<Rightarrow> bool" where
  "benign enc env \<longleftrightarrow> en_audit_enc env = enc \<and> (\<forall>m. streams_go m (en_others env m))
     \<and> (\<forall>i. \<forall>(t, f) \<in> set (en_turns env i). \<forall>m. relays_go enc m (f m))"

lemma go_refl [simp]: "streams_go m m" "relays_go enc n n" "stores_go enc srv srv"
  by (simp_all add: stores_go_def streams_go_def relays_go_def)

lemma streams_go_trans: "streams_go m m1 \<Longrightarrow> streams_go m1 m2 \<Longrightarrow> streams_go m m2"
  unfolding streams_go_def by (rule rtranclp_trans)

lemma relays_go_trans: "relays_go enc m m1 \<Longrightarrow> relays_go enc m1 m2 \<Longrightarrow> relays_go enc m m2"
  unfolding relays_go_def by (rule rtranclp_trans)

lemma stores_go_trans: "stores_go enc a b \<Longrightarrow> stores_go enc b c \<Longrightarrow> stores_go enc a c"
  unfolding stores_go_def using streams_go_trans relays_go_trans by blast

lemma streams_go_step: "stream_step (jm_store m) s \<Longrightarrow> jm_store m' = s \<Longrightarrow> streams_go m m'"
  by (simp add: streams_go_def)

lemma relays_go_step: "store_step enc (mgr_store m) s \<Longrightarrow> mgr_store m' = s \<Longrightarrow> relays_go enc m m'"
  by (simp add: relays_go_def)

lemma streams_go_cong: "jm_store m' = jm_store m \<Longrightarrow> streams_go n m' = streams_go n m"
  by (simp add: streams_go_def)

lemma relays_go_cong: "mgr_store m' = mgr_store m \<Longrightarrow> relays_go enc n m' = relays_go enc n m"
  by (simp add: relays_go_def)

text \<open>One operation of a store, inside a server.\<close>

lemma on_streams_go: "stream_step (streams_of srv) (snd r) \<Longrightarrow> stores_go enc srv (snd (on_streams r srv))"
  by (simp add: stores_go_def on_streams_def streams_go_def)

lemma on_relays_go: "store_step enc (relays_of srv) (snd r) \<Longrightarrow> stores_go enc srv (snd (on_relays r srv))"
  by (simp add: stores_go_def on_relays_def relays_go_def)

lemma on_jobs_go: "streams_go (srv_jobs srv) (snd r) \<Longrightarrow> stores_go enc srv (snd (on_jobs r srv))"
  by (simp add: stores_go_def on_jobs_def)

lemma srt_go: "relays_go enc (srv_srt srv) m \<Longrightarrow> stores_go enc srv (srv\<lparr>srv_srt := m\<rparr>)"
  by (simp add: stores_go_def)

subsection \<open>The managers\<close>

lemma set_stream_go: "streams_go m (set_stream now i f m)"
  by (rule streams_go_step [OF stream_step.update_state]) (simp add: set_stream_def)

lemma start_stream_go: "streams_go m (snd (start_stream now sp i r m))"
proof (cases "start_args i m")
  case (Inr a)
  obtain x m1 where c: "job_claim sp i r m = (x, m1)" by fastforce
  then have s: "jm_store m1 = jm_store m" by (auto simp: job_claim_def Let_def split: if_splits spawn.splits)
  then have "streams_go m (set_stream now i f m1)" for f
    by (intro streams_go_step [OF stream_step.update_state]) (simp add: set_stream_def)
  moreover have "streams_go m m1" using s streams_go_cong go_refl by blast
  ultimately show ?thesis by (auto simp: start_stream_def Inr c split: sum.split job_error.split)
qed (simp add: start_stream_def)

lemma stop_stream_go:
  assumes "\<forall>m. streams_go m (others m)"
  shows "streams_go m (snd (stop_stream now others i m))"
proof (cases "get (jm_jobs m) i")
  case (Some job)
  let ?m = "m\<lparr>jm_jobs := put i (job\<lparr>sj_stopping := True\<rparr>) (jm_jobs m), jm_restarts := del i (jm_restarts m)\<rparr>"
  have "streams_go m (job_stop_publish now i (cancel_job (sj_token job) ?m))"
    by (rule streams_go_step [OF stream_step.update_state]) (simp add: job_stop_publish_def set_stream_def cancel_job_def)
  then have "streams_go m (others (job_stop_publish now i (cancel_job (sj_token job) ?m)))"
    using assms streams_go_trans by blast
  then show ?thesis using Some by (simp add: stop_stream_def job_stop_claim_def Let_def)
qed (simp add: stop_stream_def job_stop_claim_def)

lemma set_state_go: "relays_go enc m (set_state now i f m)"
  by (rule relays_go_step [OF step_update_state]) (simp add: set_state_def)

lemma start_relay_go: "relays_go enc m (snd (start_relay now se i r m))"
proof -
  obtain x m1 where c: "start_claim now se i r m = (x, m1)" by fastforce
  then have s: "mgr_store m1 = mgr_store m"
    by (auto simp: start_claim_def Let_def split: option.splits sum.splits if_splits)
  then have "relays_go enc m (start_publish now i r pid m1)" for pid
    by (intro relays_go_step [OF step_update_state]) (simp add: start_publish_def set_state_def)
  moreover have "relays_go enc m m1" using s relays_go_cong go_refl by blast
  ultimately show ?thesis by (auto simp: start_relay_def c split: sum.split prod.split)
qed

lemma stop_relay_go: "relays_go enc m (snd (stop_relay now delivered i m))"
proof (cases "get (mgr_jobs m) i")
  case (Some job)
  then show ?thesis
    by (intro relays_go_step [OF step_update_state])
      (simp add: stop_relay_def stop_claim_def stop_signal_def arm_def stop_publish_def set_state_def)
qed (simp add: stop_relay_def stop_claim_def)

lemma await_stop_go:
  "await_stop deadline se i turns m = Some (r, m') \<Longrightarrow> \<forall>(t, f) \<in> set turns. \<forall>m. relays_go enc m (f m) \<Longrightarrow> relays_go enc m m'"
proof (induction deadline se i turns m rule: await_stop.induct)
  case (2 deadline se i now others turns m)
  show ?case
  proof (cases "deadline \<le> now \<or> \<not> has_key (mgr_jobs m) i")
    case True
    then show ?thesis using 2(2) start_relay_go [of enc m now se i False] by (auto split: if_splits)
  next
    case False
    then have "relays_go enc (others m) m'" using 2 by auto
    moreover have "relays_go enc m (others m)" using 2(3) by auto
    ultimately show ?thesis using relays_go_trans by blast
  qed
qed simp

lemma restart_relay_go:
  assumes "restart_relay now delivered se i turns m = Some (r, m')" "\<forall>(t, f) \<in> set turns. \<forall>m. relays_go enc m (f m)"
  shows "relays_go enc m m'"
proof -
  obtain r1 m1 where s: "stop_relay now delivered i m = (r1, m1)" by fastforce
  have e: "relays_go enc m m1" using stop_relay_go [of enc m now delivered i] s by simp
  show ?thesis
  proof (cases r1)
    case (Inl x)
    then show ?thesis using assms(1) e by (auto simp: restart_relay_def s)
  next
    case (Inr u)
    then have "await_stop (time_add now (seconds 6)) se i turns m1 = Some (r, m')" using assms(1) by (simp add: restart_relay_def s)
    then show ?thesis using e await_stop_go [OF _ assms(2)] relays_go_trans by blast
  qed
qed

subsection \<open>Handlers of streams and accounts\<close>

lemma finish_srv [simp]: "snd (finish status wrap body r) = snd r" "snd (finish_delete status wrap what q) = snd q"
  by (auto simp: finish_def finish_delete_def split: sum.splits prod.splits)

lemma then_show_srv [simp]: "snd (then_show i r) = snd r"
  by (auto simp: then_show_def show_stream_def split: sum.splits prod.splits option.splits)

lemma read_json_go: "(\<And>v. stores_go enc srv (snd (handler v))) \<Longrightarrow> stores_go enc srv (snd (read_json handler srv body))"
  by (simp add: read_json_def split: sum.split)

lemma with_user_go: "(\<And>u. stores_go enc srv (snd (handler u))) \<Longrightarrow> stores_go enc srv (snd (with_user env rq handler srv))"
  by (simp add: with_user_def split: sum.split)

lemma benign_others: "benign enc env \<Longrightarrow> \<forall>m. streams_go m (en_others env m)"
  by (simp add: benign_def)

lemma start_job_go: "stores_go enc srv (snd (start_job env i srv))"
  unfolding start_job_def by (intro on_jobs_go start_stream_go)

lemma stop_job_go: "benign enc env \<Longrightarrow> stores_go enc srv (snd (stop_job env i srv))"
  unfolding stop_job_def by (intro on_jobs_go stop_stream_go benign_others)

lemma restart_handler_go: "benign enc env \<Longrightarrow> stores_go enc srv (snd (restart_handler env i srv))"
  unfolding restart_handler_def then_show_srv by (rule stores_go_trans [OF stop_job_go start_job_go])

lemma remove_stream_go: "benign enc env \<Longrightarrow> stores_go enc srv (snd (remove_stream env i srv))"
  unfolding remove_stream_def Let_def finish_srv
  by (rule stores_go_trans [OF stop_job_go on_streams_go]) (simp_all add: stream_step.delete)

lemma open_events_go: "stores_go enc srv (snd (open_events env srv))"
  unfolding open_events_def snd_conv
  by (rule stores_go_trans [OF on_streams_go on_relays_go]) (simp_all add: stream_step.subscribe step_subscribe on_streams_def)

lemma close_events_go: "stores_go enc srv (close_events c srv)"
  unfolding close_events_def
  by (rule stores_go_trans [OF on_streams_go on_relays_go]) (simp_all add: stream_step.unsubscribe step_unsubscribe on_streams_def)

lemma drop_logs_go: "stores_go enc srv (snd (drop_logs env i srv))"
  unfolding drop_logs_def snd_conv by (rule on_streams_go) (simp add: stream_step.clear)

lemma post_user_go: "stores_go enc srv (snd (post_user env rq srv))"
proof -
  have "snd (case r of (Inl e, s) \<Rightarrow> (write_error 400 (FromStreams e), s) | (Inr u, s) \<Rightarrow> (reply 201 (Account u), s)) = snd r"
    for r :: "(stream_error, public_user) result \<times> server"
    by (auto split: prod.split sum.split)
  then show ?thesis unfolding post_user_def
    by (intro read_json_go) (simp add: case_prod_beta on_streams_go stream_step.create_user)
qed

lemma account_go:
  "stores_go enc srv (snd (change_own_password env rq srv))" "stores_go enc srv (snd (change_user_password env name rq srv))"
  "stores_go enc srv (snd (remove_user env name srv))"
  unfolding change_own_password_def change_user_password_def remove_user_def
  by (auto intro!: with_user_go read_json_go on_streams_go stream_step.intros)

lemma config_go:
  "stores_go enc srv (snd (save_profile env name rq srv))" "stores_go enc srv (snd (remove_profile env name srv))"
  "stores_go enc srv (snd (save_stream env i rq srv))"
  unfolding save_profile_def remove_profile_def save_stream_def
  by (auto intro!: read_json_go on_streams_go stream_step.intros)

lemma reading_go:
  "snd (show_profile v srv) = srv" "snd (show_stream v srv) = srv" "snd (ffmpeg_command v srv) = srv"
  "stores_go enc srv (snd (login env rq srv))" "stores_go enc srv (snd (refresh_tokens env rq srv))"
  "stores_go enc srv (snd (verify_user env rq srv))" "stores_go enc srv (snd (probe env rq srv))" "snd (doctor env srv) = srv"
  by (auto simp: show_profile_def show_stream_def ffmpeg_command_def login_def refresh_tokens_def verify_user_def probe_def
      doctor_def Let_def intro!: read_json_go with_user_go split: option.splits)

lemma main_handler_go: "benign enc env \<Longrightarrow> stores_go enc srv (snd (main_handler env m v rq srv))"
  by (cases m) (simp_all add: reading_go account_go config_go post_user_go drop_logs_go open_events_go remove_stream_go
      restart_handler_go start_handler_def stop_handler_def start_job_go stop_job_go)

subsection \<open>Handlers of the SRT API\<close>

lemma apply_relay_go:
  assumes "apply_relay env enabled i m = Some (e, m')" "benign enc env"
  shows "relays_go enc m m'"
proof (cases enabled)
  case True
  then obtain r where r: "restart_relay (en_now env) (en_delivered env) (en_srt_spawn env i) i (en_turns env i) m = Some (r, m')"
    using assms(1) by (auto simp: apply_relay_def)
  show ?thesis using assms(2) by (intro restart_relay_go [OF r]) (simp add: benign_def)
next
  case False
  then show ?thesis using assms(1) stop_relay_go [of enc m "en_now env" "en_delivered env" i]
    by (simp add: apply_relay_def split: prod.splits)
qed

lemma restart_each_go: "restart_each env seen ids m = Some (e, m') \<Longrightarrow> benign enc env \<Longrightarrow> relays_go enc m m'"
proof (induction env seen ids m rule: restart_each.induct)
  case (2 env seen i ids m)
  show ?case
  proof (cases "i \<in> set seen \<or> \<not> is_running i m")
    case True then show ?thesis using 2 by simp
  next
    case run: False
    show ?thesis
    proof (cases "get_relay (en_now env) (mgr_store m) i")
      case None then show ?thesis using 2 run by simp
    next
      case (Some view)
      then obtain x m1 where a: "apply_relay env (r_enabled (v_config view)) i m = Some (x, m1)"
        using 2(4) run by (auto split: option.splits)
      have g: "relays_go enc m m1" by (rule apply_relay_go [OF a 2(5)])
      show ?thesis
      proof (cases x)
        case None
        then have "restart_each env (i # seen) ids m1 = Some (e, m')" using 2(4) run Some a by simp
        then show ?thesis using 2(3) [OF run Some a] None g 2(5) relays_go_trans by blast
      next
        case (Some y) then show ?thesis using 2(4) run \<open>get_relay _ _ i = Some view\<close> a g by simp
      qed
    qed
  qed
qed simp

lemma record_operator_go: "benign enc env \<Longrightarrow> stores_go enc srv (record_operator env user event srv)"
  unfolding record_operator_def record_event_def benign_def by (intro on_relays_go) (auto intro: step_record_audit)

lemma restart_srt_relays_go: "restart_srt_relays env ids srv = Some (e, srv') \<Longrightarrow> benign enc env \<Longrightarrow> stores_go enc srv srv'"
  by (auto simp: restart_srt_relays_def intro!: srt_go restart_each_go)

lemma apply_to_go: "apply_to env enabled i srv = Some (e, srv') \<Longrightarrow> benign enc env \<Longrightarrow> stores_go enc srv srv'"
  by (auto simp: apply_to_def intro!: srt_go apply_relay_go)

lemma apply_warning_go: "benign enc env \<Longrightarrow> stores_go enc srv (snd (apply_warning env relay client e rs srv))"
  unfolding apply_warning_def record_event_def snd_conv benign_def by (intro on_relays_go) (auto intro: step_record_audit)

text \<open>An operation of the store, the record of it, and its application to the workers.\<close>

lemma warn_go:
  assumes "warn_unless_applied env relay client rs applied = Some (rs', srv')" "benign enc env"
    "\<And>e s. applied = Some (e, s) \<Longrightarrow> stores_go enc srv s"
  shows "stores_go enc srv srv'"
proof -
  obtain e s where a: "applied = Some (e, s)" using assms(1) by (auto simp: warn_unless_applied_def)
  have "stores_go enc s (snd (apply_warning env relay client x rs s))" for x by (rule apply_warning_go [OF assms(2)])
  then have "stores_go enc s srv'" using assms(1) a
    by (auto simp: warn_unless_applied_def split: option.splits) (metis snd_conv)
  then show ?thesis using assms(3) [OF a] stores_go_trans by blast
qed

lemma persisted_go:
  "on_relays r srv = (x, srv1) \<Longrightarrow> store_step enc (relays_of srv) (snd r) \<Longrightarrow> stores_go enc srv srv1"
  using on_relays_go [of enc srv r] by simp

lemma recorded_go: "benign enc env \<Longrightarrow> stores_go enc srv srv1 \<Longrightarrow> stores_go enc srv (record_operator env user event srv1)"
  using record_operator_go stores_go_trans by blast

lemma applied_go:
  "warn_unless_applied env a b rs (apply_to env enabled i srv1) = Some (rs', srv') \<Longrightarrow> benign enc env \<Longrightarrow> stores_go enc srv srv1
    \<Longrightarrow> stores_go enc srv srv'"
  using warn_go [of env a b rs "apply_to env enabled i srv1" rs' srv' enc srv1] apply_to_go stores_go_trans by blast

lemma restarted_go:
  "warn_unless_applied env a b rs (restart_srt_relays env ids srv1) = Some (rs', srv') \<Longrightarrow> benign enc env \<Longrightarrow> stores_go enc srv srv1
    \<Longrightarrow> stores_go enc srv srv'"
  using warn_go [of env a b rs "restart_srt_relays env ids srv1" rs' srv' enc srv1] restart_srt_relays_go stores_go_trans by blast

lemma save_relay_go:
  assumes "save_relay env user i rq srv = Some (rs, srv')" "benign enc env"
  shows "stores_go enc srv srv'"
proof (cases "js_relay (en_json env) (rq_body rq)")
  case (Inr body)
  let ?r = "if i \<noteq> [] then body\<lparr>r_id := i\<rparr> else body"
  obtain x srv1 where u: "on_relays (upsert_relay (en_now env) (en_saved env) ?r (relays_of srv)) srv = (x, srv1)" by fastforce
  have g: "stores_go enc srv srv1" by (rule persisted_go [OF u]) (rule step_upsert_relay)
  show ?thesis
  proof (cases x)
    case Inl then show ?thesis using assms(1) Inr u g by (simp add: save_relay_def)
  next
    case x: (Inr view)
    show ?thesis using assms(1) recorded_go [OF assms(2) g] unfolding save_relay_def Inr sum.case Let_def u prod.case x
      by (auto split: if_splits intro: applied_go [OF _ assms(2)])
  qed
qed (use assms(1) in \<open>simp add: save_relay_def\<close>)

lemma remove_relay_go:
  assumes "benign enc env"
  shows "stores_go enc srv (snd (remove_relay env user i srv))"
proof -
  obtain x srv1 where u: "on_relays (delete_relay (en_now env) (en_saved env) i (relays_of srv)) srv = (x, srv1)" by fastforce
  have g: "stores_go enc srv srv1" by (rule persisted_go [OF u]) (rule step_delete_relay)
  then show ?thesis using recorded_go [OF assms g] by (simp add: remove_relay_def u split: sum.split)
qed

lemma then_show_relay_go:
  assumes "benign enc env" "relays_go enc (srv_srt srv) (snd r)"
  shows "stores_go enc srv (snd (then_show_relay env user i type r srv))"
proof -
  have s: "snd (show_relay env i s) = s" for s by (simp add: show_relay_def split: option.split)
  obtain x m where r: "r = (x, m)" by fastforce
  then show ?thesis using recorded_go [OF assms(1) srt_go [of enc srv m]] assms(2) srt_go [of enc srv m]
    by (simp add: then_show_relay_def s split: sum.split)
qed

lemma relay_command_go:
  "benign enc env \<Longrightarrow> stores_go enc srv (snd (start_relay_handler env user i srv))"
  "benign enc env \<Longrightarrow> stores_go enc srv (snd (stop_relay_handler env user i srv))"
  unfolding start_relay_handler_def stop_relay_handler_def
  by (simp_all add: then_show_relay_go start_relay_go stop_relay_go)

lemma restart_relay_handler_go:
  assumes "restart_relay_handler env user i srv = Some (rs, srv')" "benign enc env"
  shows "stores_go enc srv srv'"
proof -
  obtain r where r: "restart_relay (en_now env) (en_delivered env) (en_srt_spawn env i) i (en_turns env i) (srv_srt srv) = Some r"
      "(rs, srv') = then_show_relay env user i ''relay_restarted'' r srv"
    using assms(1) by (auto simp: restart_relay_handler_def)
  have "relays_go enc (srv_srt srv) (snd r)"
    using restart_relay_go [of _ _ _ _ _ _ "fst r" "snd r"] r(1) assms(2) by (simp add: benign_def)
  from then_show_relay_go [OF assms(2) this, of user i "''relay_restarted''"] show ?thesis using r(2) by (metis snd_conv)
qed

lemma rotate_relay_handler_go:
  assumes "rotate_relay_handler env user i srv = Some (rs, srv')" "benign enc env"
  shows "stores_go enc srv srv'"
proof -
  obtain x srv1 where u: "on_relays (rotate_relay_key (en_now env) (en_saved env) i (relays_of srv)) srv = (x, srv1)" by fastforce
  have g: "stores_go enc srv srv1" by (rule persisted_go [OF u]) (rule step_rotate_relay)
  show ?thesis using assms(1) g recorded_go [OF assms(2) g] unfolding rotate_relay_handler_def u prod.case Let_def
    by (auto split: if_splits sum.splits intro: applied_go [OF _ assms(2)])
qed

lemma save_client_go:
  assumes "save_client env user i rq srv = Some (rs, srv')" "benign enc env"
  shows "stores_go enc srv srv'"
proof (cases "js_client (en_json env) (rq_body rq)")
  case (Inr body)
  let ?c = "if i \<noteq> [] then body\<lparr>c_id := i\<rparr> else body"
  let ?op = "(if i = [] then create_client else upsert_client) (en_now env) (en_saved env) ?c (relays_of srv)"
  obtain x srv1 where u: "on_relays ?op srv = (x, srv1)" by fastforce
  have g: "stores_go enc srv srv1" by (rule persisted_go [OF u]) (simp add: step_create_client step_upsert_client)
  show ?thesis
  proof (cases x)
    case Inl then show ?thesis using assms(1) u g unfolding save_client_def Inr sum.case Let_def u prod.case by simp
  next
    case x: (Inr credential)
    show ?thesis using assms(1) recorded_go [OF assms(2) g]
      unfolding save_client_def Inr sum.case Let_def u prod.case x restart_client_relays_def
      by (auto intro: restarted_go [OF _ assms(2)])
  qed
qed (use assms(1) in \<open>simp add: save_client_def\<close>)

lemma rotate_client_handler_go:
  assumes "rotate_client_handler env user i srv = Some (rs, srv')" "benign enc env"
  shows "stores_go enc srv srv'"
proof -
  obtain x srv1 where u: "on_relays (rotate_client_key (en_now env) (en_saved env) i (relays_of srv)) srv = (x, srv1)" by fastforce
  have g: "stores_go enc srv srv1" by (rule persisted_go [OF u]) (rule step_rotate_client)
  show ?thesis using assms(1) g recorded_go [OF assms(2) g] unfolding rotate_client_handler_def u prod.case
    by (auto split: if_splits sum.splits intro: restarted_go [OF _ assms(2)])
qed

lemma remove_client_go:
  assumes "remove_client env user i srv = Some (rs, srv')" "benign enc env"
  shows "stores_go enc srv srv'"
proof -
  obtain x srv1 where u: "on_relays (delete_client (en_now env) (en_saved env) i (relays_of srv)) srv = (x, srv1)" by fastforce
  have g: "stores_go enc srv srv1" by (rule persisted_go [OF u]) (rule step_delete_client)
  show ?thesis using assms(1) g recorded_go [OF assms(2) g] unfolding remove_client_def u prod.case
    by (auto split: if_splits sum.splits intro: restarted_go [OF _ assms(2)])
qed

lemma clear_audit_go:
  assumes "benign enc env"
  shows "stores_go enc srv (snd (clear_audit_handler env user rq srv))"
proof -
  let ?f = "audit_filter_of rq 0"
  obtain cleared err dir where a: "audit_clear (en_audit_dec env) (en_audit_dir env) (en_audit_file env) ?f (sto_audit (relays_of srv))
      = (cleared, err, dir)" by (metis prod_cases3)
  have g: "stores_go enc srv (snd (on_relays ((), (relays_of srv)\<lparr>sto_audit := dir\<rparr>) srv))"
    by (rule on_relays_go)
      (use step_clear_audit [of enc "relays_of srv" "en_audit_dec env" "en_audit_dir env" "en_audit_file env" ?f] a in simp)
  show ?thesis using g recorded_go [OF assms g] by (simp add: clear_audit_handler_def Let_def a split: option.split)
qed

subsection \<open>Requests\<close>

lemmas change_handlers_go = save_relay_go restart_relay_handler_go rotate_relay_handler_go save_client_go remove_client_go
  rotate_client_handler_go

lemmas total_handlers_go = remove_relay_go relay_command_go clear_audit_go

lemma srt_handler_go:
  assumes "srt_handler env user m v rq srv = Some (rs, srv')" "benign enc env"
  shows "stores_go enc srv srv'"
  using assms by (cases m) (auto simp: list_sessions_handler_def list_audit_handler_def show_relay_def split: option.splits
      dest!: arg_cong [of _ "(rs, srv')" snd] intro: total_handlers_go change_handlers_go)

lemma handle_go: "handle env user e vals rq srv = Some (rs, srv') \<Longrightarrow> benign enc env \<Longrightarrow> stores_go enc srv srv'"
proof (cases e)
  case (Main m) assume "handle env user e vals rq srv = Some (rs, srv')" "benign enc env"
  then show ?thesis using main_handler_go unfolding handle_def Let_def Main endpoint.case by (metis option.inject snd_conv)
next
  case (WithSrt m) assume "handle env user e vals rq srv = Some (rs, srv')" "benign enc env"
  then show ?thesis using srt_handler_go WithSrt by (auto simp: handle_def Let_def with_srt_def split: option.splits)
qed (auto simp: handle_def Let_def)

lemma serve_mux_go: "serve_mux env user rq srv = Some (rs, srv') \<Longrightarrow> benign enc env \<Longrightarrow> stores_go enc srv srv'"
  by (auto simp: serve_mux_def intro: handle_go split: if_splits prod.splits)

lemma serve_go: "serve env rq srv = Some (rs, srv') \<Longrightarrow> benign enc env \<Longrightarrow> stores_go enc srv srv'"
  by (auto simp: serve_def intro: serve_mux_go split: if_splits sum.splits)

end
