(* ===== verification/ServerLife.thy ===== *)
theory ServerLife
  imports ServerStores SrtLink StreamStoreProps StreamJobsProps SrtManagerProps
begin

text \<open>
  The life of a server: opened on any state files it wrote before, then changed by requests, by
  the readers of event streams, by the goroutines of both managers, and by its own start and
  shutdown, in any order. What holds in every reachable store holds in every such server.
\<close>

subsection \<open>The goroutines of the managers\<close>

lemma store_same_go: "mgr_store m' = mgr_store m \<Longrightarrow> relays_go enc m m'"
  by (simp add: relays_go_def)

lemma arm_go: "relays_go enc m m' \<Longrightarrow> relays_go enc m (arm t m')"
  by (simp add: relays_go_def arm_def)

lemma set_state_after: "relays_go enc m m' \<Longrightarrow> relays_go enc m (set_state now i f m')"
  using set_state_go relays_go_trans by blast

lemma close_sessions_go: "relays_go enc m (close_sessions enc envs now i reason m)"
  by (rule relays_go_step [OF step_close_sessions]) (simp add: close_sessions_def)

lemma schedule_restart_go: "relays_go enc m (schedule_restart now i m)"
proof -
  obtain ok m1 where a: "allow_restart i now m = (ok, m1)" by fastforce
  then have "relays_go enc m m1" by (intro store_same_go) (auto simp: allow_restart_def Let_def)
  then show ?thesis by (auto simp: schedule_restart_def a intro!: arm_go set_state_after split: option.split)
qed

lemma wait_publish_go: "relays_go enc m (wait_publish enc envs env now i stopping err m)"
proof (cases stopping)
  case True
  then show ?thesis by (simp add: wait_publish_def set_state_after close_sessions_go)
next
  case False
  define reason where "reason = (case err of None \<Rightarrow> ''SRT worker exited'' | Some e \<Rightarrow> e)"
  define m1 where "m1 = set_state now i (exited reason) (close_sessions enc envs now i reason m)"
  define event where "event = zero_audit_event\<lparr>a_type := ''relay_worker_exited'', a_level := ''error'', a_relay_id := i, a_reason := reason\<rparr>"
  define m2 where "m2 = m1\<lparr>mgr_store := snd (record_audit enc env event (mgr_store m1))\<rparr>"
  have "relays_go enc m m1" unfolding m1_def by (intro set_state_after close_sessions_go)
  moreover have "relays_go enc m1 m2" unfolding m2_def by (rule relays_go_step [OF step_record_audit]) simp
  ultimately have "relays_go enc m (schedule_restart now i m2)"
    using schedule_restart_go [of enc m2 now i] relays_go_trans by blast
  moreover have "wait_publish enc envs env now i stopping err m = schedule_restart now i m2"
    using False by (simp only: wait_publish_def Let_def if_False reason_def m1_def event_def m2_def)
  ultimately show ?thesis by simp
qed

lemma retry_claim_go: "relays_go enc m (snd (retry_claim now i m))"
proof -
  have "relays_go enc m (m\<lparr>mgr_restarts := r\<rparr>)" for r by (rule store_same_go) simp
  then show ?thesis by (auto simp: retry_claim_def Let_def intro: set_state_after split: option.split)
qed

lemma mgr_step_go: "mgr_step enc y z \<Longrightarrow> relays_go enc (y_mgr y) (y_mgr z)"
proof (induction rule: mgr_step.induct)
  case (start_begins now env i y job input m)
  then show ?case using start_claim_Inr [OF start_begins.hyps] by (simp add: begin_start_def store_same_go)
next
  case (start_ends i token restarted pid y now)
  then show ?case by (simp add: start_publish_def set_state_go)
next
  case (stop_begins now i y job m)
  then show ?case by (auto simp: stop_claim_def intro: store_same_go split: option.splits)
next
  case (stop_ends i token y delivered now)
  have "relays_go enc (y_mgr y) (stop_publish now i (y_mgr y))" by (simp add: stop_publish_def set_state_go)
  then show ?case by (simp add: stop_signal_def arm_def relays_go_def)
next
  case (worker_exits i token y stopping m err)
  then show ?case by (auto simp: wait_claim_def intro: store_same_go split: option.splits if_splits)
next
  case (exit_ignored i token y m)
  then show ?case by (auto simp: wait_claim_def intro: store_same_go split: option.splits if_splits)
next
  case (exit_ends i stopping err y envs env now)
  then show ?case by (simp add: wait_publish_go)
next
  case (restart_fires i y now env job input m)
  then show ?case using start_claim_Inr [OF restart_fires.hyps(2)] by (simp add: begin_start_def store_same_go)
next
  case (restart_fails i y now env e m)
  then show ?case using start_claim_Inl [OF restart_fails.hyps(2)] by (simp add: store_same_go disarm_def)
next
  case (retry_begins i y now go m)
  then show ?case using retry_claim_go [of enc "disarm (FlappingTimer i) (y_mgr y)" now i]
    by (simp add: relays_go_def disarm_def)
next
  case (retry_starts i y now env job input m)
  then show ?case using start_claim_Inr [OF retry_starts.hyps(2)] by (simp add: begin_start_def store_same_go)
next
  case (retry_fails i y now env e m)
  then show ?case using start_claim_Inl [OF retry_fails.hyps(2)] by (simp add: retry_failed_def arm_go set_state_go)
next
  case (kill_fires i token y)
  then show ?case by (simp add: kill_timer_def disarm_def store_same_go)
next
  case (store_changes y s)
  then show ?case by (simp add: relays_go_def)
qed

lemma set_stream_after: "streams_go m m' \<Longrightarrow> streams_go m (set_stream now i f m')"
  using set_stream_go streams_go_trans by blast

lemma log_stream_after: "streams_go m m' \<Longrightarrow> streams_go m (log_stream now i level code message m')"
  by (rule streams_go_trans [OF _ streams_go_step [OF stream_step.log]]) (simp_all add: log_stream_def)

lemma jobs_same_go: "jm_store m' = jm_store m \<Longrightarrow> streams_go m m'"
  by (simp add: streams_go_def)

lemma maybe_restart_go: "streams_go m (maybe_restart now i reason m)"
proof (cases "restart_policy_of i m")
  case (Some policy)
  obtain attempts m1 where c: "count_failure i policy now m = (attempts, m1)" by fastforce
  have g: "streams_go m m1" by (rule jobs_same_go) (rule count_failure_keeps(4) [OF c])
  then have "streams_go m ((set_stream now i f m1)\<lparr>jm_sleeping := q\<rparr>)" for f q
    using set_stream_after [OF g, of now i f] by (simp add: streams_go_def)
  then show ?thesis using g by (auto simp: maybe_restart_def Some c intro: log_stream_after set_stream_after)
qed (simp add: maybe_restart_def)

lemma exit_publish_go: "streams_go m (exit_publish now i stopping err m)"
proof -
  obtain st s where u: "update_stream now i (ended now stopping err) (jm_store m) = (st, s)" by fastforce
  have "streams_go m (m\<lparr>jm_store := s\<rparr>)"
    using stream_step.update_state [of "jm_store m" now i "ended now stopping err"] by (simp add: streams_go_def u)
  then show ?thesis using maybe_restart_go streams_go_trans by (auto simp: exit_publish_def u)
qed

lemma job_claim_store: "job_claim sp i restarted m = (r, m') \<Longrightarrow> jm_store m' = jm_store m"
  by (auto simp: job_claim_def Let_def split: if_splits spawn.splits)

lemma job_step_go: "job_step z y \<Longrightarrow> streams_go (z_mgr z) (z_mgr y)"
proof (induction rule: job_step.induct)
  case (start_begins sp i z job m)
  then show ?case by (simp add: start_begun_def jobs_same_go job_claim_store)
next
  case (stop_begins i z job m)
  then show ?case by (auto simp: job_stop_claim_def intro: jobs_same_go split: option.splits)
next
  case (stop_ends i token z now)
  then show ?case by (simp add: job_stop_publish_def set_stream_go)
next
  case (process_exits i token z current m err)
  then show ?case by (auto simp: exit_claim_def intro: jobs_same_go split: option.splits)
next
  case (exit_ends i stopping err z now)
  then show ?case by (simp add: exit_publish_go)
next
  case (restart_begins i d z sp job m)
  then show ?case by (simp add: start_begun_def jobs_same_go job_claim_store)
next
  case (restart_fails i d z w now e)
  have "streams_go (z_mgr z) (wake (i, d) (z_mgr z))" by (rule jobs_same_go) simp
  then show ?case using maybe_restart_go streams_go_trans log_stream_after by (simp add: restart_failed_def) blast
next
  case (store_changes z s)
  then show ?case by (simp add: streams_go_def)
qed (simp_all add: set_stream_go jobs_same_go)

subsection \<open>Start and shutdown\<close>

lemma fold_go: "(\<And>x m. go m (f x m)) \<Longrightarrow> (\<And>m. go m m) \<Longrightarrow> (\<And>a b c. go a b \<Longrightarrow> go b c \<Longrightarrow> go a c) \<Longrightarrow> go m (fold f xs m)"
  by (induction xs arbitrary: m) (simp_all, blast)

lemma start_one_go: "relays_go enc m (start_one now envs view m)"
proof -
  obtain r m1 where s: "start_relay now (envs (r_id (v_config view))) (r_id (v_config view)) False m = (r, m1)" by fastforce
  have "relays_go enc m m1" using start_relay_go [of enc m now "envs (r_id (v_config view))" "r_id (v_config view)" False] s by simp
  then show ?thesis by (auto simp: start_one_def Let_def s intro: set_state_after split: sum.split)
qed

lemma fold_relays_go: "(\<And>x m. relays_go enc m (f x m)) \<Longrightarrow> relays_go enc m (fold f xs m)"
  by (rule fold_go) (auto intro: relays_go_trans)

lemma fold_streams_go: "(\<And>x m. streams_go m (f x m)) \<Longrightarrow> streams_go m (fold f xs m)"
  by (rule fold_go) (auto intro: streams_go_trans)

lemma start_server_go: "stores_go enc srv (start_server env srv)"
  by (simp add: start_server_def start_enabled_def srt_go fold_relays_go start_one_go)

lemma shutdown_go: "benign enc env \<Longrightarrow> stores_go enc srv (shutdown env srv)"
  by (simp add: shutdown_def stores_go_def stop_all_streams_def stop_all_def fold_relays_go fold_streams_go
      stop_relay_go stop_stream_go benign_others)

subsection \<open>Runs\<close>

inductive server_step :: "audit_enc \<Rightarrow> server \<Rightarrow> server \<Rightarrow> bool" for enc where
  request: "serve env rq srv = Some (rs, srv') \<Longrightarrow> benign enc env \<Longrightarrow> server_step enc srv srv'"
| starts: "server_step enc srv (start_server env srv)"
| shuts_down: "benign enc env \<Longrightarrow> server_step enc srv (shutdown env srv)"
| sends_stream_event: "next_stream_event f c srv = Some (frame, srv') \<Longrightarrow> server_step enc srv srv'"
| sends_srt_event: "next_srt_event g c srv = Some (frame, srv') \<Longrightarrow> server_step enc srv srv'"
| disconnects: "server_step enc srv (close_events c srv)"
| job_goroutine: "job_step z y \<Longrightarrow> z_mgr z = srv_jobs srv \<Longrightarrow> server_step enc srv (srv\<lparr>srv_jobs := z_mgr y\<rparr>)"
| srt_goroutine: "mgr_step enc z y \<Longrightarrow> y_mgr z = srv_srt srv \<Longrightarrow> server_step enc srv (srv\<lparr>srv_srt := y_mgr y\<rparr>)"
| samples: "server_step enc srv (srv\<lparr>srv_sys := c\<rparr>)"

text \<open>The SRT state file: none yet, or the one of an earlier run.\<close>

definition written_by_earlier_run :: "audit_enc \<Rightarrow> string \<Rightarrow> persisted option \<Rightarrow> bool" where
  "written_by_earlier_run enc path state \<longleftrightarrow> state = None \<or> (\<exists>s. store_reachable enc s \<and> sto_path s = path \<and> sto_file s = state)"

inductive server_reachable :: "audit_enc \<Rightarrow> server \<Rightarrow> bool" for enc where
  opened: "new_stream_store random1 random2 now readable1 saved (ac_storage_path cfg) stored = Inr s \<Longrightarrow> random_ok random1
    \<Longrightarrow> written_by_earlier_run enc (rc_state_path (ac_srt cfg)) state
    \<Longrightarrow> new_server now cfg (Inr s) (open_srt_store now (ac_srt cfg) key_file random3 writable dir readable2 state)
          (new_ephemeral_store made random4) = Inr srv
    \<Longrightarrow> server_reachable enc srv"
| next_state: "server_reachable enc srv \<Longrightarrow> server_step enc srv srv' \<Longrightarrow> server_reachable enc srv'"

lemma server_step_go: "server_step enc srv srv' \<Longrightarrow> stores_go enc srv srv'"
proof (induction rule: server_step.induct)
  case (request env rq srv rs srv') then show ?case by (rule serve_go)
next
  case (sends_stream_event f c srv frame srv')
  then obtain queue where "srv' = snd (on_streams ((), (streams_of srv)\<lparr>sg_subscribers := put c queue (sg_subscribers (streams_of srv))\<rparr>) srv)"
    by (auto simp: next_stream_event_def split: option.splits list.splits)
  then show ?case by (simp add: on_streams_go stream_step.take_event)
next
  case (sends_srt_event g c srv frame srv')
  then obtain queue where "srv' = snd (on_relays ((), (relays_of srv)\<lparr>sto_subscribers := put c queue (sto_subscribers (relays_of srv))\<rparr>) srv)"
    by (auto simp: next_srt_event_def split: option.splits list.splits)
  then show ?case by (simp add: on_relays_go step_take_event)
next
  case (job_goroutine z y srv)
  then show ?case using job_step_go [of z y] by (simp add: stores_go_def)
next
  case (srt_goroutine z y srv)
  then show ?case using mgr_step_go [of enc z y] by (simp add: stores_go_def)
next
  case (samples srv c) then show ?case by (simp add: stores_go_def)
qed (simp_all add: start_server_go shutdown_go close_events_go)

lemma opened_srt_store_reachable:
  assumes "open_srt_store now c key_file random writable dir readable state = Inr t"
    and "written_by_earlier_run enc (rc_state_path c) state"
  shows "store_reachable enc t"
proof -
  obtain key retention where n: "new_store now (rc_state_path c) key retention dir readable state = Inr t"
    using assms(1) by (auto simp: open_srt_store_def split: sum.splits)
  show ?thesis
  proof (cases state)
    case None
    then have "t = empty_store (rc_state_path c) key retention dir None"
      using n by (auto simp: new_store_def load_store_def empty_store_def split: if_splits)
    then show ?thesis using store_reachable.fresh by simp
  next
    case (Some f)
    then show ?thesis using assms(2) n store_reachable.restart by (auto simp: written_by_earlier_run_def)
  qed
qed

lemma server_stores_reachable: "server_reachable enc srv \<Longrightarrow> stream_reachable (streams_of srv) \<and> store_reachable enc (relays_of srv)"
proof (induction rule: server_reachable.induct)
  case (opened random1 random2 now readable1 saved cfg stored s state key_file random3 writable dir readable2 made random4 srv)
  have "streams_of srv = s" using opened(4) by (auto simp: new_server_def new_job_manager_def split: sum.splits option.splits)
  moreover have "store_reachable enc (relays_of srv)"
    using opened(4) opened_srt_store_reachable [OF _ opened(3)] store_reachable.fresh
    by (auto simp: new_server_def new_manager_def new_ephemeral_store_def split: sum.splits option.splits if_splits)
  ultimately show ?case using stream_reachable.opened [OF opened(1,2)] by simp
next
  case (next_state srv srv')
  have "stores_go enc srv srv'" by (rule server_step_go [OF next_state(2)])
  then have "stream_step\<^sup>*\<^sup>* (streams_of srv) (streams_of srv')" "(store_step enc)\<^sup>*\<^sup>* (relays_of srv) (relays_of srv')"
    by (simp_all add: stores_go_def streams_go_def relays_go_def)
  moreover have "stream_reachable t" if "stream_step\<^sup>*\<^sup>* s t" "stream_reachable s" for s t
    using that by (induction rule: rtranclp_induct) (auto intro: stream_reachable.step)
  moreover have "store_reachable enc t" if "(store_step enc)\<^sup>*\<^sup>* s t" "store_reachable enc s" for s t
    using that by (induction rule: rtranclp_induct) (auto intro: store_reachable.operation)
  ultimately show ?case using next_state by blast
qed

subsection \<open>What every server keeps\<close>

text \<open>
  C3: In every server, after any requests and other events in any order, every stream has its
  profile, so that starting one is never refused for a missing profile; the account \<open>admin\<close>
  exists; clients are only assigned to relays that exist; and every relay gives its worker a
  configuration that it accepts.
\<close>

theorem server_stores_valid:
  assumes "server_reachable enc srv"
  shows "(\<forall>i view. get_stream (streams_of srv) i = Some view \<longrightarrow>
        (\<exists>p. get_profile (streams_of srv) (cf_profile_name (sv_config view)) = Some p \<and> profile_shape p))
    \<and> (\<forall>env i p. rs_body (fst (start_handler env i srv)) \<noteq> Failed (FromJobs (JobProfileNotFound p)))
    \<and> get_user (streams_of srv) ''admin'' \<noteq> None
    \<and> (\<forall>c \<in> set (list_clients (relays_of srv)). \<forall>i \<in> set (c_allowed_relay_ids c). get_relay now (relays_of srv) i \<noteq> None)
    \<and> (\<forall>i r. get (sto_relays (relays_of srv)) i = Some r \<longrightarrow> (\<exists>w. new_worker now (worker_input (relays_of srv) r) = Inr w))"
proof -
  have ok: "stream_store_ok (streams_of srv)" "store_ok (relays_of srv)"
    using server_stores_reachable [OF assms] stream_reachable_ok store_reachable_ok by blast+
  have p: "\<exists>p. get_profile (streams_of srv) (cf_profile_name (sv_config view)) = Some p \<and> profile_shape p"
    if "get_stream (streams_of srv) i = Some view" for i view
    using stream_profile_stored [OF ok(1)] that unfolding get_stream_def by fastforce
  have a: "start_args i (srv_jobs srv) \<noteq> Inl (JobProfileNotFound p)" for i p
    using p [of i] by (auto simp: start_args_def split: option.splits sum.splits)
  have s: "rs_body (fst (start_handler env i srv)) \<noteq> Failed (FromJobs (JobProfileNotFound p))" for env i p
    using a [of i p]
    by (auto simp: start_handler_def then_show_def start_job_def on_jobs_def start_stream_def write_error_def reply_def job_claim_def
        show_stream_def Let_def split: sum.splits spawn.splits option.splits if_splits job_error.splits)
  have "get_user (streams_of srv) ''admin'' \<noteq> None"
    using ok(1) by (auto simp: stream_store_ok_def defaults_present_def has_key_def get_user_def)
  moreover have "\<forall>c \<in> set (list_clients (relays_of srv)). \<forall>i \<in> set (c_allowed_relay_ids c). get_relay now (relays_of srv) i \<noteq> None"
    using ok(2) by (fastforce simp: store_ok_def store_invariants has_key_def get_relay_def list_clients_def set_sorted_vals)
  ultimately show ?thesis using p s stored_relay_accepted [OF ok(2)] by blast
qed

end
