(* ===== verification/ServerProps.thy ===== *)
theory ServerProps
  imports ServerRoutes StreamStoreLaws
begin

text \<open>
  Who may do what: every request that changes anything, or reads anything but the public
  answers, carries a valid access token, whatever the encoding of its path.
\<close>

subsection \<open>Guarded routes\<close>

text \<open>
  The middleware compares the decoded path with the paths that need no token, the multiplexer
  matches the segments of the path as it was sent. A guarded pattern is one whose matches are
  never taken for such a path.
\<close>

definition guarded_pattern :: "string \<Rightarrow> bool" where
  "guarded_pattern p \<longleftrightarrow> (case pattern_segments p of
     api # s # rest \<Rightarrow> p = CHR ''/'' # join_with ''/'' (api # s # rest) \<and> api = ''api''
       \<and> \<not> has_prefix s ''{'' \<and> CHR ''/'' \<notin> set s
       \<and> (s \<noteq> ''health'' \<and> s \<noteq> ''auth'' \<or> (\<forall>x \<in> set rest. \<not> has_prefix x ''{'') \<and> \<not> open_path p)
   | _ \<Rightarrow> False)"

definition public_endpoints :: "endpoint list" where
  "public_endpoints = [Main GetHealth, Main GetRequired, Main PostLogin, Main PostRefresh, Web]"

lemma routes_guarded: "(m, p, e) \<in> set routes \<Longrightarrow> e \<in> set public_endpoints \<or> guarded_pattern p"
proof -
  have "list_all (\<lambda>(m, p, e). e \<in> set public_endpoints \<or> guarded_pattern p) routes"
    by (simp add: routes_def public_endpoints_def guarded_pattern_def pattern_segments_def open_path_def has_prefix_def)
  then show "(m, p, e) \<in> set routes \<Longrightarrow> e \<in> set public_endpoints \<or> guarded_pattern p"
    by (auto simp: list_all_iff)
qed

lemma first_segment:
  assumes "CHR ''/'' \<notin> set s"
  shows "takeWhile (\<lambda>c. c \<noteq> CHR ''/'') (join_with ''/'' (s # rest)) = s"
proof -
  have "takeWhile (\<lambda>c. c \<noteq> CHR ''/'') (s @ CHR ''/'' # t) = s" "takeWhile (\<lambda>c. c \<noteq> CHR ''/'') s = s" for t
    using assms by (induction s) auto
  then show ?thesis by (cases rest) simp_all
qed

lemma guarded_match:
  assumes "guarded_pattern p" "pattern_match method (rq_escaped rq) (m, p) = Some vals" "paths_agree rq"
  shows "\<not> open_path (rq_path rq)"
proof -
  obtain s rest where p: "pattern_segments p = ''api'' # s # rest" "p = CHR ''/'' # join_with ''/'' (''api'' # s # rest)"
    "\<not> has_prefix s ''{''" "CHR ''/'' \<notin> set s"
    and guard: "s \<noteq> ''health'' \<and> s \<noteq> ''auth'' \<or> (\<forall>x \<in> set rest. \<not> has_prefix x ''{'') \<and> \<not> open_path p"
    using assms(1) by (auto simp: guarded_pattern_def split: list.splits)
  let ?segments = "path_segments (rq_escaped rq)"
  have match: "match_segments (''api'' # s # rest) ?segments = Some vals"
    using assms(2) p(1) by (auto simp: pattern_match_def split: if_splits)
  have path: "rq_path rq = CHR ''/'' # join_with ''/'' ?segments" by (rule path_of_segments [OF assms(3)])
  show ?thesis
    using guard
  proof
    assume "(\<forall>x \<in> set rest. \<not> has_prefix x ''{'') \<and> \<not> open_path p"
    moreover from this have "?segments = ''api'' # s # rest"
      using match p(3) by (intro match_literals) (auto simp: has_prefix_def)
    ultimately show ?thesis using path p(2) by simp
  next
    assume s: "s \<noteq> ''health'' \<and> s \<noteq> ''auth''"
    obtain t where t: "?segments = ''api'' # s # t"
      using match_literal [OF match] match_literal [of s rest] p(3) by (auto simp: has_prefix_def)
    let ?tail = "join_with ''/'' (s # t)"
    have r: "rq_path rq = ''/api/'' @ ?tail" using path t by simp
    have first: "takeWhile (\<lambda>c. c \<noteq> CHR ''/'') ?tail = s" by (rule first_segment [OF p(4)])
    have "?tail \<noteq> ''health''" "?tail \<noteq> ''auth/required''" "?tail \<noteq> ''auth/login''" "?tail \<noteq> ''auth/refresh''"
      using s first by (auto simp del: join_with.simps)
    moreover have "has_prefix (rq_path rq) ''/api/''" unfolding r by (rule has_prefix_append)
    ultimately show ?thesis by (auto simp: open_path_def r simp del: join_with.simps)
  qed
qed

lemma open_dispatch:
  assumes "paths_agree rq" "open_path (rq_path rq)" "dispatch routes Web method (rq_escaped rq) = (e, vals)"
  shows "e \<in> set public_endpoints"
proof -
  consider "e = Web" | m p where "(m, p, e) \<in> set routes" "pattern_match method (rq_escaped rq) (m, p) = Some vals"
    using dispatch_cases [OF assms(3)] by blast
  then show ?thesis
  proof cases
    case 1
    then show ?thesis by (simp add: public_endpoints_def)
  next
    case 2
    then show ?thesis using routes_guarded [OF 2(1)] guarded_match [OF _ 2(2) assms(1)] assms(2) by blast
  qed
qed

subsection \<open>Access\<close>

fun public_answer :: "answer \<Rightarrow> bool" where
  "public_answer (Failed f) = True"
| "public_answer (Redirect p) = True"
| "public_answer (Page p) = True"
| "public_answer Health = True"
| "public_answer Required = True"
| "public_answer (TokenPair a r ae re m u) = True"
| "public_answer _ = False"

lemma public_reply [simp]: "rs_body (reply status body) = body" "rs_body (write_error status f) = Failed f"
  by (simp_all add: reply_def write_error_def)

lemma token_pair_public: "public_answer (rs_body (write_token_pair env u srv))"
  by (simp add: write_token_pair_def Let_def split: sum.split)

lemma public_handlers:
  assumes "e \<in> set public_endpoints" "handle env user e vals rq srv = Some (rs, srv')"
  shows "srv' = srv \<and> public_answer (rs_body rs)"
  using assms token_pair_public
  by (auto simp: public_endpoints_def handle_def Let_def login_def refresh_tokens_def read_json_def web_def
      split: sum.splits option.splits if_splits)

lemma user_from_request_Inr:
  "user_from_request env kind rq srv = Inr u \<longleftrightarrow> bearer_token rq \<noteq> [] \<and>
     (\<exists>c. verify_token (js_claims_dec (en_json env)) (sg_auth_secret (streams_of srv)) (bearer_token rq) kind (en_now env) = Inr c
        \<and> verify_token_claims (streams_of srv) c = Some u)"
  by (auto simp: user_from_request_def split: sum.splits option.splits)

text \<open>
  C1: Every request that changes anything in the server, or is answered with anything but an
  error, a page, a redirect or a public answer, carries an access token that is signed with the
  server's secret, has not expired, and names an account that exists with the version of the
  token. This holds for every path, however its characters are escaped.
\<close>

theorem requests_need_token:
  assumes "paths_agree rq" and "serve env rq srv = Some (rs, srv')" and "srv' \<noteq> srv \<or> \<not> public_answer (rs_body rs)"
  shows "\<exists>u c. user_from_request env ''access'' rq srv = Inr u
    \<and> verify_token (js_claims_dec (en_json env)) (sg_auth_secret (streams_of srv)) (bearer_token rq) ''access'' (en_now env) = Inr c
    \<and> en_now env < cl_expires_at c \<and> get_user (streams_of srv) (cl_subject c) = Some u \<and> us_token_version u = cl_token_version c"
proof -
  have "\<not> open_path (rq_path rq)"
  proof
    assume o: "open_path (rq_path rq)"
    obtain e vals where d: "dispatch routes Web (rq_method rq) (rq_escaped rq) = (e, vals)" by fastforce
    have "srv' = srv \<and> public_answer (rs_body rs)"
      using assms(2) o d public_handlers [OF open_dispatch [OF assms(1) o d], of env None vals rq srv rs srv']
      by (auto simp: serve_def serve_mux_def split: if_splits)
    then show False using assms(3) by simp
  qed
  then obtain u where u: "user_from_request env ''access'' rq srv = Inr u"
    using assms(2,3) by (auto simp: serve_def split: sum.splits)
  then obtain c where c: "verify_token (js_claims_dec (en_json env)) (sg_auth_secret (streams_of srv)) (bearer_token rq) ''access'' (en_now env) = Inr c"
    "verify_token_claims (streams_of srv) c = Some u" by (auto simp: user_from_request_Inr)
  have "en_now env < cl_expires_at c" using c(1) by (auto simp: verify_token_def split: prod.splits option.splits if_splits)
  then show ?thesis using u c by (auto simp: verify_token_claims_def get_user_def split: option.splits if_splits)
qed

end
