(* ===== verification/ServerLogin.thy ===== *)
theory ServerLogin
  imports ServerProps
begin

text \<open>
  What a login is good for: the tokens it answers with, and what the server makes of them in
  later requests.
\<close>

text \<open>The JSON of claims, as the server uses it: what was written is read back.\<close>

definition claims_survive :: "json_codec \<Rightarrow> claims \<Rightarrow> bool" where
  "claims_survive js c \<longleftrightarrow> (\<exists>body. js_claims_enc js c = Some body \<and> body \<noteq> [] \<and> js_claims_dec js body = Some c)"

definition claims_of :: "user \<Rightarrow> string \<Rightarrow> gotime \<Rightarrow> claims" where
  "claims_of u kind expires = \<lparr>cl_subject = us_username u, cl_type = kind, cl_token_version = us_token_version u, cl_expires_at = expires\<rparr>"

text \<open>The account a token of \<open>u\<close> stands for in a later store.\<close>

definition same_version :: "user \<Rightarrow> stream_store \<Rightarrow> user option" where
  "same_version u s = (case get_user s (us_username u) of
     None \<Rightarrow> None
   | Some v \<Rightarrow> if us_token_version v = us_token_version u then Some v else None)"

lemma login_segments: "path_segments ''/api/auth/login'' = [''api'', ''auth'', ''login'']"
  by (simp add: path_segments_def path_unescape_def)

lemma dispatch_login: "dispatch routes Web ''POST'' ''/api/auth/login'' = (Main PostLogin, [])"
  by (simp add: routes_def pattern_match_def method_serves_def login_segments pattern_segments_def has_prefix_def)

lemma serve_login:
  assumes "rq_method rq = ''POST''" "rq_path rq = ''/api/auth/login''" "rq_escaped rq = ''/api/auth/login''"
  shows "serve env rq srv = Some (login env rq srv)"
  using assms by (simp add: serve_def serve_mux_def open_path_def dispatch_login handle_def clean_path_def)

lemma issued_for_user:
  assumes "claims_survive js (claims_of u kind expires)" "us_username u \<noteq> []" "1 \<le> us_token_version u"
  shows "\<exists>token. issue_token (js_claims_enc js) secret (claims_of u kind expires) = Inr token \<and> token \<noteq> []
    \<and> (\<forall>now. verify_token (js_claims_dec js) secret token kind now
        = (if now < expires then Inr (claims_of u kind expires) else Inl TokenExpired))
    \<and> (\<forall>now other. other \<noteq> kind \<longrightarrow> verify_token (js_claims_dec js) secret token other now = Inl InvalidTokenType)"
proof -
  let ?c = "claims_of u kind expires"
  obtain body where b: "js_claims_enc js ?c = Some body" "body \<noteq> []" "js_claims_dec js body = Some ?c"
    using assms(1) by (auto simp: claims_survive_def)
  have c: "cl_subject ?c \<noteq> []" "1 \<le> cl_token_version ?c" using assms(2,3) by (simp_all add: claims_of_def)
  obtain token where t: "issue_token (js_claims_enc js) secret ?c = Inr token"
    "\<forall>now. verify_token (js_claims_dec js) secret token (cl_type ?c) now = (if now < cl_expires_at ?c then Inr ?c else Inl TokenExpired)"
    "\<forall>now other. other \<noteq> cl_type ?c \<longrightarrow> verify_token (js_claims_dec js) secret token other now = Inl InvalidTokenType"
    using issued_token_verifies [where enc = "js_claims_enc js" and dec = "js_claims_dec js" and c = ?c, OF b c, of secret] by blast
  have "token \<noteq> []" using t(1) by (auto simp: issue_token_def Let_def split: option.splits)
  then show ?thesis using t by (auto simp: claims_of_def)
qed


end
