(* ===== verification/ServerRevoke.thy ===== *)
theory ServerRevoke
  imports ServerProps SrtStoreProps
begin

text \<open>
  How the change of an SRT client reaches the workers: the relays that run are restarted one
  after the other, while the other goroutines go on. What those may do meanwhile is
  \<open>evolves\<close>: they leave the configuration alone, and a worker they leave running is an old
  one, still stopping if it was, or one that was started since.
\<close>

subsection \<open>What goroutines may do meanwhile\<close>

definition same_setup :: "store \<Rightarrow> store \<Rightarrow> bool" where
  "same_setup s s' \<longleftrightarrow> sto_relays s' = sto_relays s \<and> sto_clients s' = sto_clients s \<and> sto_master_key s' = sto_master_key s"

definition evolves :: "manager \<Rightarrow> manager \<Rightarrow> bool" where
  "evolves m m' \<longleftrightarrow> same_setup (mgr_store m) (mgr_store m') \<and> mgr_next m \<le> mgr_next m'
     \<and> (\<forall>i job. get (mgr_jobs m') i = Some job \<longrightarrow> mgr_next m \<le> job_token job
         \<or> (\<exists>old. get (mgr_jobs m) i = Some old \<and> job_token old = job_token job \<and> (job_stopping old \<longrightarrow> job_stopping job)))"

text \<open>The worker of a relay, if it has one, was started at or after the given token, or is stopping.\<close>

definition renewed :: "nat \<Rightarrow> manager \<Rightarrow> string \<Rightarrow> bool" where
  "renewed n m i \<longleftrightarrow> (\<forall>job. get (mgr_jobs m) i = Some job \<longrightarrow> n \<le> job_token job \<or> job_stopping job)"

lemma evolves_refl [simp]: "evolves m m"
  by (simp add: evolves_def same_setup_def)

lemma evolves_trans:
  assumes "evolves m m1" "evolves m1 m2"
  shows "evolves m m2"
proof -
  have "mgr_next m \<le> job_token job \<or>
      (\<exists>old. get (mgr_jobs m) i = Some old \<and> job_token old = job_token job \<and> (job_stopping old \<longrightarrow> job_stopping job))"
    if j: "get (mgr_jobs m2) i = Some job" for i job
  proof -
    consider "mgr_next m1 \<le> job_token job"
      | mid where "get (mgr_jobs m1) i = Some mid" "job_token mid = job_token job" "job_stopping mid \<longrightarrow> job_stopping job"
      using assms(2) j unfolding evolves_def by blast
    then show ?thesis
    proof cases
      case 1
      then show ?thesis using assms(1) by (simp add: evolves_def)
    next
      case 2
      then show ?thesis using assms(1) by (fastforce simp: evolves_def)
    qed
  qed
  then show ?thesis using assms by (auto simp: evolves_def same_setup_def)
qed

lemma renewed_evolves:
  assumes "renewed n m i" "evolves m m'" "n \<le> mgr_next m"
  shows "renewed n m' i"
  unfolding renewed_def
proof (intro allI impI)
  fix job assume "get (mgr_jobs m') i = Some job"
  then consider "mgr_next m \<le> job_token job"
    | old where "get (mgr_jobs m) i = Some old" "job_token old = job_token job" "job_stopping old \<longrightarrow> job_stopping job"
    using assms(2) unfolding evolves_def by blast
  then show "n \<le> job_token job \<or> job_stopping job"
    by cases (use assms(1,3) in \<open>auto simp: renewed_def\<close>)
qed

lemma renewed_earlier: "renewed k m i \<Longrightarrow> n \<le> k \<Longrightarrow> renewed n m i"
  unfolding renewed_def using order_trans by blast

lemma set_state_evolves [simp]:
  "same_setup (mgr_store m) (mgr_store (set_state now i f m))" "mgr_jobs (set_state now i f m) = mgr_jobs m"
  "mgr_next (set_state now i f m) = mgr_next m"
  by (simp_all add: set_state_def update_state_def same_setup_def Let_def)

lemma evolves_same_jobs:
  "same_setup (mgr_store m) (mgr_store m') \<Longrightarrow> mgr_jobs m' = mgr_jobs m \<Longrightarrow> mgr_next m' = mgr_next m \<Longrightarrow> evolves m m'"
  by (simp add: evolves_def)

subsection \<open>Starting and stopping a worker\<close>

lemma start_claim_evolves:
  assumes "start_claim now se i restarted m = (r, m')"
  shows "evolves m m'" and "r = Inr x \<Longrightarrow> renewed (mgr_next m) m' i"
  using assms
  by (auto simp: start_claim_def evolves_def same_setup_def renewed_def Let_def split: option.splits sum.splits if_splits)

lemma start_relay_evolves:
  assumes "start_relay now se i restarted m = (r, m')"
  shows "evolves m m'" and "r = Inr x \<Longrightarrow> renewed (mgr_next m) m' i"
proof -
  obtain r1 m1 where c: "start_claim now se i restarted m = (r1, m1)" by fastforce
  have p: "evolves m1 (start_publish now i restarted pid m1)" for pid
    by (rule evolves_same_jobs) (simp_all add: start_publish_def)
  have m': "m' = m1 \<or> (\<exists>pid. m' = start_publish now i restarted pid m1)"
    using assms c by (auto simp: start_relay_def split: sum.splits prod.splits)
  then have e: "evolves m1 m'" using p by auto
  show "evolves m m'" using start_claim_evolves(1) [OF c] e by (rule evolves_trans)
  assume "r = Inr x"
  then have "renewed (mgr_next m) m1 i"
    using assms c start_claim_evolves(2) [OF c] by (auto simp: start_relay_def split: sum.splits prod.splits)
  moreover have "mgr_next m \<le> mgr_next m1" using start_claim_evolves(1) [OF c] by (simp add: evolves_def)
  ultimately show "renewed (mgr_next m) m' i" using e renewed_evolves by blast
qed

lemma stop_relay_evolves:
  assumes "stop_relay now delivered i m = (r, m')"
  shows "evolves m m'" and "r = Inr x \<Longrightarrow> renewed n m' i"
proof -
  show "evolves m m'"
  proof (cases "get (mgr_jobs m) i")
    case None
    then show ?thesis using assms by (auto simp: stop_relay_def stop_claim_def split: if_splits)
  next
    case (Some job)
    then show ?thesis
      using assms by (auto simp: stop_relay_def stop_claim_def stop_signal_def arm_def stop_publish_def evolves_def same_setup_def
        set_state_evolves(1) [unfolded same_setup_def] split: if_splits)
  qed
  show "renewed n m' i"
    using assms by (cases "get (mgr_jobs m) i")
      (auto simp: stop_relay_def stop_claim_def stop_signal_def arm_def stop_publish_def renewed_def split: if_splits)
qed

lemma await_stop_evolves:
  "await_stop deadline se i turns m = Some (r, m') \<Longrightarrow> \<forall>(t, f) \<in> set turns. \<forall>m. evolves m (f m)
    \<Longrightarrow> evolves m m' \<and> (r = Inr x \<longrightarrow> renewed (mgr_next m) m' i)"
proof (induction deadline se i turns m rule: await_stop.induct)
  case (2 deadline se i now others turns m)
  show ?case
  proof (cases "deadline \<le> now \<or> \<not> has_key (mgr_jobs m) i")
    case True
    then show ?thesis using 2(2) start_relay_evolves [of now se i False m r m'] by (auto split: if_splits)
  next
    case False
    then have "evolves (others m) m' \<and> (r = Inr x \<longrightarrow> renewed (mgr_next (others m)) m' i)"
      using 2 by auto
    moreover have e: "evolves m (others m)" using 2(3) by auto
    moreover have "mgr_next m \<le> mgr_next (others m)" using e by (simp add: evolves_def)
    ultimately show ?thesis using evolves_trans [OF e] renewed_earlier by blast
  qed
qed simp

lemma restart_relay_evolves:
  assumes "restart_relay now delivered se i turns m = Some (r, m')" "\<forall>(t, f) \<in> set turns. \<forall>m. evolves m (f m)"
  shows "evolves m m'" and "r = Inr x \<Longrightarrow> renewed (mgr_next m) m' i"
proof -
  obtain r1 m1 where s: "stop_relay now delivered i m = (r1, m1)" by fastforce
  note e = stop_relay_evolves(1) [OF s]
  have n: "mgr_next m \<le> mgr_next m1" using e by (simp add: evolves_def)
  have "evolves m1 m' \<and> (r = Inr x \<longrightarrow> renewed (mgr_next m1) m' i)"
  proof (cases r1)
    case (Inl e1)
    then show ?thesis using assms(1) by (auto simp: restart_relay_def s)
  next
    case (Inr u)
    then have "await_stop (time_add now (seconds 6)) se i turns m1 = Some (r, m')"
      using assms(1) by (simp add: restart_relay_def s)
    then show ?thesis by (rule await_stop_evolves [OF _ assms(2)])
  qed
  then show "evolves m m'" "r = Inr x \<Longrightarrow> renewed (mgr_next m) m' i"
    by (auto intro: evolves_trans [OF e] renewed_earlier [OF _ n])
qed

subsection \<open>The loop over the relays\<close>

definition calm :: "http_env \<Rightarrow> bool" where
  "calm env \<longleftrightarrow> (\<forall>i. \<forall>(t, f) \<in> set (en_turns env i). \<forall>m. evolves m (f m))"

lemma apply_relay_evolves:
  assumes "apply_relay env enabled i m = Some (e, m')" "calm env"
  shows "evolves m m'" and "e = None \<Longrightarrow> renewed (mgr_next m) m' i"
proof -
  have turns: "\<forall>(t, f) \<in> set (en_turns env i). \<forall>m. evolves m (f m)" using assms(2) by (simp add: calm_def)
  show "evolves m m'"
  proof (cases enabled)
    case True
    then obtain r where "restart_relay (en_now env) (en_delivered env) (en_srt_spawn env i) i (en_turns env i) m = Some (r, m')"
      "e = error_of r" using assms(1) by (auto simp: apply_relay_def)
    then show "evolves m m'" using restart_relay_evolves(1) [OF _ turns] by blast
  next
    case False
    then obtain r where "stop_relay (en_now env) (en_delivered env) i m = (r, m')" "e = error_of r"
      using assms(1) by (auto simp: apply_relay_def split: prod.splits)
    then show "evolves m m'" using stop_relay_evolves(1) by blast
  qed
  assume none: "e = None"
  show "renewed (mgr_next m) m' i"
  proof (cases enabled)
    case True
    then obtain r where "restart_relay (en_now env) (en_delivered env) (en_srt_spawn env i) i (en_turns env i) m = Some (r, m')"
      "e = error_of r" using assms(1) by (auto simp: apply_relay_def)
    then show "renewed (mgr_next m) m' i"
      using restart_relay_evolves(2) [OF _ turns] none by (cases r) (auto simp: error_of_def)
  next
    case False
    then obtain r where "stop_relay (en_now env) (en_delivered env) i m = (r, m')" "e = error_of r"
      using assms(1) by (auto simp: apply_relay_def split: prod.splits)
    then show "renewed (mgr_next m) m' i" using stop_relay_evolves(2) none by (cases r) (auto simp: error_of_def)
  qed
qed

lemma restart_each_evolves:
  "restart_each env seen ids m = Some (e, m') \<Longrightarrow> calm env \<Longrightarrow> evolves m0 m \<Longrightarrow> evolves m0 m'"
proof (induction env seen ids m rule: restart_each.induct)
  case (2 env seen i ids m)
  consider "restart_each env seen ids m = Some (e, m')" "i \<in> set seen \<or> \<not> is_running i m"
    | "\<not> (i \<in> set seen \<or> \<not> is_running i m)" "get_relay (en_now env) (mgr_store m) i = None"
      "restart_each env (i # seen) ids m = Some (e, m')"
    | view err m1 where "\<not> (i \<in> set seen \<or> \<not> is_running i m)" "get_relay (en_now env) (mgr_store m) i = Some view"
      "apply_relay env (r_enabled (v_config view)) i m = Some (err, m1)"
      "(\<exists>x. err = Some x \<and> m' = m1) \<or> (err = None \<and> restart_each env (i # seen) ids m1 = Some (e, m'))"
    using "2.prems"(1) by (auto split: if_splits option.splits)
  then show ?case
  proof cases
    case 1
    then show ?thesis using "2.IH"(1) "2.prems" by blast
  next
    case 2
    then show ?thesis using "2.IH"(2) "2.prems" by blast
  next
    case 3
    have "evolves m0 m1" using "2.prems"(3) apply_relay_evolves(1) [OF 3(3) "2.prems"(2)] by (rule evolves_trans)
    then show ?thesis using 3 "2.IH"(3) [OF 3(1,2) _ refl] "2.prems"(2) by auto
  qed
qed simp

lemma restart_each_renews:
  "restart_each env seen ids m = Some (None, m') \<Longrightarrow> calm env \<Longrightarrow> n \<le> mgr_next m
    \<Longrightarrow> \<forall>i \<in> set ids. has_key (sto_relays (mgr_store m)) i \<Longrightarrow> \<forall>i \<in> set seen. renewed n m i
    \<Longrightarrow> \<forall>i \<in> set seen \<union> set ids. renewed n m' i"
proof (induction env seen ids m rule: restart_each.induct)
  case (2 env seen i ids m)
  show ?case
  proof (cases "i \<in> set seen \<or> \<not> is_running i m")
    case True
    have i: "renewed n m i" using True "2.prems"(5) by (auto simp: is_running_def has_key_def renewed_def)
    have "restart_each env seen ids m = Some (None, m')" using True "2.prems"(1) by simp
    moreover from this have "evolves m m'" using restart_each_evolves "2.prems"(2) by (metis evolves_refl)
    ultimately show ?thesis
      using "2.IH"(1) [OF True] "2.prems" renewed_evolves [OF i] by auto
  next
    case False
    obtain view where v: "get_relay (en_now env) (mgr_store m) i = Some view"
      using "2.prems"(4) by (auto simp: get_relay_def has_key_def)
    obtain m1 where a: "apply_relay env (r_enabled (v_config view)) i m = Some (None, m1)"
      "restart_each env (i # seen) ids m1 = Some (None, m')"
      using False v "2.prems"(1) by (auto split: option.splits)
    note e = apply_relay_evolves(1) [OF a(1) "2.prems"(2)]
    have "renewed (mgr_next m) m1 i" using apply_relay_evolves(2) [OF a(1) "2.prems"(2)] by simp
    then have "renewed n m1 i" using "2.prems"(3) by (auto simp: renewed_def)
    moreover have "\<forall>i \<in> set seen. renewed n m1 i" using "2.prems"(3,5) renewed_evolves [OF _ e] by blast
    moreover have "\<forall>i \<in> set ids. has_key (sto_relays (mgr_store m1)) i" "n \<le> mgr_next m1"
      using "2.prems"(3,4) e by (auto simp: evolves_def same_setup_def)
    ultimately show ?thesis using "2.IH"(3) [OF False v a(1) refl refl a(2) "2.prems"(2)] by auto
  qed
qed simp

lemma restart_srt_relays_renews:
  assumes "restart_srt_relays env ids srv = Some (None, srv')" "calm env"
    and "\<forall>i \<in> set ids. has_key (sto_relays (relays_of srv)) i"
  shows "\<forall>i \<in> set ids. renewed (mgr_next (srv_srt srv)) (srv_srt srv') i" and "same_setup (relays_of srv) (relays_of srv')"
proof -
  obtain m' where m: "restart_each env [] ids (srv_srt srv) = Some (None, m')" "srv' = srv\<lparr>srv_srt := m'\<rparr>"
    using assms(1) by (auto simp: restart_srt_relays_def)
  show "\<forall>i \<in> set ids. renewed (mgr_next (srv_srt srv)) (srv_srt srv') i"
    using restart_each_renews [OF m(1) assms(2) order_refl assms(3)] by (simp add: m(2))
  have "evolves (srv_srt srv) m'" by (rule restart_each_evolves [OF m(1) assms(2) evolves_refl])
  then show "same_setup (relays_of srv) (relays_of srv')" by (simp add: m(2) evolves_def)
qed

text \<open>The first relay that cannot be restarted ends the loop: what follows it is left as it was.\<close>

lemma failed_restart_skips_rest:
  assumes "i \<notin> set seen" "is_running i m" "get_relay (en_now env) (mgr_store m) i = Some view"
    and "apply_relay env (r_enabled (v_config view)) i m = Some (Some e, m1)"
  shows "restart_each env seen (i # ids) m = Some (Some (''relay '' @ i @ '': '' @ manager_error_text e), m1)"
  using assms by simp

subsection \<open>Revocation\<close>

lemma record_event_keeps [simp]:
  "same_setup (relays_of (record_event env aenv e srv)) s = same_setup (relays_of srv) s"
  "mgr_jobs (srv_srt (record_event env aenv e srv)) = mgr_jobs (srv_srt srv)"
  "mgr_next (srv_srt (record_event env aenv e srv)) = mgr_next (srv_srt srv)"
  "sto_relays (relays_of (record_event env aenv e srv)) = sto_relays (relays_of srv)"
  by (simp_all add: record_event_def on_relays_def same_setup_def)

lemma record_operator_keeps [simp]:
  "same_setup (relays_of (record_operator env u e srv)) s = same_setup (relays_of srv) s"
  "mgr_next (srv_srt (record_operator env u e srv)) = mgr_next (srv_srt srv)"
  "sto_relays (relays_of (record_operator env u e srv)) = sto_relays (relays_of srv)"
  by (simp_all add: record_operator_def)

lemma warn_unless_applied_clean:
  assumes "warn_unless_applied env r c rs applied = Some (rs', srv')" "rs_warning rs' = None"
  shows "applied = Some (None, srv')"
proof -
  obtain e srv1 where a: "applied = Some (e, srv1)" using assms(1) by (auto simp: warn_unless_applied_def)
  show ?thesis
    using assms by (cases e) (auto simp: a warn_unless_applied_def apply_warning_def)
qed

lemma client_relays_exist:
  assumes "store_reachable enc s" "get (sto_clients s) i = Some c" "r \<in> set (c_allowed_relay_ids c)"
  shows "has_key (sto_relays s) r"
  using store_reachable_ok [OF assms(1)] assms(2,3) by (auto simp: store_ok_def store_invariants)

lemma same_setup_workers: "same_setup s s' \<Longrightarrow> worker_clients s' r = worker_clients s r"
  by (simp add: same_setup_def worker_clients_def)

lemma deletion_renews:
  assumes "store_reachable enc (relays_of srv)" "get (sto_clients (relays_of srv)) i = Some c" "calm env"
    and "remove_client env user i srv = Some (rs, srv')" "rs_status rs = 204" "rs_warning rs = None"
    and "r \<in> set (c_allowed_relay_ids c)"
  shows "renewed (mgr_next (srv_srt srv)) (srv_srt srv') r" and "w \<in> set (worker_clients (relays_of srv') r) \<Longrightarrow> wc_id w \<noteq> i"
proof -
  let ?d = "delete_client (en_now env) (en_saved env) i (relays_of srv)"
  let ?s = "snd ?d" and ?audit = "record_operator env user (zero_audit_event\<lparr>a_type := ''client_deleted'', a_client_id := i, a_level := ''warning''\<rparr>)"
  let ?srv1 = "?audit (srv\<lparr>srv_srt := (srv_srt srv)\<lparr>mgr_store := ?s\<rparr>\<rparr>)"
  have d: "fst ?d = Inr True" "warn_unless_applied env [] i (reply 204 NoContent) (restart_srt_relays env (c_allowed_relay_ids c) ?srv1) = Some (rs, srv')"
    using assms(2,4,5)
    by (auto simp: remove_client_def on_relays_def get_client_def write_error_def reply_def split: sum.splits if_splits)
  have kept: "sto_relays ?s = sto_relays (relays_of srv)" "sto_clients ?s = del i (sto_clients (relays_of srv))"
    using d(1) by (auto simp: delete_client_def split: if_splits option.splits)
  have relays: "\<forall>r \<in> set (c_allowed_relay_ids c). has_key (sto_relays (relays_of ?srv1)) r"
    using client_relays_exist [OF assms(1,2)] by (simp add: kept)
  note after = restart_srt_relays_renews [OF warn_unless_applied_clean [OF d(2) assms(6)] assms(3) relays]
  show "renewed (mgr_next (srv_srt srv)) (srv_srt srv') r" using after(1) assms(7) by simp
  assume "w \<in> set (worker_clients (relays_of srv') r)"
  moreover have st: "same_setup ?s (relays_of srv')" using after(2) by simp
  ultimately have "w \<in> set (worker_clients ?s r)" using same_setup_workers [OF st, of r] by simp
  then obtain k e where "get (del i (sto_clients (relays_of srv))) k = Some e" "w = worker_client (sto_master_key ?s) e"
    by (auto simp: worker_clients_in kept)
  then show "wc_id w \<noteq> i"
    using store_reachable_ok [OF assms(1)] by (auto simp: worker_client_def store_ok_def store_invariants split: if_splits)
qed

lemma rotation_renews:
  assumes "store_reachable enc (relays_of srv)" "get (sto_clients (relays_of srv)) i = Some c" "calm env"
    and "rotate_client_handler env user i srv = Some (rs, srv')" "rs_status rs = 200" "rs_warning rs = None"
    and "r \<in> set (c_allowed_relay_ids c)"
  shows "renewed (mgr_next (srv_srt srv)) (srv_srt srv') r"
    and "w \<in> set (worker_clients (relays_of srv') r) \<Longrightarrow> wc_id w = i \<Longrightarrow>
      wc_passphrase w = client_passphrase (sto_master_key (relays_of srv)) (c\<lparr>c_key_version := c_key_version c + 1\<rparr>)"
proof -
  let ?d = "rotate_client_key (en_now env) (en_saved env) i (relays_of srv)"
  let ?s = "snd ?d" and ?audit = "record_operator env user (zero_audit_event\<lparr>a_type := ''client_key_rotated'', a_client_id := i, a_level := ''warning''\<rparr>)"
  let ?srv1 = "?audit (srv\<lparr>srv_srt := (srv_srt srv)\<lparr>mgr_store := ?s\<rparr>\<rparr>)"
  obtain cred where d: "fst ?d = Inr cred" "warn_unless_applied env [] (c_id (cc_client cred)) (reply 200 (Credential cred))
      (restart_srt_relays env (c_allowed_relay_ids (cc_client cred)) ?srv1) = Some (rs, srv')"
    using assms(2,4,5)
    by (auto simp: rotate_client_handler_def on_relays_def get_client_def write_error_def reply_def split: sum.splits)
  let ?c = "c\<lparr>c_key_version := c_key_version c + 1, c_updated_at := en_now env\<rparr>"
  note e = rotate_client_effect [OF d(1) assms(2)]
  have kept: "sto_relays ?s = sto_relays (relays_of srv)"
    using assms(2) by (simp add: rotate_client_key_def Let_def)
  have "\<forall>r \<in> set (c_allowed_relay_ids (cc_client cred)). has_key (sto_relays (relays_of ?srv1)) r"
    using client_relays_exist [OF assms(1,2)] by (simp add: kept e(1))
  note after = restart_srt_relays_renews [OF warn_unless_applied_clean [OF d(2) assms(6)] assms(3) this]
  show "renewed (mgr_next (srv_srt srv)) (srv_srt srv') r" using after(1) assms(7) by (simp add: e(1))
  assume w: "w \<in> set (worker_clients (relays_of srv') r)" "wc_id w = i"
  have st: "same_setup ?s (relays_of srv')" using after(2) by simp
  have ok: "clients_ok (sto_relays (relays_of srv)) (sto_clients (relays_of srv))"
    using store_reachable_ok [OF assms(1)] by (simp add: store_ok_def config_ok_def)
  obtain k x where x: "get (put i ?c (sto_clients (relays_of srv))) k = Some x" "w = worker_client (sto_master_key (relays_of srv)) x"
    using w(1) same_setup_workers [OF st, of r] by (auto simp: worker_clients_in e)
  have "k = i" using x w(2) ok by (auto simp: clients_ok_def worker_client_def split: if_splits)
  then have "x = ?c" using x(1) by simp
  moreover have "c_encryption_mode c = encryption_aes256" using assms(2) e(4) ok by (auto simp: clients_ok_def client_shape_def)
  ultimately show "wc_passphrase w = client_passphrase (sto_master_key (relays_of srv)) (c\<lparr>c_key_version := c_key_version c + 1\<rparr>)"
    by (simp add: x(2) worker_client_def client_passphrase_def client_message_def)
qed


end
