(* ===== verification/ServerDemo.thy ===== *)
theory ServerDemo
  imports ServerLogin ServerRevoke SrtStoreDemo StreamStoreDemo
begin

text \<open>
  The properties of the server at concrete requests: a login and a request with its token, and
  the deletion of a client while the worker of its relay runs.
\<close>

subsection \<open>A server\<close>

definition demo_json :: json_codec where
  "demo_json = \<lparr>js_credentials = (\<lambda>_. Inr (''admin'', ''123456'')), js_refresh_token = (\<lambda>t. Inr t),
     js_passwords = (\<lambda>_. Inl ''EOF''), js_password = (\<lambda>_. Inl ''EOF''), js_input_url = (\<lambda>_. Inl ''EOF''),
     js_profile = (\<lambda>_. Inl ''EOF''), js_stream = (\<lambda>_. Inl ''EOF''), js_relay = (\<lambda>_. Inl ''EOF''),
     js_client = (\<lambda>_. Inl ''EOF''), js_probed = (\<lambda>t. Inr t), js_claims_enc = (\<lambda>c. Some (if cl_type c = ''access'' then [1] else [2])),
     js_claims_dec = (\<lambda>body. Some \<lparr>cl_subject = ''admin'', cl_type = (if body = [1] then ''access'' else ''refresh''),
       cl_token_version = 1, cl_expires_at = (if body = [1] then time_add (Nanos 5) (seconds 900) else time_add (Nanos 5) (seconds 604800))\<rparr>)\<rparr>"

definition demo_http :: http_env where
  "demo_http = \<lparr>en_now = Nanos 5, en_random = None, en_saved = True, en_json = demo_json,
     en_spawn = Spawned 7, en_others = (\<lambda>m. m), en_delivered = True,
     en_srt_spawn = (\<lambda>_. \<lparr>se_path_error = None, se_process = Inr 7\<rparr>),
     en_turns = (\<lambda>_. [(Nanos 6, \<lambda>m. m\<lparr>mgr_jobs := []\<rparr>), (Nanos 7, \<lambda>m. m)]),
     en_audit_enc = sample_enc, en_audit_dec = sample_dec, en_operator_audit = sample_env, en_warning_audit = sample_env,
     en_audit_dir = True, en_audit_file = (\<lambda>_. True), en_ffprobe = (\<lambda>_ _. Inl ''missing''), 
     en_doctor = \<lparr>de_look_path = (\<lambda>_. None), de_run = (\<lambda>_ _. None), de_make_dir = (\<lambda>_. None), de_write = (\<lambda>_. None)\<rparr>, en_cores = 4,
     en_static = (\<lambda>_. False), en_channel = 0\<rparr>"

definition demo_server :: "stream_store \<Rightarrow> server" where
  "demo_server s = \<lparr>srv_cfg = default_config, srv_jobs = new_job_manager ''ffmpeg'' (system_config_from (ac_ffmpeg default_config)) s,
     srv_srt = (new_manager ''worker'' (demo_state []))
       \<lparr>mgr_jobs := [(''live'', \<lparr>job_token = 0, job_pid = 7, job_stopping = False\<rparr>)], mgr_next := 1\<rparr>,
     srv_srt_error = None, srv_sys = new_collector (Nanos 1) []\<rparr>"

lemma demo_server_stores [simp]: "streams_of (demo_server s) = s" "relays_of (demo_server s) = demo_state []"
  by (simp_all add: demo_server_def new_job_manager_def new_manager_def)

subsection \<open>A login\<close>

lemma demo_admin:
  obtains s u where "stream_reachable s" "authenticate s ''admin'' ''123456'' = Some u" "us_username u = ''admin''" "us_token_version u = 1"
proof -
  let ?u = "\<lparr>us_username = ''admin'', us_password_hash = hash_text [1, 2] ''123456'', us_must_change_password = True,
    us_created_at = Nanos 5, us_updated_at = Nanos 5, us_token_version = 1\<rparr>"
  obtain s where s: "new_stream_store (Some (replicate 32 0)) (Some [1, 2]) (Nanos 5) True True ''state.json'' None = Inr s"
    using store_opens [of "''state.json''" "Nanos 5"] by auto
  have "load_state True (empty_stream_store ''state.json'' None) = Inr (empty_stream_store ''state.json'' None)"
    by (simp add: load_state_def empty_stream_store_def)
  moreover have "new_user (Some [1, 2]) ''admin'' ''123456'' True (Nanos 5) = Inr ?u"
    by (simp add: new_user_def demo_checks hash_password_def)
  ultimately have "get (sg_users s) ''admin'' = Some ?u"
    using s by (auto simp: new_stream_store_def ensure_auth_def ensure_secret_def ensure_admin_def generate_secret_def
        empty_stream_store_def stream_save_def has_key_def split: if_splits)
  then have "authenticate s ''admin'' ''123456'' = Some ?u" by (simp add: authenticate_def verify_hash_text)
  moreover have "stream_reachable s" using stream_reachable.opened [OF s] by (simp add: random_ok_def)
  ultimately show ?thesis using that by force
qed

lemma demo_claims_survive:
  "us_username u = ''admin'' \<Longrightarrow> us_token_version u = 1 \<Longrightarrow> claims_survive demo_json (claims_of u ''access'' (time_add (Nanos 5) (seconds 900)))"
  "us_username u = ''admin'' \<Longrightarrow> us_token_version u = 1 \<Longrightarrow> claims_survive demo_json (claims_of u ''refresh'' (time_add (Nanos 5) (seconds 604800)))"
  by (simp_all add: claims_survive_def claims_of_def demo_json_def)

definition demo_request :: "string \<Rightarrow> string \<Rightarrow> string \<Rightarrow> request" where
  "demo_request method path token = \<lparr>rq_method = method, rq_path = path, rq_escaped = path, rq_query = [],
     rq_authorization = (if token = [] then [] else ''Bearer '' @ token), rq_body = []\<rparr>"


subsection \<open>A request with a token\<close>

lemma demo_early: "Nanos 5 < time_add (Nanos 5) (seconds 900)"
  by (simp add: time_add_def seconds_def gotime_less_iff)

lemma demo_dispatch: "dispatch routes Web ''GET'' ''/api/users'' = (Main GetUsers, [])"
proof -
  have "path_segments ''/api/users'' = [''api'', ''users'']" by (simp add: path_segments_def path_unescape_def)
  then show ?thesis by (simp add: routes_def pattern_match_def method_serves_def pattern_segments_def has_prefix_def)
qed

theorem requests_need_token_witness:
  "\<exists>s u token. user_from_request demo_http ''access'' (demo_request ''GET'' ''/api/users'' token) (demo_server s) = Inr u
    \<and> serve demo_http (demo_request ''GET'' ''/api/users'' token) (demo_server s) = Some (reply 200 (Accounts (list_users s)), demo_server s)"
proof -
  obtain s u where s: "stream_reachable s" "authenticate s ''admin'' ''123456'' = Some u" "us_username u = ''admin''" "us_token_version u = 1"
    by (rule demo_admin)
  have g: "get (sg_users s) ''admin'' = Some u" using s(2) by (simp add: authenticate_def split: option.splits if_splits)
  obtain token where t: "token \<noteq> []" "verify_token (js_claims_dec demo_json) (sg_auth_secret s) token ''access'' (Nanos 5)
      = Inr (claims_of u ''access'' (time_add (Nanos 5) (seconds 900)))"
    using issued_for_user [OF demo_claims_survive(1) [OF s(3,4)], of "sg_auth_secret s"] s(3,4) demo_early by auto
  let ?rq = "demo_request ''GET'' ''/api/users'' token"
  have b: "bearer_token ?rq = token" using t(1) by (simp add: bearer_token_def demo_request_def trim_prefix_def has_prefix_def)
  have u: "user_from_request demo_http ''access'' ?rq (demo_server s) = Inr u"
    using t s(4) g by (simp add: user_from_request_def b demo_http_def verify_token_claims_def claims_of_def s(3))
  have r: "serve demo_http ?rq (demo_server s) = Some (reply 200 (Accounts (list_users s)), demo_server s)"
    by (simp add: serve_def u serve_mux_def) (simp add: demo_request_def open_path_def has_prefix_def clean_path_def demo_dispatch handle_def)
  have "paths_agree ?rq" by (simp add: paths_agree_def demo_request_def has_prefix_def)
  from requests_need_token [OF this r] obtain v where "user_from_request demo_http ''access'' ?rq (demo_server s) = Inr v" by auto
  then show ?thesis using r by blast
qed

subsection \<open>A revocation\<close>

lemma demo_calm: "calm demo_http"
  by (simp add: calm_def demo_http_def evolves_def same_setup_def)

lemma demo_deleted:
  obtains s1 where "delete_client (Nanos 5) True ''alice'' (demo_state []) = (Inr True, s1)"
    "sto_relays s1 = [(''live'', demo_listener)]"
proof -
  have "\<not> r_allow_missing_stream_id demo_listener" by (simp add: demo_defs)
  then obtain e s0 where d: "delete_client (Nanos 5) True ''alice'' (demo_state []) = save_and_emit True e True s0"
    "sto_relays s0 = [(''live'', demo_listener)]" "sto_path s0 = ''/state''"
    by (simp add: delete_client_def has_key_def) (simp add: demo_state_def empty_store_def)
  then show ?thesis using that [of "snd (save_and_emit True e True s0)"] by (simp add: save_and_emit_def save_locked_def)
qed

lemma demo_restarted:
  assumes "sto_relays (mgr_store m) = [(''live'', demo_listener)]" "mgr_jobs m = [(''live'', \<lparr>job_token = 0, job_pid = 7, job_stopping = False\<rparr>)]"
  shows "\<exists>m'. restart_each demo_http [] [''live''] m = Some (None, m')"
proof -
  obtain view where v: "get_relay (Nanos 5) (mgr_store m) ''live'' = Some view" "v_config view = demo_listener"
    using assms(1) by (simp add: get_relay_def get_def)
  have "\<not> r_enabled demo_listener" by (simp add: demo_defs)
  moreover have "\<exists>m'. stop_relay (Nanos 5) True ''live'' m = (Inr (), m')"
    using assms(2) by (simp add: stop_relay_def stop_claim_def get_def)
  ultimately show ?thesis
    using v assms(2) by (auto simp: demo_http_def is_running_def has_key_def get_def apply_relay_def error_of_def)
qed

lemma demo_removed:
  obtains srv' where "remove_client demo_http None ''alice'' (demo_server s) = Some (reply 204 NoContent, srv')"
proof -
  obtain s1 where s1: "delete_client (Nanos 5) True ''alice'' (demo_state []) = (Inr True, s1)"
    "sto_relays s1 = [(''live'', demo_listener)]" by (rule demo_deleted)
  let ?audit = "zero_audit_event\<lparr>a_type := ''client_deleted'', a_client_id := ''alice'', a_level := ''warning''\<rparr>"
  let ?srv = "(demo_server s)\<lparr>srv_srt := (srv_srt (demo_server s))\<lparr>mgr_store := s1\<rparr>\<rparr>"
  let ?srv1 = "record_operator demo_http None ?audit ?srv"
  have jobs: "mgr_jobs (srv_srt ?srv1) = [(''live'', \<lparr>job_token = 0, job_pid = 7, job_stopping = False\<rparr>)]"
    by (simp add: record_operator_def demo_server_def)
  obtain m' where m': "restart_each demo_http [] [''live''] (srv_srt ?srv1) = Some (None, m')"
    using demo_restarted [OF _ jobs] s1(2) by auto
  have now: "en_now demo_http = Nanos 5" "en_saved demo_http" by (simp_all add: demo_http_def)
  have "c_allowed_relay_ids demo_stored = [''live'']" by (simp add: demo_defs)
  then have "remove_client demo_http None ''alice'' (demo_server s) = Some (reply 204 NoContent, ?srv1\<lparr>srv_srt := m'\<rparr>)"
    using m' by (simp add: remove_client_def now s1(1) on_relays_def get_client_def warn_unless_applied_def restart_srt_relays_def del: restart_each.simps)
  then show ?thesis by (rule that)
qed


end
