(* ===== verification/ServerLifeDemo.thy ===== *)
theory ServerLifeDemo
  imports ServerLife ServerDemo
begin

text \<open>
  The invariant of the server at a first start with the default configuration, the start of
  its relays, and a request without a token.
\<close>

lemma first_start:
  obtains srv where "server_reachable sample_enc srv" "srv_srt_error srv = None"
proof -
  let ?cfg = default_config
  obtain s where s: "new_stream_store (Some (replicate 32 0)) (Some [1, 2]) (Nanos 5) True True (ac_storage_path ?cfg) None = Inr s"
    using store_opens [of "ac_storage_path ?cfg" "Nanos 5"] by (auto simp: default_config_def)
  obtain t where t: "open_srt_store (Nanos 5) (ac_srt ?cfg) FileMissing (Some (replicate 32 1)) True [] True None = Inr t"
    by (simp add: open_srt_store_def load_or_create_master_key_def new_audit_store_def default_config_def new_store_def
        load_store_def empty_store_def)
  obtain srv where srv: "new_server (Nanos 5) ?cfg (Inr s) (Inr t) (new_ephemeral_store True None) = Inr srv" "srv_srt_error srv = None"
    by (simp add: new_server_def)
  have "new_server (Nanos 5) ?cfg (Inr s) (open_srt_store (Nanos 5) (ac_srt ?cfg) FileMissing (Some (replicate 32 1)) True [] True None)
      (new_ephemeral_store True None) = Inr srv" by (simp add: t srv(1))
  from server_reachable.opened [OF s _ _ this] have "server_reachable sample_enc srv"
    by (simp add: random_ok_def written_by_earlier_run_def)
  then show ?thesis using that srv(2) by blast
qed

lemma demo_benign: "benign sample_enc demo_http"
proof -
  have "relays_go sample_enc m (m\<lparr>mgr_jobs := []\<rparr>)" for m by (rule store_same_go) simp
  then show ?thesis by (simp add: benign_def demo_http_def)
qed

theorem server_stores_valid_witness:
  "\<exists>srv. serve demo_http (demo_request ''POST'' ''/api/srt/relays'' []) srv = Some (write_error 401 (Said ''missing bearer token''), srv)
    \<and> server_reachable sample_enc srv \<and> get_user (streams_of srv) ''admin'' \<noteq> None"
proof -
  obtain srv0 where r0: "server_reachable sample_enc srv0" by (rule first_start)
  let ?srv = "start_server demo_http srv0"
  let ?rq = "demo_request ''POST'' ''/api/srt/relays'' []"
  have q: "serve demo_http ?rq ?srv = Some (write_error 401 (Said ''missing bearer token''), ?srv)"
    by (simp add: serve_def user_from_request_def bearer_token_def demo_request_def open_path_def has_prefix_def)
  have "server_reachable sample_enc ?srv" by (rule server_reachable.next_state [OF r0 server_step.starts])
  then have r: "server_reachable sample_enc ?srv"
    by (rule server_reachable.next_state) (rule server_step.request [OF q demo_benign])
  show ?thesis using server_stores_valid [OF r] q r by blast
qed

end
