(* ===== verification/AppConfigProps.thy ===== *)
theory AppConfigProps
  imports AppConfig
begin

text \<open>
  What survives a rewrite of the configuration file, and the prompt of the installer.
\<close>

subsection \<open>Rewriting the file\<close>

text \<open>The tuning members the tags leave out when they are switched off or zero.\<close>

definition tuning_set :: "app_config \<Rightarrow> bool" where
  "tuning_set c \<longleftrightarrow> (let f = ac_ffmpeg c; u = fc_udp f; p = fc_probe f in
     fc_log_level f \<noteq> [] \<and> uc_buffer_size u \<noteq> 0 \<and> uc_fifo_size u \<noteq> 0 \<and> uc_overrun_nonfatal u \<and> uc_reuse u
     \<and> uc_pkt_size u \<noteq> 0 \<and> pb_analyze_duration p \<noteq> 0 \<and> pb_probe_size p \<noteq> 0)"

definition reloaded :: "app_config \<Rightarrow> app_config" where
  "reloaded c = unmarshal_config (marshal_config c) default_config"

lemma member_or_simps [simp]: "member_or d (Some v) = v" "member_or d (omit_empty z v) = (if v = z then d else v)"
  by (simp_all add: member_or_def omit_empty_def)

lemma reloaded_same_iff: "reloaded c = c \<longleftrightarrow> tuning_set c"
  by (cases c; cases "ac_ffmpeg c"; cases "fc_udp (ac_ffmpeg c)"; cases "fc_probe (ac_ffmpeg c)";
      cases "ac_server c"; cases "ac_srt c"; cases "ac_logs c")
    (auto simp: reloaded_def unmarshal_config_def marshal_config_def Let_def default_config_def tuning_set_def)

lemma reloaded_keeps:
  "ac_server (reloaded c) = ac_server c" "ac_srt (reloaded c) = ac_srt c" "ac_storage_path (reloaded c) = ac_storage_path c"
  "ac_logs (reloaded c) = ac_logs c" "fc_path (ac_ffmpeg (reloaded c)) = fc_path (ac_ffmpeg c)"
  "fc_ffprobe_path (ac_ffmpeg (reloaded c)) = fc_ffprobe_path (ac_ffmpeg c)"
  by (simp_all add: reloaded_def unmarshal_config_def marshal_config_def Let_def)

lemma reloaded_tuning: "tuning_set (reloaded c)"
  by (auto simp: tuning_set_def reloaded_def unmarshal_config_def marshal_config_def Let_def default_config_def)

lemma validate_reloaded: "validate_config (reloaded c) = validate_config c"
  by (simp add: validate_config_def reloaded_keeps)

lemma load_written: "validate_config c = Inr () \<Longrightarrow> load_config (ConfigFile (marshal_config c)) = Inr (reloaded c)"
  using validate_reloaded [of c] by (simp add: load_config_def Let_def flip: reloaded_def)

lemma validate_ok_iff: "validate_config c = Inr () \<longleftrightarrow> validate_port (sc_port (ac_server c))
    \<and> parse_ip (sc_bind (ac_server c)) \<noteq> None
    \<and> [] \<notin> {fc_path (ac_ffmpeg c), fc_ffprobe_path (ac_ffmpeg c), rc_worker_path (ac_srt c), rc_state_path (ac_srt c),
         rc_master_key_path (ac_srt c), rc_audit_dir (ac_srt c), ac_storage_path c, lc_level (ac_logs c)}
    \<and> 1 \<le> rc_audit_retention_days (ac_srt c)"
  by (auto simp: validate_config_def validate_port_def)

lemma any_address: "parse_ip ''0.0.0.0'' \<noteq> None"
  by code_simp

lemma load_config_valid: "load_config f = Inr c \<Longrightarrow> validate_config c = Inr ()"
proof (cases f)
  case NoConfigFile
  moreover have "validate_config default_config = Inr ()" unfolding validate_ok_iff using any_address
    by (simp add: default_config_def validate_port_def)
  ultimately show "load_config f = Inr c \<Longrightarrow> validate_config c = Inr ()" by (simp add: load_config_def)
qed (auto simp: load_config_def Let_def and_then_Inr)


definition quiet_config :: app_config where
  "quiet_config = default_config\<lparr>ac_ffmpeg := (ac_ffmpeg default_config)\<lparr>fc_udp :=
     (fc_udp (ac_ffmpeg default_config))\<lparr>uc_reuse := False\<rparr>\<rparr>\<rparr>"


subsection \<open>The prompt and the address\<close>

text \<open>Whatever is typed, the prompt ends with a valid port, the given one, or an error.\<close>

theorem prompt_port_valid:
  "prompt_port fallback failure input = Inr port \<Longrightarrow> port = fallback \<or> validate_port port"
  by (induction fallback failure input rule: prompt_port.induct)
    (subst (asm) (2) prompt_port.simps, auto simp: Let_def split: prod.splits if_splits option.splits)

text \<open>
  The address the server listens at: a host with colons, as every IPv6 address that the
  validation accepts, is not bracketed, so the last colon is not the only one.
\<close>

theorem addr_bracketless:
  "(addr c = join_host_port (sc_bind (ac_server c)) (itoa (sc_port (ac_server c))))
    \<longleftrightarrow> CHR '':'' \<notin> set (sc_bind (ac_server c)) \<and> CHR ''%'' \<notin> set (sc_bind (ac_server c))"
proof -
  have "h @ '':'' @ p \<noteq> ''['' @ h @ '']:'' @ p" for h p :: string
    using arg_cong [of "h @ '':'' @ p" "''['' @ h @ '']:'' @ p" length] by auto
  then show ?thesis by (auto simp: addr_def join_host_port_def)
qed

lemma ipv6_bind_accepted: "parse_ip ''::'' \<noteq> None"
  by code_simp

end
