(* ===== verification/InstallFiles.thy ===== *)
theory InstallFiles
  imports AppConfigProps Doctor
begin

text \<open>
  What the installer does to the host (\<open>internal/installer/installer.go\<close>): the files it copies and
  keeps, the directories and who owns them, the commands it runs. The answers of the system
  are in \<open>install_env\<close>; an error is its text.
\<close>

subsection \<open>The host\<close>

datatype owner = RootOwned | ServiceOwned

record host =
  ho_files :: "(string, string) gomap"
  ho_dirs :: "(string, owner) gomap"
  ho_commands :: "(string \<times> string list) list"
  ho_config :: config_file

text \<open>A copy that fails after some bytes leaves these; so does a write.\<close>

record install_env =
  ie_root :: bool
  ie_executable :: "(string, string) result"
  ie_input :: string
  ie_input_failure :: "string option"
  ie_cwd :: "(string, string) result"
  ie_stamp :: "string \<Rightarrow> string"
  ie_command :: "string \<Rightarrow> string list \<Rightarrow> (string \<times> string) option"
  ie_make_dir :: "string \<Rightarrow> string option"
  ie_stat :: "string \<Rightarrow> string option"
  ie_open :: "string \<Rightarrow> string option"
  ie_create :: "string \<Rightarrow> string option"
  ie_copy :: "string \<Rightarrow> (nat \<times> string) option"
  ie_close :: "string \<Rightarrow> string option"
  ie_rename :: "string \<Rightarrow> string option"
  ie_write :: "string option"
  ie_doctor :: doctor_env

definition service_name :: string where "service_name = ''neotranscoder''"
definition bin_path :: string where "bin_path = ''/usr/local/bin/neotranscoder''"
definition lib_dir :: string where "lib_dir = ''/usr/local/lib/neotranscoder''"
definition config_dir :: string where "config_dir = ''/etc/neotranscoder''"
definition state_dir :: string where "state_dir = ''/var/lib/neotranscoder''"
definition log_dir :: string where "log_dir = ''/var/log/neotranscoder''"
definition unit_path :: string where "unit_path = ''/etc/systemd/system/neotranscoder.service''"
definition backup_dir :: string where "backup_dir = ''/var/lib/neotranscoder/backups''"

subsection \<open>Files\<close>

text \<open>
  \<open>copyFile\<close>: the copy is made beside the target and renamed. When the source is that very
  file, opening it for writing empties it first.
\<close>

definition copy_file :: "install_env \<Rightarrow> string \<Rightarrow> string \<Rightarrow> (string, string) gomap \<Rightarrow> string option \<times> (string, string) gomap" where
  "copy_file env source target files = (case get files source of
     None \<Rightarrow> (Some ''no such file or directory'', files)
   | Some content \<Rightarrow> (case ie_open env source of
       Some e \<Rightarrow> (Some e, files)
     | None \<Rightarrow> (let tmp = target @ ''.tmp''; data = (if source = tmp then [] else content) in
         case ie_create env tmp of
           Some e \<Rightarrow> (Some e, files)
         | None \<Rightarrow> (case ie_copy env tmp of
             Some (n, e) \<Rightarrow> (Some e, put tmp (take n data) files)
           | None \<Rightarrow> (case ie_close env tmp of
               Some e \<Rightarrow> (Some e, put tmp data files)
             | None \<Rightarrow> (case ie_rename env tmp of
                 Some e \<Rightarrow> (Some e, put tmp data files)
               | None \<Rightarrow> (None, put target data (del tmp files))))))))"

definition abs_path :: "install_env \<Rightarrow> string \<Rightarrow> (string, string) result" where
  "abs_path env p = (if has_prefix p ''/'' then Inr (filepath_clean p)
     else (case ie_cwd env of Inl e \<Rightarrow> Inl e | Inr wd \<Rightarrow> Inr (filepath_join wd p)))"

definition file_exists :: "install_env \<Rightarrow> string \<Rightarrow> (string, string) gomap \<Rightarrow> bool" where
  "file_exists env p files \<longleftrightarrow> has_key files p \<and> ie_stat env p = None"

definition filepath_base :: "string \<Rightarrow> string" where
  "filepath_base p = (let q = rev (dropWhile (\<lambda>c. c = CHR ''/'') (rev p)); b = rev (takeWhile (\<lambda>c. c \<noteq> CHR ''/'') (rev q))
     in if p = [] then ''.'' else if b = [] then ''/'' else b)"

definition backup_path :: "install_env \<Rightarrow> string \<Rightarrow> string" where
  "backup_path env target = filepath_join backup_dir (filepath_base target @ ''.'' @ ie_stamp env target)"

definition install_binary :: "install_env \<Rightarrow> string \<Rightarrow> string \<Rightarrow> (string, string) gomap \<Rightarrow> string option \<times> (string, string) gomap" where
  "install_binary env source target files = (case abs_path env source of
     Inl e \<Rightarrow> (Some e, files)
   | Inr source_path \<Rightarrow> (case abs_path env target of
       Inl e \<Rightarrow> (Some e, files)
     | Inr target_path \<Rightarrow>
         if source_path = target_path then (None, files)
         else (case (if file_exists env target files then copy_file env target (backup_path env target) files else (None, files)) of
           (Some e, files') \<Rightarrow> (Some e, files')
         | (None, files') \<Rightarrow> copy_file env source target files')))"

fun install_scripts :: "install_env \<Rightarrow> string \<Rightarrow> string list \<Rightarrow> (string, string) gomap \<Rightarrow> string option \<times> (string, string) gomap" where
  "install_scripts env dir [] files = (None, files)"
| "install_scripts env dir (name # names) files =
     (if \<not> file_exists env (filepath_join dir name) files then install_scripts env dir names files
      else (case copy_file env (filepath_join dir name) (filepath_join lib_dir name) files of
        (Some e, files') \<Rightarrow> (Some e, files')
      | (None, files') \<Rightarrow> install_scripts env dir names files'))"

definition helper_scripts :: "string list" where
  "helper_scripts = [''install.sh'', ''update.sh'', ''uninstall.sh'']"

definition install_srt_worker :: "install_env \<Rightarrow> string \<Rightarrow> (string, string) gomap \<Rightarrow> string option \<times> (string, string) gomap" where
  "install_srt_worker env dir files = (let source = filepath_join dir ''neotranscoder-srt-worker'' in
     if \<not> has_key files source then (None, files)
     else (case ie_stat env source of
       Some e \<Rightarrow> (Some e, files)
     | None \<Rightarrow> install_binary env source installer_worker_path files))"

definition unit_lines :: "string list" where
  "unit_lines = [''[Unit]'', ''Description=NeoTranscoder multicast transcoder manager'', ''After=network-online.target'',
     ''Wants=network-online.target'', [], ''[Service]'', ''User=neotranscoder'', ''Group=neotranscoder'',
     ''ExecStart=/usr/local/bin/neotranscoder serve --config /etc/neotranscoder/config.json'', ''Restart=always'',
     ''RestartSec=5'', ''LimitNOFILE=1048576'', ''NoNewPrivileges=true'', ''PrivateTmp=true'', ''ProtectSystem=strict'',
     ''ProtectHome=true'', ''ReadWritePaths=/var/lib/neotranscoder /var/log/neotranscoder'',
     ''RestrictAddressFamilies=AF_UNIX AF_INET AF_INET6'', ''UMask=0077'', [], ''[Install]'', ''WantedBy=multi-user.target'']"

definition unit_text :: string where
  "unit_text = concat (map (\<lambda>l. l @ [byte 10]) unit_lines)"

definition write_unit :: "install_env \<Rightarrow> (string, string) gomap \<Rightarrow> string option \<times> (string, string) gomap" where
  "write_unit env files = (case ie_create env unit_path of
     Some e \<Rightarrow> (Some e, files)
   | None \<Rightarrow> (case ie_copy env unit_path of
       Some (n, e) \<Rightarrow> (Some e, put unit_path (take n unit_text) files)
     | None \<Rightarrow> (ie_close env unit_path, put unit_path unit_text files)))"

subsection \<open>Directories\<close>

text \<open>A directory and those above it that are missing are made by root.\<close>

definition ancestors :: "string \<Rightarrow> string list" where
  "ancestors p = (let parts = filter (\<lambda>s. s \<noteq> []) (split_on (CHR ''/'') p);
       root = (if has_prefix p ''/'' then ''/'' else [])
     in map (\<lambda>k. root @ join_with ''/'' (take k parts)) [1..<length parts + 1])"

definition make_dirs :: "string \<Rightarrow> (string, owner) gomap \<Rightarrow> (string, owner) gomap" where
  "make_dirs p dirs = fold (\<lambda>d dirs. if has_key dirs d then dirs else put d RootOwned dirs) (ancestors p) dirs"

definition below :: "string \<Rightarrow> string \<Rightarrow> bool" where
  "below p d \<longleftrightarrow> d = p \<or> has_prefix d (p @ ''/'')"

definition chown_dirs :: "string list \<Rightarrow> (string, owner) gomap \<Rightarrow> (string, owner) gomap" where
  "chown_dirs paths dirs = map (\<lambda>(d, own). (d, if list_ex (\<lambda>p. below p d) paths then ServiceOwned else own)) dirs"

text \<open>The directories the doctor makes when it tests whether they are writable.\<close>

definition doctor_dirs :: "app_config \<Rightarrow> string list" where
  "doctor_dirs c = [filepath_dir (ac_storage_path c), filepath_dir (lc_path (ac_logs c)),
     filepath_dir (rc_state_path (ac_srt c)), rc_audit_dir (ac_srt c)]"

definition doctor_makes :: "doctor_env \<Rightarrow> app_config \<Rightarrow> (string, owner) gomap \<Rightarrow> (string, owner) gomap" where
  "doctor_makes env c dirs = fold (\<lambda>p dirs. if p = [] \<or> de_make_dir env p \<noteq> None then dirs else make_dirs p dirs) (doctor_dirs c) dirs"

subsection \<open>Commands\<close>

definition run_program :: "install_env \<Rightarrow> string \<Rightarrow> string list \<Rightarrow> host \<Rightarrow> string option \<times> host" where
  "run_program env name args h = (map_option (\<lambda>(e, out).
       name @ '' '' @ join_with '' '' args @ '': '' @ e @ '': '' @ trim_space out) (ie_command env name args),
     h\<lparr>ho_commands := ho_commands h @ [(name, args)]\<rparr>)"

definition ensure_user :: "install_env \<Rightarrow> host \<Rightarrow> string option \<times> host" where
  "ensure_user env h = (case run_program env ''id'' [service_name] h of
     (None, h') \<Rightarrow> (None, h')
   | (Some _, h') \<Rightarrow> run_program env ''useradd'' [''--system'', ''--home'', state_dir, ''--shell'', ''/usr/sbin/nologin'', service_name] h')"

definition chown_data :: "install_env \<Rightarrow> host \<Rightarrow> host" where
  "chown_data env h = (case run_program env ''chown'' [''-R'', service_name @ '':'' @ service_name, state_dir, log_dir] h of
     (Some _, h') \<Rightarrow> h'
   | (None, h') \<Rightarrow> h'\<lparr>ho_dirs := chown_dirs [state_dir, log_dir] (ho_dirs h')\<rparr>)"

end
