(* ===== verification/Installer.thy ===== *)
theory Installer
  imports InstallFiles
begin

text \<open>
  The \<open>init\<close> command (\<open>internal/installer/installer.go\<close>, \<open>cmd/neotranscoder/main.go\<close>): which port it
  takes, its steps up to the first that fails, and what they leave on the host.
\<close>

datatype install_step =
    EnsureUser | MakeDirectory string | InstallBinary | InstallWorker | InstallScripts | WriteUnit | ChownData
  | DaemonReload | EnableService

datatype install_error =
    NotRoot | NoExecutable string | PortPrompt prompt_error | PortRefused | StepFailed install_step string | ConfigRefused setting_error

record install_options =
  io_port :: int
  io_force_config :: bool
  io_yes :: bool
  io_source_path :: string

definition install_port :: "install_env \<Rightarrow> install_options \<Rightarrow> (install_error, int) result" where
  "install_port env opts =
     and_then (if io_port opts = 0 \<and> \<not> io_yes opts
       then (case prompt_port (sc_port (ac_server default_config)) (ie_input_failure env) (ie_input env) of
           Inl e \<Rightarrow> Inl (PortPrompt e) | Inr port \<Rightarrow> Inr port)
       else Inr (io_port opts)) (\<lambda>chosen.
       let port = (if chosen = 0 then sc_port (ac_server default_config) else chosen) in
       if validate_port port then Inr port else Inl PortRefused)"

definition install_source :: "install_env \<Rightarrow> install_options \<Rightarrow> (install_error, string) result" where
  "install_source env opts = (if io_source_path opts \<noteq> [] then Inr (io_source_path opts)
     else (case ie_executable env of Inl e \<Rightarrow> Inl (NoExecutable e) | Inr exe \<Rightarrow> Inr exe))"

definition on_files :: "((string, string) gomap \<Rightarrow> string option \<times> (string, string) gomap) \<Rightarrow> host \<Rightarrow> string option \<times> host" where
  "on_files f h = (case f (ho_files h) of (e, files) \<Rightarrow> (e, h\<lparr>ho_files := files\<rparr>))"

fun do_step :: "install_env \<Rightarrow> string \<Rightarrow> install_step \<Rightarrow> host \<Rightarrow> string option \<times> host" where
  "do_step env source EnsureUser h = ensure_user env h"
| "do_step env source (MakeDirectory d) h = (case ie_make_dir env d of
     Some e \<Rightarrow> (Some e, h)
   | None \<Rightarrow> (None, h\<lparr>ho_dirs := make_dirs d (ho_dirs h)\<rparr>))"
| "do_step env source InstallBinary h = on_files (install_binary env source bin_path) h"
| "do_step env source InstallWorker h = on_files (install_srt_worker env (filepath_dir source)) h"
| "do_step env source InstallScripts h = on_files (install_scripts env (filepath_dir source) helper_scripts) h"
| "do_step env source WriteUnit h = on_files (write_unit env) h"
| "do_step env source ChownData h = (None, chown_data env h)"
| "do_step env source DaemonReload h = run_program env ''systemctl'' [''daemon-reload''] h"
| "do_step env source EnableService h = run_program env ''systemctl'' [''enable'', ''--now'', service_name] h"

fun run_steps :: "install_env \<Rightarrow> string \<Rightarrow> install_step list \<Rightarrow> host \<Rightarrow> (install_error, unit) result \<times> host" where
  "run_steps env source [] h = (Inr (), h)"
| "run_steps env source (s # ss) h = (case do_step env source s h of
     (Some e, h') \<Rightarrow> (Inl (StepFailed s e), h')
   | (None, h') \<Rightarrow> run_steps env source ss h')"

definition installed_directories :: "string list" where
  "installed_directories = [config_dir, state_dir, log_dir, lib_dir, backup_dir]"

definition steps_before :: "install_step list" where
  "steps_before = EnsureUser # map MakeDirectory installed_directories @ [InstallBinary, InstallWorker, InstallScripts]"

text \<open>
  The result is whether the doctor found fault; the service is enabled whatever it says.
\<close>

definition run_installer :: "install_env \<Rightarrow> install_options \<Rightarrow> host \<Rightarrow> (install_error, bool) result \<times> host" where
  "run_installer env opts h =
     (if \<not> ie_root env then (Inl NotRoot, h)
      else (case and_then (install_source env opts) (\<lambda>source. and_then (install_port env opts) (\<lambda>port. Inr (source, port))) of
        Inl e \<Rightarrow> (Inl e, h)
      | Inr (source, port) \<Rightarrow> (case run_steps env source steps_before h of
          (Inl e, h1) \<Rightarrow> (Inl e, h1)
        | (Inr _, h1) \<Rightarrow> (case install_config (ie_write env) port (io_force_config opts) (ho_config h1) of
            (Inl e, f) \<Rightarrow> (Inl (ConfigRefused e), h1\<lparr>ho_config := f\<rparr>)
          | (Inr _, f) \<Rightarrow> (case run_steps env source [WriteUnit, ChownData] (h1\<lparr>ho_config := f\<rparr>) of
              (Inl e, h2) \<Rightarrow> (Inl e, h2)
            | (Inr _, h2) \<Rightarrow> (case load_config (ho_config h2) of
                Inl e \<Rightarrow> (Inl (ConfigRefused e), h2)
              | Inr c \<Rightarrow> (case run_steps env source [DaemonReload, EnableService]
                    (h2\<lparr>ho_dirs := doctor_makes (ie_doctor env) c (ho_dirs h2)\<rparr>) of
                  (Inl e, h3) \<Rightarrow> (Inl e, h3)
                | (Inr _, h3) \<Rightarrow> (Inr (snd (print_doctor (run_checks (ie_doctor env) c))), h3))))))))"

definition run_init :: "install_env \<Rightarrow> install_options option \<Rightarrow> host \<Rightarrow> nat \<times> host" where
  "run_init env flags h = (case flags of
     None \<Rightarrow> (2, h)
   | Some opts \<Rightarrow> (case run_installer env opts h of (r, h') \<Rightarrow> (if is_ok r then 0 else 1, h')))"

subsection \<open>The port\<close>

lemma install_port_valid: "install_port env opts = Inr port \<Longrightarrow> validate_port port"
  by (auto simp: install_port_def and_then_Inr Let_def split: if_splits)

lemma install_port_given: "io_port opts \<noteq> 0 \<Longrightarrow> install_port env opts =
    (if validate_port (io_port opts) then Inr (io_port opts) else Inl PortRefused)"
  by (simp add: install_port_def)

text \<open>Without a prompt and without a port, an installation goes back to the default port.\<close>

lemma unattended_port: "io_port opts = 0 \<Longrightarrow> io_yes opts \<Longrightarrow> install_port env opts = Inr 8080"
  by (simp add: install_port_def default_config_def validate_port_def)

lemma install_config_loads:
  assumes "install_config failure port force f = (Inr u, f')" "validate_port port"
  shows "\<exists>c. load_config f' = Inr c \<and> ac_server c = \<lparr>sc_bind = ''0.0.0.0'', sc_port = port\<rparr>"
proof -
  obtain c where c: "ac_server c = \<lparr>sc_bind = ''0.0.0.0'', sc_port = port\<rparr>" "write_config failure c f = (Inr u, f')"
    using that [OF _ assms(1) [unfolded install_config_def Let_def]] by simp
  then have "validate_config c = Inr ()" "f' = ConfigFile (marshal_config c)"
    by (auto simp: write_config_def split: sum.splits option.splits)
  then show ?thesis using c(1) load_written [of c] by (simp add: reloaded_keeps)
qed

subsection \<open>A successful installation, step by step\<close>

lemma step_keeps_config: "do_step env source s h = (r, h') \<Longrightarrow> ho_config h' = ho_config h"
  by (cases s) (auto simp: ensure_user_def run_program_def on_files_def chown_data_def split: prod.splits option.splits)

lemma steps_keep_config: "run_steps env source ss h = (r, h') \<Longrightarrow> ho_config h' = ho_config h"
  by (induction ss arbitrary: h) (auto dest: step_keeps_config split: prod.splits option.splits)

lemma run_steps_append:
  "run_steps env source (ss @ ts) h = (Inr (), h') \<longleftrightarrow>
    (\<exists>h1. run_steps env source ss h = (Inr (), h1) \<and> run_steps env source ts h1 = (Inr (), h'))"
  by (induction ss arbitrary: h) (auto split: prod.splits option.splits)

lemma installation_stages:
  assumes "run_installer env opts h = (Inr failed, h')"
  obtains source port c h1 h2 where "install_source env opts = Inr source" "install_port env opts = Inr port"
    "run_steps env source steps_before h = (Inr (), h1)"
    "install_config (ie_write env) port (io_force_config opts) (ho_config h) = (Inr (), ho_config h')"
    "run_steps env source [WriteUnit, ChownData] (h1\<lparr>ho_config := ho_config h'\<rparr>) = (Inr (), h2)"
    "load_config (ho_config h') = Inr c" "ac_server c = \<lparr>sc_bind = ''0.0.0.0'', sc_port = port\<rparr>"
    "run_steps env source [DaemonReload, EnableService]
      (h2\<lparr>ho_dirs := doctor_makes (ie_doctor env) c (ho_dirs h2)\<rparr>) = (Inr (), h')"
proof -
  obtain source port where sp: "install_source env opts = Inr source" "install_port env opts = Inr port"
    using assms by (auto simp: run_installer_def and_then_Inr split: if_splits sum.splits)
  obtain f h1 h2 c where run: "run_steps env source steps_before h = (Inr (), h1)"
    "install_config (ie_write env) port (io_force_config opts) (ho_config h1) = (Inr (), f)"
    "run_steps env source [WriteUnit, ChownData] (h1\<lparr>ho_config := f\<rparr>) = (Inr (), h2)" "load_config (ho_config h2) = Inr c"
    "run_steps env source [DaemonReload, EnableService] (h2\<lparr>ho_dirs := doctor_makes (ie_doctor env) c (ho_dirs h2)\<rparr>) = (Inr (), h')"
    using assms by (auto simp: run_installer_def sp simp del: run_steps.simps split: if_splits sum.splits prod.splits)
  note keep = steps_keep_config [OF run(1)] steps_keep_config [OF run(3)] steps_keep_config [OF run(5)]
  have "ac_server c = \<lparr>sc_bind = ''0.0.0.0'', sc_port = port\<rparr>"
    using install_config_loads [OF run(2) install_port_valid [OF sp(2)]] run(4) keep by simp
  then show ?thesis using that [OF sp run(1)] run keep by simp
qed

text \<open>The daemon that is enabled reads a configuration that listens on the chosen port of every address.\<close>

lemma installation_serves:
  assumes "run_installer env opts h = (Inr failed, h')"
  obtains port c where "install_port env opts = Inr port" "load_config (ho_config h') = Inr c" "addr c = ''0.0.0.0:'' @ itoa port"
  using assms by (rule installation_stages) (use that in \<open>simp add: addr_def\<close>)

end
