(* ===== verification/InstallerProps.thy ===== *)
theory InstallerProps
  imports Installer
begin

text \<open>
  What an installation leaves: files are replaced as a whole and the one replaced is kept,
  and who owns the directories of the daemon.
\<close>

subsection \<open>Files\<close>

lemma tmp_differs [simp]: "t @ ''.tmp'' \<noteq> t" "t \<noteq> t @ ''.tmp''"
  by simp_all

text \<open>
  A copy that fails leaves its target as it was, and one that succeeds gives it the content of
  the source; nothing else changes but the file beside the target.
\<close>

lemma copy_file_effect:
  assumes "copy_file env source target files = (r, files')" "source \<noteq> target @ ''.tmp''"
  shows "\<And>p. p \<noteq> target \<Longrightarrow> p \<noteq> target @ ''.tmp'' \<Longrightarrow> get files' p = get files p"
    and "r = None \<Longrightarrow> get files' target = get files source \<and> has_key files source"
    and "r \<noteq> None \<Longrightarrow> get files' target = get files target"
  using assms by (auto simp: copy_file_def Let_def has_key_def split: option.splits prod.splits)

text \<open>Replacing a binary keeps the old one, unless the new one is it.\<close>

lemma install_binary_keeps_old:
  assumes "install_binary env source target files = (None, files')" "abs_path env source \<noteq> abs_path env target"
    and "file_exists env target files" "source \<noteq> target @ ''.tmp''"
    and "backup_path env target \<notin> {source, source @ ''.tmp'', target, target @ ''.tmp''}" "source \<noteq> backup_path env target @ ''.tmp''"
    and "target \<noteq> backup_path env target @ ''.tmp''"
  shows "get files' target = get files source \<and> get files' (backup_path env target) = get files target"
proof (cases "source = target")
  case False
  obtain f1 where c: "copy_file env target (backup_path env target) files = (None, f1)" "copy_file env source target f1 = (None, files')"
    using assms(1-3) by (auto simp: install_binary_def split: sum.splits prod.splits option.splits if_splits)
  note one = copy_file_effect [OF c(1) assms(7)] and two = copy_file_effect [OF c(2) assms(4)]
  show ?thesis using two(2) one(1) [of source] one(2) two(1) [of "backup_path env target"] assms(5,6) False by auto
qed (use assms(2) in simp)

subsection \<open>Directories\<close>

lemma get_map_keyed: "get (map (\<lambda>(k, v). (k, g k v)) m) k = map_option (g k) (get m k)"
  by (induction m) (auto simp: get_def)

lemma make_dirs_get:
  "get (make_dirs p dirs) d = (case get dirs d of Some own \<Rightarrow> Some own | None \<Rightarrow> if d \<in> set (ancestors p) then Some RootOwned else None)"
proof -
  have "get (fold (\<lambda>d dirs. if has_key dirs d then dirs else put d RootOwned dirs) ds dirs) d
      = (case get dirs d of Some own \<Rightarrow> Some own | None \<Rightarrow> if d \<in> set ds then Some RootOwned else None)" for ds
    by (induction ds arbitrary: dirs) (auto simp: has_key_def split: option.split)
  then show ?thesis by (simp add: make_dirs_def)
qed

lemma chown_dirs_get:
  "get (chown_dirs ps dirs) d = map_option (\<lambda>own. if list_ex (\<lambda>p. below p d) ps then ServiceOwned else own) (get dirs d)"
  unfolding chown_dirs_def using get_map_keyed [of "\<lambda>d own. if list_ex (\<lambda>p. below p d) ps then ServiceOwned else own"] by simp

lemma doctor_makes_get:
  "get (doctor_makes env c dirs) d = (case get dirs d of Some own \<Rightarrow> Some own
    | None \<Rightarrow> if \<exists>p \<in> set (doctor_dirs c). p \<noteq> [] \<and> de_make_dir env p = None \<and> d \<in> set (ancestors p) then Some RootOwned else None)"
proof -
  have "get (fold (\<lambda>p dirs. if p = [] \<or> de_make_dir env p \<noteq> None then dirs else make_dirs p dirs) ps dirs) d
      = (case get dirs d of Some own \<Rightarrow> Some own
        | None \<Rightarrow> if \<exists>p \<in> set ps. p \<noteq> [] \<and> de_make_dir env p = None \<and> d \<in> set (ancestors p) then Some RootOwned else None)" for ps
    by (induction ps arbitrary: dirs) (auto simp: make_dirs_get split: option.split)
  then show ?thesis by (simp add: doctor_makes_def)
qed

lemma step_dirs:
  assumes "do_step env source s h = (None, h')" "s \<noteq> ChownData"
  shows "get (ho_dirs h') d = (case get (ho_dirs h) d of Some own \<Rightarrow> Some own
    | None \<Rightarrow> if \<exists>x. s = MakeDirectory x \<and> d \<in> set (ancestors x) then Some RootOwned else None)"
  using assms by (cases s) (auto simp: ensure_user_def run_program_def on_files_def make_dirs_get split: prod.splits option.splits)

lemma steps_dirs:
  "run_steps env source ss h = (Inr (), h') \<Longrightarrow> ChownData \<notin> set ss \<Longrightarrow>
    get (ho_dirs h') d = (case get (ho_dirs h) d of Some own \<Rightarrow> Some own
      | None \<Rightarrow> if \<exists>x. MakeDirectory x \<in> set ss \<and> d \<in> set (ancestors x) then Some RootOwned else None)"
  by (induction ss arbitrary: h) (auto simp: step_dirs split: prod.splits option.splits)

lemma chown_step: "run_steps env source [WriteUnit, ChownData] h = (Inr (), h') \<Longrightarrow>
    ie_command env ''chown'' [''-R'', service_name @ '':'' @ service_name, state_dir, log_dir] = None \<Longrightarrow>
    ho_dirs h' = chown_dirs [state_dir, log_dir] (ho_dirs h)"
  by (auto simp: on_files_def chown_data_def run_program_def split: prod.splits option.splits)

text \<open>
  C39: After a successful installation the directories for state and logs belong to the user the
  service runs as. The audit directory, when it lies below one of them, does so exactly when
  it existed before: on a first installation it is the doctor, run by root after the change
  of owners, that makes it, and the daemon cannot write its audit log there.
\<close>

theorem audit_directory_owner:
  assumes "run_installer env opts h = (Inr failed, h')" and "load_config (ho_config h') = Inr c"
    and "ie_command env ''chown'' [''-R'', service_name @ '':'' @ service_name, state_dir, log_dir] = None"
    and "audit = rc_audit_dir (ac_srt c)" and "below log_dir audit \<or> below state_dir audit"
    and "\<forall>x \<in> set installed_directories. audit \<notin> set (ancestors x)"
    and "audit \<in> set (ancestors audit)" and "de_make_dir (ie_doctor env) audit = None"
  shows "get (ho_dirs h') state_dir = Some ServiceOwned \<and> get (ho_dirs h') log_dir = Some ServiceOwned
    \<and> get (ho_dirs h') audit = Some (if has_key (ho_dirs h) audit then ServiceOwned else RootOwned)"
proof -
  obtain source h1 h2 where run: "run_steps env source steps_before h = (Inr (), h1)"
    "run_steps env source [WriteUnit, ChownData] (h1\<lparr>ho_config := ho_config h'\<rparr>) = (Inr (), h2)"
    "run_steps env source [DaemonReload, EnableService] (h2\<lparr>ho_dirs := doctor_makes (ie_doctor env) c (ho_dirs h2)\<rparr>) = (Inr (), h')"
    using assms(1) by (rule installation_stages) (use assms(2) in auto)
  have made: "MakeDirectory x \<in> set steps_before \<longleftrightarrow> x \<in> set installed_directories" for x
    by (auto simp: steps_before_def)
  have no_chown: "ChownData \<notin> set steps_before" by (auto simp: steps_before_def)
  have first: "get (ho_dirs h1) d = (case get (ho_dirs h) d of Some own \<Rightarrow> Some own
      | None \<Rightarrow> if \<exists>x \<in> set installed_directories. d \<in> set (ancestors x) then Some RootOwned else None)" for d
    using steps_dirs [OF run(1) no_chown, of d] made by (auto split: option.split)
  have chowned: "ho_dirs h2 = chown_dirs [state_dir, log_dir] (ho_dirs h1)"
    using chown_step [OF run(2) assms(3)] by simp
  have final: "get (ho_dirs h') d = (case get (ho_dirs h2) d of Some own \<Rightarrow> Some own
      | None \<Rightarrow> if \<exists>p \<in> set (doctor_dirs c). p \<noteq> [] \<and> de_make_dir (ie_doctor env) p = None \<and> d \<in> set (ancestors p) then Some RootOwned else None)" for d
    using steps_dirs [OF run(3), of d] by (simp add: doctor_makes_get split: option.splits)
  have "state_dir \<in> set (ancestors state_dir)" "log_dir \<in> set (ancestors log_dir)"
    by (simp_all add: ancestors_def state_dir_def log_dir_def has_prefix_def upt_rec)
  then have "\<exists>x \<in> set installed_directories. state_dir \<in> set (ancestors x)" "\<exists>x \<in> set installed_directories. log_dir \<in> set (ancestors x)"
    by (auto simp: installed_directories_def)
  then have data: "get (ho_dirs h') state_dir = Some ServiceOwned" "get (ho_dirs h') log_dir = Some ServiceOwned"
    by (auto simp: final chowned chown_dirs_get first below_def split: option.split)
  have "audit \<in> set (doctor_dirs c)" "audit \<noteq> []"
    using assms(4,5) by (auto simp: doctor_dirs_def below_def has_prefix_def state_dir_def log_dir_def)
  then have "get (ho_dirs h') audit = Some (if has_key (ho_dirs h) audit then ServiceOwned else RootOwned)"
    using assms(5-8) by (auto simp: final chowned chown_dirs_get first has_key_def split: option.split)
  then show ?thesis using data by simp
qed

subsection \<open>A first installation\<close>

definition quiet_doctor :: doctor_env where
  "quiet_doctor = \<lparr>de_look_path = (\<lambda>_. None), de_run = (\<lambda>_ _. None), de_make_dir = (\<lambda>_. None), de_write = (\<lambda>_. None)\<rparr>"

definition willing_host :: install_env where
  "willing_host = \<lparr>ie_root = True, ie_executable = Inr bin_path, ie_input = [], ie_input_failure = None, ie_cwd = Inr ''/root'',
     ie_stamp = (\<lambda>_. ''20260101T000000Z''), ie_command = (\<lambda>_ _. None), ie_make_dir = (\<lambda>_. None), ie_stat = (\<lambda>_. None),
     ie_open = (\<lambda>_. None), ie_create = (\<lambda>_. None), ie_copy = (\<lambda>_. None), ie_close = (\<lambda>_. None), ie_rename = (\<lambda>_. None),
     ie_write = None, ie_doctor = quiet_doctor\<rparr>"

definition fresh_host :: host where
  "fresh_host = \<lparr>ho_files = [], ho_dirs = [], ho_commands = [], ho_config = NoConfigFile\<rparr>"

definition unattended :: install_options where
  "unattended = \<lparr>io_port = 0, io_force_config = False, io_yes = True, io_source_path = []\<rparr>"

lemma willing [simp]:
  "ie_command willing_host x y = None" "ie_make_dir willing_host p = None" "ie_create willing_host p = None"
  "ie_copy willing_host p = None" "ie_close willing_host p = None"
  by (simp_all add: willing_host_def)

lemma willing_data:
  "\<exists>h'. do_step willing_host source (MakeDirectory d) h = (None, h') \<and> ho_files h' = ho_files h \<and> ho_config h' = ho_config h"
  "\<exists>h'. do_step willing_host source EnsureUser h = (None, h') \<and> ho_files h' = ho_files h \<and> ho_config h' = ho_config h"
  by (simp_all add: ensure_user_def run_program_def)

lemma willing_files:
  "do_step willing_host bin_path InstallBinary h = (None, h)"
  "ho_files h = [] \<Longrightarrow> do_step willing_host bin_path InstallWorker h = (None, h)"
  "ho_files h = [] \<Longrightarrow> do_step willing_host bin_path InstallScripts h = (None, h)"
proof -
  have "has_prefix bin_path ''/''" by (simp add: bin_path_def has_prefix_def)
  then show "do_step willing_host bin_path InstallBinary h = (None, h)"
    by (simp add: on_files_def install_binary_def abs_path_def)
  show "do_step willing_host bin_path InstallWorker h = (None, h)" if "ho_files h = []"
    using that by (simp add: on_files_def install_srt_worker_def Let_def has_key_def get_def)
  have "install_scripts willing_host dir names [] = (None, [])" for dir names
    by (induction names) (simp_all add: file_exists_def has_key_def get_def)
  then show "do_step willing_host bin_path InstallScripts h = (None, h)" if "ho_files h = []"
    using that by (simp add: on_files_def)
qed

lemma willing_directories:
  "\<exists>h'. run_steps willing_host source (map MakeDirectory ds) h = (Inr (), h') \<and> ho_files h' = ho_files h \<and> ho_config h' = ho_config h"
proof (induction ds arbitrary: h)
  case (Cons d ds)
  obtain h1 where "do_step willing_host source (MakeDirectory d) h = (None, h1)" "ho_files h1 = ho_files h" "ho_config h1 = ho_config h"
    using willing_data(1) by blast
  then show ?case using Cons.IH [of h1] by simp
qed simp

lemma willing_steps:
  "ho_files h = [] \<Longrightarrow> \<exists>h'. run_steps willing_host bin_path steps_before h = (Inr (), h') \<and> ho_config h' = ho_config h"
  "\<exists>h'. run_steps willing_host bin_path [WriteUnit, ChownData] h = (Inr (), h') \<and> ho_config h' = ho_config h"
  "\<exists>h'. run_steps willing_host bin_path [DaemonReload, EnableService] h = (Inr (), h') \<and> ho_config h' = ho_config h"
proof -
  assume f: "ho_files h = []"
  obtain h1 where h1: "do_step willing_host bin_path EnsureUser h = (None, h1)" "ho_files h1 = []" "ho_config h1 = ho_config h"
    using willing_data(2) f by metis
  obtain h2 where h2: "run_steps willing_host bin_path (map MakeDirectory installed_directories) h1 = (Inr (), h2)"
      "ho_files h2 = []" "ho_config h2 = ho_config h"
    using willing_directories [of bin_path installed_directories h1] h1 by auto
  have "run_steps willing_host bin_path [InstallBinary, InstallWorker, InstallScripts] h2 = (Inr (), h2)"
    by (simp add: willing_files h2(2) del: do_step.simps)
  then have "run_steps willing_host bin_path (map MakeDirectory installed_directories @ [InstallBinary, InstallWorker, InstallScripts]) h1 = (Inr (), h2)"
    using h2(1) run_steps_append by blast
  then show "\<exists>h'. run_steps willing_host bin_path steps_before h = (Inr (), h') \<and> ho_config h' = ho_config h"
    using h1 h2(3) by (simp add: steps_before_def)
next
  show "\<exists>h'. run_steps willing_host bin_path [WriteUnit, ChownData] h = (Inr (), h') \<and> ho_config h' = ho_config h"
    by (simp add: on_files_def write_unit_def chown_data_def run_program_def)
  show "\<exists>h'. run_steps willing_host bin_path [DaemonReload, EnableService] h = (Inr (), h') \<and> ho_config h' = ho_config h"
    by (simp add: run_program_def)
qed

lemma first_config:
  "install_config None 8080 False NoConfigFile = (Inr (), ConfigFile (marshal_config default_config))"
  "load_config (ConfigFile (marshal_config default_config)) = Inr (reloaded default_config)"
proof -
  have v: "validate_config default_config = Inr ()" by code_simp
  have "default_config\<lparr>ac_srt := ac_srt default_config\<lparr>rc_worker_path := rc_worker_path (ac_srt default_config)\<rparr>,
      ac_server := \<lparr>sc_bind = ''0.0.0.0'', sc_port = 8080\<rparr>\<rparr> = default_config"
    by (simp add: default_config_def)
  moreover have "rc_worker_path (ac_srt default_config) \<noteq> []"
    "rc_worker_path (ac_srt default_config) \<noteq> ''/opt/neotranscoder/bin/neotranscoder-srt-worker''"
    by (simp_all add: default_config_def)
  ultimately show "install_config None 8080 False NoConfigFile = (Inr (), ConfigFile (marshal_config default_config))"
    by (simp add: install_config_def installed_config_def load_config_def Let_def write_config_def v)
  show "load_config (ConfigFile (marshal_config default_config)) = Inr (reloaded default_config)" by (rule load_written [OF v])
qed

theorem audit_directory_owner_witness:
  "\<exists>failed h'. run_installer willing_host unattended fresh_host = (Inr failed, h')
    \<and> get (ho_dirs h') ''/var/log/neotranscoder'' = Some ServiceOwned
    \<and> get (ho_dirs h') ''/var/log/neotranscoder/srt-audit'' = Some RootOwned"
proof -
  have port: "install_port willing_host unattended = Inr 8080" by (rule unattended_port) (simp_all add: unattended_def)
  have source: "install_source willing_host unattended = Inr bin_path" by (simp add: install_source_def unattended_def willing_host_def)
  obtain h1 where h1: "run_steps willing_host bin_path steps_before fresh_host = (Inr (), h1)" "ho_config h1 = NoConfigFile"
    using willing_steps(1) [of fresh_host] by (auto simp: fresh_host_def)
  let ?g = "h1\<lparr>ho_config := ConfigFile (marshal_config default_config)\<rparr>"
  obtain h2 where h2: "run_steps willing_host bin_path [WriteUnit, ChownData] ?g = (Inr (), h2)"
      "ho_config h2 = ConfigFile (marshal_config default_config)"
    using willing_steps(2) [of ?g] by auto
  let ?c = "reloaded default_config"
  obtain h' where h': "run_steps willing_host bin_path [DaemonReload, EnableService]
      (h2\<lparr>ho_dirs := doctor_makes (ie_doctor willing_host) ?c (ho_dirs h2)\<rparr>) = (Inr (), h')"
      "ho_config h' = ConfigFile (marshal_config default_config)"
    using willing_steps(3) [of "h2\<lparr>ho_dirs := doctor_makes (ie_doctor willing_host) ?c (ho_dirs h2)\<rparr>"] h2(2) by auto
  have "ie_root willing_host" "ie_write willing_host = None" "\<not> io_force_config unattended"
    by (simp_all add: willing_host_def unattended_def)
  then have run: "run_installer willing_host unattended fresh_host = (Inr (snd (print_doctor (run_checks (ie_doctor willing_host) ?c))), h')"
    by (simp add: run_installer_def source port h1 h2 h' first_config del: run_steps.simps)
  let ?audit = "''/var/log/neotranscoder/srt-audit''"
  have audit: "?audit = rc_audit_dir (ac_srt ?c)" by (simp add: reloaded_keeps) (simp add: default_config_def)
  have a: "\<forall>x \<in> set installed_directories. ?audit \<notin> set (ancestors x)" "?audit \<in> set (ancestors ?audit)" "below log_dir ?audit"
    by (simp_all add: installed_directories_def ancestors_def config_dir_def state_dir_def log_dir_def lib_dir_def backup_dir_def
        has_prefix_def upt_rec below_def)
  have e: "ie_command willing_host x y = None" "de_make_dir (ie_doctor willing_host) ?audit = None" for x y
    by (simp_all add: willing_host_def quiet_doctor_def)
  have "load_config (ho_config h') = Inr ?c" by (simp add: h'(2) first_config)
  from audit_directory_owner [OF run this e(1) audit _ a(1,2) e(2)] a(3)
  have "get (ho_dirs h') log_dir = Some ServiceOwned \<and> get (ho_dirs h') ?audit = Some RootOwned"
    by (simp add: fresh_host_def has_key_def get_def)
  then show ?thesis using run by (simp add: log_dir_def)
qed

end
