(* ===== verification/Commands.thy ===== *)
theory Commands
  imports InstallerProps ServerRoutes NativeSrt
begin

text \<open>
  The two programs (\<open>cmd/neotranscoder/main.go\<close>, \<open>cmd/neotranscoder-srt-worker/main.go\<close>): their
  arguments and exit codes, where the daemon logs to, and what it runs. Build information is
  set by the linker and is an argument.
\<close>

record build_info =
  bi_version :: string
  bi_commit :: string
  bi_date :: string

definition unset_build_info :: build_info where
  "unset_build_info = \<lparr>bi_version = ''dev'', bi_commit = ''unknown'', bi_date = ''unknown''\<rparr>"

definition version_line :: "string \<Rightarrow> build_info \<Rightarrow> string" where
  "version_line program b = program @ '' '' @ bi_version b @ '' commit='' @ bi_commit b @ '' date='' @ bi_date b @ [byte 10]"

subsection \<open>The daemon\<close>

text \<open>The log file, when it can be opened, and the warning otherwise; standard output is always written.\<close>

definition log_file :: "(string \<Rightarrow> string option) \<Rightarrow> (string \<Rightarrow> string option) \<Rightarrow> app_config \<Rightarrow> string option \<times> string option" where
  "log_file make_dir open_append c = (let path = lc_path (ac_logs c) in
     if path = [] then (None, None)
     else (case make_dir (filepath_dir path) of
       Some e \<Rightarrow> (None, Some (''warning: cannot create log directory for '' @ path @ '': '' @ e))
     | None \<Rightarrow> (case open_append path of
         Some e \<Rightarrow> (None, Some (''warning: cannot open log file '' @ path @ '': '' @ e))
       | None \<Rightarrow> (Some path, None))))"

definition new_logger :: "(string \<Rightarrow> string option) \<Rightarrow> (string \<Rightarrow> string option) \<Rightarrow> app_config
    \<Rightarrow> (string option \<times> log_level) \<times> string option" where
  "new_logger make_dir open_append c = (case log_file make_dir open_append c of (target, warning) \<Rightarrow>
     ((target, parse_level (lc_level (ac_logs c))), warning))"

text \<open>How \<open>serve\<close> ends: \<open>new\<close> makes the server and \<open>run\<close> answers the error that ends it, if any.\<close>

definition serve_command :: "bool \<Rightarrow> config_file \<Rightarrow> (app_config \<Rightarrow> (server_error, server) result) \<Rightarrow> (server \<Rightarrow> string option) \<Rightarrow> nat" where
  "serve_command flags_ok f new run = (if \<not> flags_ok then 2
     else (case load_config f of
       Inl _ \<Rightarrow> 1
     | Inr c \<Rightarrow> (case new c of
         Inl _ \<Rightarrow> 1
       | Inr srv \<Rightarrow> (case run srv of Some _ \<Rightarrow> 1 | None \<Rightarrow> 0))))"

text \<open>The scripts replace the process: there is an exit code only when that fails.\<close>

definition run_script :: "(string \<Rightarrow> string list \<Rightarrow> string option) \<Rightarrow> string \<Rightarrow> string list \<Rightarrow> nat option" where
  "run_script exec path args = (case exec path (path # args) of Some _ \<Rightarrow> Some 1 | None \<Rightarrow> None)"

text \<open>A configuration that \<open>config validate\<close> accepts is one the daemon starts with.\<close>

lemma validated_config_is_served:
  assumes "run_config parse_flags failure (''validate'' # rest) f = (0, f')"
  shows "f' = f \<and> (\<exists>c. load_config f = Inr c \<and>
    serve_command True f new run = (case new c of Inl _ \<Rightarrow> 1 | Inr srv \<Rightarrow> (case run srv of Some _ \<Rightarrow> 1 | None \<Rightarrow> 0)))"
  using assms by (auto simp: run_config_def serve_command_def split: option.splits if_splits sum.splits prod.splits)

text \<open>The server that \<open>serve\<close> runs uses the configuration it read.\<close>

lemma served_config:
  "new_server now c streams srt fallback = Inr srv \<Longrightarrow> srv_cfg srv = c"
  by (auto simp: new_server_def split: sum.splits option.splits)

subsection \<open>The worker\<close>

text \<open>\<open>os.Args\<close> without the program; \<open>input\<close> is the JSON document decoded, \<open>run\<close> the error of \<open>Run\<close>.\<close>

definition worker_main :: "string list \<Rightarrow> (string, worker_config) result \<Rightarrow> (worker_config \<Rightarrow> string option) \<Rightarrow> nat" where
  "worker_main args input run =
     (if args = [''version''] then 0
      else if args \<noteq> [''--config-stdin''] then 2
      else (case input of
        Inl _ \<Rightarrow> 2
      | Inr config \<Rightarrow> (case run config of Some _ \<Rightarrow> 1 | None \<Rightarrow> 0)))"

end
