(* ===== verification/Spec2Isabelle.thy ===== *)
theory Spec2Isabelle
  imports NativeDemo StreamDemo ServerLifeDemo Commands
begin

text \<open>
  NeoTranscoder is an agent that runs ffmpeg processes for multicast streams and relays
  multicast input over SRT. One daemon (\<open>cmd/neotranscoder\<close>, \<open>internal/server\<close>) serves an HTTP API
  over two stores. The stream store (\<open>internal/streams/store.go\<close>) keeps streams, profiles,
  accounts and logs, and the stream manager (\<open>internal/streams/jobs.go\<close>) runs one ffmpeg per
  stream with the arguments of \<open>internal/ffmpeg/args.go\<close>. The SRT store (\<open>internal/srtrelay\<close>)
  keeps relays, clients, sessions and the audit log, and the SRT manager runs one worker process
  per relay (\<open>internal/srtworker\<close>), which gets its configuration on its input and reports events
  on its output. This development is a model of that Go code and the theorems about it.

  How the code is modelled

  A struct is a record with its fields in order, a set of error values is a datatype, a map is an
  association list with distinct keys whose order stands for the iteration order the runtime
  chooses, strings are byte strings. An operation is a function from the state to its result and
  the state afterwards; errors are \<open>Inl\<close>. Critical sections of the managers and the worker are
  functions of their own, composed as the handlers compose them, and also are the steps of
  transition systems (\<open>mgr_step\<close>, \<open>job_step\<close>, \<open>worker_step\<close>) in which goroutines interleave freely.
  What the code asks of its surroundings is an argument: the clock, randomness, the outcome of
  writes and of system calls, processes and signals, JSON as an encoder and a decoder, libsrt,
  and, where a handler waits, what the other goroutines do meanwhile. Integers are \<open>int\<close> where
  they cannot overflow and are wrapped or kept as words where they can (durations, counters of
  \<open>/proc\<close>, MPEG-TS packets, SHA-256).

  Theories

  \<^item> \<open>Prelude\<close>, \<open>GoStrings\<close>, \<open>GoDate\<close>, \<open>GoNet\<close>, \<open>GoNetLaws\<close>, \<open>GoUrl\<close>, \<open>Base64\<close>, \<open>Sha256\<close>, \<open>Http\<close>: what the
    sources use of Go's standard library, with its laws: maps, time as a linear order, numbers
    and their text, IP addresses and networks, URLs, unpadded base64, HMAC-SHA-256, and the
    choice of a handler by the multiplexer.
  \<^item> \<open>RestartLimiter\<close>, \<open>JobTable\<close>: the interfaces several components share, below.
  \<^item> \<open>SrtModels\<close>, \<open>SrtNetworks\<close>, \<open>SrtNormalize\<close>, \<open>SrtStore\<close>: data, validation and operations of the SRT
    store (\<open>models.go\<close>, \<open>protocol.go\<close>, \<open>store.go\<close>); \<open>SrtAudit\<close>: the audit log (\<open>audit.go\<close>) down to
    the bytes of its files. \<open>SrtStoreLaws\<close> has the invariant of the store and its preservation,
    \<open>SrtStoreProps\<close> the properties: references, ports, the round trip of the state file, key
    rotation, pruning, worker events.
  \<^item> \<open>SrtManager\<close>, \<open>SrtManagerProps\<close>: the worker processes of the relays (\<open>manager.go\<close>): one per
    relay in every interleaving, restarts and their limits, and the races of a stop.
  \<^item> \<open>StreamId\<close>, \<open>Continuity\<close>, \<open>SrtWorker\<close>: the worker (\<open>streamid.go\<close>, \<open>continuity.go\<close>, \<open>worker.go\<close>,
    \<open>random.go\<close>, the callback in \<open>native_srt.go\<close>). \<open>SrtWorkerLaws\<close> has its step relation and
    invariant, \<open>SrtWorkerProps\<close> and \<open>SrtWorkerMirror\<close> what follows: who is admitted, limits, the
    cutting of the input, events as a mirror of the sessions. \<open>SrtLink\<close> joins daemon and worker:
    configurations are accepted, and sessions shown are sessions held.
  \<^item> \<open>NativeSrt\<close>, \<open>NativeProps\<close>: the binding to libsrt (\<open>native_srt.go\<close> and the C functions of \<open>bridge.c\<close>
    it calls) over the answers of libsrt: what the callback lets through and with which
    encryption, that an accepted connection is the one it asked about, and no socket is leaked.
  \<^item> \<open>FfmpegArgs\<close>: the command line of ffmpeg (\<open>args.go\<close>), standard and template profiles.
  \<^item> \<open>Auth\<close>: accounts, password hashes and tokens (\<open>auth.go\<close>); \<open>StreamConfig\<close>, \<open>StreamStore\<close>: the stream
    store; \<open>StreamStoreLaws\<close>, \<open>StreamStoreProps\<close>: its invariant from any state file on, the round
    trip of the file, passwords and tokens, the bound of the log.
  \<^item> \<open>FfmpegLog\<close>, \<open>StreamWatch\<close>, \<open>StreamJobs\<close>: what is read from ffmpeg (\<open>errors.go\<close>, \<open>procmetrics.go\<close> and
    the readers in \<open>jobs.go\<close>), its watchdog, its start, stop, exit and restart. \<open>StreamJobsProps\<close>,
    \<open>StreamRestarts\<close>, \<open>StreamWatchdog\<close>: one ffmpeg per stream in every interleaving, what an exit
    leads to, the limit on restarts, and exactly when the watchdog kills.
  \<^item> \<open>AppConfig\<close>, \<open>AppConfigProps\<close>, \<open>Doctor\<close>: the configuration (\<open>config.go\<close>) and the checks
    (\<open>doctor.go\<close>): what a rewrite of the configuration keeps. \<open>InstallFiles\<close>, \<open>Installer\<close>,
    \<open>InstallerProps\<close>: the installer (\<open>installer.go\<close>) with the files it copies, the directories and
    their owners. \<open>Commands\<close>: the command lines of both programs (\<open>main.go\<close>). \<open>SysInfo\<close>: the figures of the host
    (\<open>internal/sysinfo\<close>) and what the CPU percentage means.
  \<^item> \<open>Server\<close>, \<open>ServerSrt\<close>, \<open>ServerRoutes\<close>: the handlers, routes, access check, start and shutdown of
    the server (\<open>server.go\<close>, \<open>probe.go\<close>). \<open>ServerProps\<close>: every request but the public ones needs a
    token. \<open>ServerLogin\<close>: what the tokens of a login are good for. \<open>ServerRevoke\<close>: how a deleted or
    rotated client reaches the workers. \<open>ServerStores\<close>: every handler changes the stores only by
    their own operations. \<open>ServerLife\<close>: the runs of a server, with requests, both managers and
    the readers of events as steps in any order, and what every reachable server keeps.
  \<^item> \<open>SrtStoreDemo\<close>, \<open>SrtManagerDemo\<close>, \<open>SrtWorkerDemo\<close>, \<open>StreamStoreDemo\<close>, \<open>StreamDemo\<close>, \<open>ServerDemo\<close>,
    \<open>ServerLifeDemo\<close>, \<open>NativeDemo\<close>: the properties applied to concrete states and requests.

  Interfaces

  \<^item> \<open>finite_map\<close> (\<open>Prelude\<close>): lookup after insertion and deletion, and the entries of a map;
    interpreted for the association lists all stores use.
  \<^item> \<open>attempt_limiter\<close> and \<open>restart_limiter\<close> (\<open>RestartLimiter\<close>): counting attempts in a window, and
    how many a window and any stretch of time can grant; interpreted for the restarts of relays
    (\<open>srt_limit\<close>), the restarts of streams (\<open>stream_limit\<close>) and the connection attempts of an
    address (\<open>connection_limit\<close>).
  \<^item> \<open>job_table\<close> (\<open>JobTable\<close>): a table of processes with a fresh token for each; interpreted for the
    SRT manager (\<open>relay_table\<close>) and the stream manager (\<open>stream_table\<close>).

  Bounds

  The limits of the code are kept as they are: 5 restarts of a relay in 5 minutes and at most
  121 looks at the clock in a restart (6 seconds, one look every 50 milliseconds), 60 connection
  attempts of an address in a minute and 10,000 addresses, 1,000 completed sessions, 500 log
  entries of a stream, lines of 1 MiB, 120,000 rounds of PBKDF2. There is no fuel in the model:
  loops are structural or have a measure, and the two that depend on others, the wait of a
  restart and the input loop of the worker, return \<open>None\<close> when they have not ended; that they
  do end is proved (\<open>restart_returns\<close>, \<open>input_cut_regardless_of_datagrams\<close>).

  Not modelled

  The text of JSON documents (an encoder and a decoder that are arguments), the texts that are
  logged, HTTP headers but for the warning, the files of the user interface; ParseFloat (an
  argument; percentages are exact fractions before the rounding of floats); libsrt itself (its
  answers are arguments), and of the bridge to it the cleanup and its log level; modes of files
  and what the commands of the installer do but for the change of owners; flags of the command
  lines, signals and the listening socket; shell scripts, the Flutter application.
\<close>

end
